theory Spec2Isabelle
  imports Main "HOL-Library.Word" "HOL-Library.AList" "HOL-Library.Sublist"
begin

section \<open>Values of the Python program\<close>

text \<open>
  The web application \<^verbatim>\<open>webapp/app.py\<close> keeps all of its data as JSON: the OAuth token
  and the setup state are files read with \<^verbatim>\<open>json.loads\<close> and written with
  \<^verbatim>\<open>json.dumps\<close>, and every cloud answer is read with \<^verbatim>\<open>resp.json()\<close>.
  A Python dict is an association list (insertion ordered, keys looked up with
  \<open>map_of\<close>, assigned with \<open>AList.update\<close>). JSON numbers are modelled as integers.
\<close>

datatype json =
    JNull
  | JBool bool
  | JNum int
  | JStr string
  | JArr "json list"
  | JObj "(string \<times> json) list"

type_synonym dict = "(string \<times> json) list"

type_synonym byte = "8 word"

text \<open>Python truthiness, as used by \<^verbatim>\<open>if x:\<close>, \<^verbatim>\<open>if not x:\<close> and \<^verbatim>\<open>x or y\<close>.\<close>

fun truthy :: "json \<Rightarrow> bool" where
  "truthy JNull = False"
| "truthy (JBool b) = b"
| "truthy (JNum n) = (n \<noteq> 0)"
| "truthy (JStr s) = (s \<noteq> [])"
| "truthy (JArr xs) = (xs \<noteq> [])"
| "truthy (JObj kvs) = (kvs \<noteq> [])"

text \<open>\<^verbatim>\<open>d.get(k)\<close> and \<^verbatim>\<open>d.get(k, default)\<close>: a missing key gives \<^verbatim>\<open>None\<close> or the default.\<close>

definition dict_get_default :: "dict \<Rightarrow> string \<Rightarrow> json \<Rightarrow> json" where
  "dict_get_default d k dflt = (case map_of d k of None \<Rightarrow> dflt | Some v \<Rightarrow> v)"

definition dict_get :: "dict \<Rightarrow> string \<Rightarrow> json" where
  "dict_get d k = dict_get_default d k JNull"

text \<open>\<^verbatim>\<open>d[k] = v\<close>.\<close>

definition dict_set :: "dict \<Rightarrow> string \<Rightarrow> json \<Rightarrow> dict" where
  "dict_set d k v = AList.update k v d"

text \<open>A query parameter or environment variable: \<^verbatim>\<open>None\<close> when absent.\<close>

definition opt_json :: "string option \<Rightarrow> json" where
  "opt_json x = (case x of None \<Rightarrow> JNull | Some s \<Rightarrow> JStr s)"

subsection \<open>Formatting\<close>

definition quote_ch :: char where
  "quote_ch = CHR 0x27"

definition digit_ch :: "nat \<Rightarrow> char" where
  "digit_ch d = ''0123456789'' ! (d mod 10)"

fun nat_str :: "nat \<Rightarrow> string" where
  "nat_str n = (if n < 10 then [digit_ch n] else nat_str (n div 10) @ [digit_ch (n mod 10)])"

declare nat_str.simps [simp del]

definition int_str :: "int \<Rightarrow> string" where
  "int_str i = (if i < 0 then CHR ''-'' # nat_str (nat (- i)) else nat_str (nat i))"

fun join_with :: "string \<Rightarrow> string list \<Rightarrow> string" where
  "join_with sep [] = []"
| "join_with sep [x] = x"
| "join_with sep (x # y # ys) = x @ sep @ join_with sep (y # ys)"

text \<open>
  \<^verbatim>\<open>repr\<close> of a value loaded from JSON. String escapes (a quote or a backslash inside a
  nested string) are not rendered; \<open>py_str\<close> below uses \<open>py_repr\<close> only for lists and
  dicts, which the program never interpolates when its files are its own.
\<close>

fun py_repr :: "json \<Rightarrow> string" where
  "py_repr JNull = ''None''"
| "py_repr (JBool b) = (if b then ''True'' else ''False'')"
| "py_repr (JNum n) = int_str n"
| "py_repr (JStr s) = quote_ch # s @ [quote_ch]"
| "py_repr (JArr xs) = ''['' @ join_with '', '' (map py_repr xs) @ '']''"
| "py_repr (JObj kvs) =
     ''{'' @ join_with '', '' (map (\<lambda>(k, v). quote_ch # k @ [quote_ch] @ '': '' @ py_repr v) kvs) @ ''}''"

text \<open>\<^verbatim>\<open>str(x)\<close>, the interpolation \<^verbatim>\<open>{x}\<close> of an f-string.\<close>

definition py_str :: "json \<Rightarrow> string" where
  "py_str j = (case j of JStr s \<Rightarrow> s | _ \<Rightarrow> py_repr j)"

text \<open>\<^verbatim>\<open>s.rstrip(c)\<close> for a single character \<open>c\<close>.\<close>

definition rstrip :: "char \<Rightarrow> string \<Rightarrow> string" where
  "rstrip c s = rev (dropWhile (\<lambda>x. x = c) (rev s))"

subsection \<open>Exceptions\<close>

text \<open>
  The exceptions the handlers can meet. \<open>exn_str\<close> is \<^verbatim>\<open>str(e)\<close>, which
  \<^verbatim>\<open>run_setup\<close> reports. \<open>RequestException\<close> is anything raised by the
  \<^verbatim>\<open>requests\<close> library (connection refused, timeout), \<open>JSONDecodeError\<close> is
  \<^verbatim>\<open>resp.json()\<close> on a body that is not JSON, \<open>BadRequest\<close> is Flask's answer to
  \<^verbatim>\<open>request.json\<close> on a request without a JSON body.
\<close>

datatype exn =
    KeyError string
  | TypeError string
  | AttributeError string
  | RequestException string
  | JSONDecodeError string
  | BadRequest

fun exn_str :: "exn \<Rightarrow> string" where
  "exn_str (KeyError k) = quote_ch # k @ [quote_ch]"
| "exn_str (TypeError m) = m"
| "exn_str (AttributeError m) = m"
| "exn_str (RequestException m) = m"
| "exn_str (JSONDecodeError m) = m"
| "exn_str BadRequest = ''400 Bad Request''"

fun type_name :: "json \<Rightarrow> string" where
  "type_name JNull = ''NoneType''"
| "type_name (JBool _) = ''bool''"
| "type_name (JNum _) = ''int''"
| "type_name (JStr _) = ''str''"
| "type_name (JArr _) = ''list''"
| "type_name (JObj _) = ''dict''"

text \<open>\<^verbatim>\<open>x[k]\<close> with a string key: only a dict that has the key answers.\<close>

fun subscript :: "json \<Rightarrow> string \<Rightarrow> exn + json" where
  "subscript (JObj kvs) k = (case map_of kvs k of None \<Rightarrow> Inl (KeyError k) | Some v \<Rightarrow> Inr v)"
| "subscript (JArr xs) k = Inl (TypeError ''list indices must be integers or slices, not str'')"
| "subscript (JStr s) k = Inl (TypeError ''string indices must be integers'')"
| "subscript j k = Inl (TypeError (quote_ch # type_name j @ quote_ch # '' object is not subscriptable''))"

text \<open>\<^verbatim>\<open>x.get(k, default)\<close> on a value that may not be a dict.\<close>

fun attr_get :: "json \<Rightarrow> string \<Rightarrow> json \<Rightarrow> exn + json" where
  "attr_get (JObj kvs) k dflt = Inr (dict_get_default kvs k dflt)"
| "attr_get j k dflt =
     Inl (AttributeError (quote_ch # type_name j @ quote_ch # '' object has no attribute '' @ quote_ch # ''get'' @ [quote_ch]))"

section \<open>Encodings of the standard library\<close>

subsection \<open>Hexadecimal\<close>

definition hex_lower :: "nat \<Rightarrow> char" where
  "hex_lower d = ''0123456789abcdef'' ! (d mod 16)"

definition hex_upper :: "nat \<Rightarrow> char" where
  "hex_upper d = ''0123456789ABCDEF'' ! (d mod 16)"

text \<open>\<^verbatim>\<open>bytes.hex()\<close>: two lower-case digits per byte.\<close>

definition bytes_hex :: "byte list \<Rightarrow> string" where
  "bytes_hex bs = concat (map (\<lambda>b. [hex_lower (unat b div 16), hex_lower (unat b mod 16)]) bs)"

subsection \<open>Base64 with the URL-safe alphabet\<close>

definition b64_alphabet :: string where
  "b64_alphabet = ''ABCDEFGHIJKLMNOPQRSTUVWXYZabcdefghijklmnopqrstuvwxyz0123456789-_''"

definition b64_ch :: "nat \<Rightarrow> char" where
  "b64_ch i = b64_alphabet ! (i mod 64)"

text \<open>
  \<^verbatim>\<open>base64.urlsafe_b64encode\<close>: three bytes give four characters; a last group of one
  or two bytes is padded with \<^verbatim>\<open>=\<close>.
\<close>

fun urlsafe_b64encode :: "byte list \<Rightarrow> string" where
  "urlsafe_b64encode [] = []"
| "urlsafe_b64encode [a] =
     [b64_ch (unat a div 4), b64_ch ((unat a mod 4) * 16), CHR ''='', CHR ''='']"
| "urlsafe_b64encode [a, b] =
     [b64_ch (unat a div 4), b64_ch ((unat a mod 4) * 16 + unat b div 16),
      b64_ch ((unat b mod 16) * 4), CHR ''='']"
| "urlsafe_b64encode (a # b # c # rest) =
     [b64_ch (unat a div 4), b64_ch ((unat a mod 4) * 16 + unat b div 16),
      b64_ch ((unat b mod 16) * 4 + unat c div 64), b64_ch (unat c mod 64)]
     @ urlsafe_b64encode rest"

text \<open>The composition the program uses twice: encode, then strip the padding.\<close>

definition base64url_nopad :: "byte list \<Rightarrow> string" where
  "base64url_nopad bs = rstrip (CHR ''='') (urlsafe_b64encode bs)"

text \<open>\<^verbatim>\<open>str.encode()\<close> and \<^verbatim>\<open>bytes.decode()\<close> on ASCII text.\<close>

definition encode :: "string \<Rightarrow> byte list" where
  "encode s = map of_char s"

subsection \<open>Query strings\<close>

definition unreserved :: "char \<Rightarrow> bool" where
  "unreserved c = (c \<in> set (b64_alphabet @ ''.~''))"

text \<open>\<^verbatim>\<open>urllib.parse.quote_plus\<close> and \<^verbatim>\<open>urlencode\<close> of a dict of strings.\<close>

definition quote_plus :: "string \<Rightarrow> string" where
  "quote_plus s = concat (map (\<lambda>c.
       if unreserved c then [c]
       else if c = CHR '' '' then ''+''
       else [CHR ''%'', hex_upper (of_char c div 16), hex_upper (of_char c mod 16)]) s)"

definition urlencode :: "(string \<times> string) list \<Rightarrow> string" where
  "urlencode params = join_with ''&'' (map (\<lambda>(k, v). quote_plus k @ ''='' @ quote_plus v) params)"

section \<open>The world of the program\<close>

text \<open>
  An HTTP request as handed to \<^verbatim>\<open>requests\<close>, and what comes back: an exception of the
  library, or a response with its status code, its text, and the result of
  \<^verbatim>\<open>resp.json()\<close> (which raises on a body that is not JSON).
\<close>

datatype body = NoBody | JsonBody json | FormBody dict

record request =
  meth :: string
  url :: string
  headers :: "(string \<times> string) list"
  payload :: body

record response =
  status_code :: nat
  resp_text :: string
  body_json :: "exn + json"

datatype outcome = Raises exn | Responds response

text \<open>
  What the program does not control: \<open>net\<close> answers the \<open>i\<close>-th HTTP request the
  process issues (identity provider, cloud APIs and supervisor alike), \<open>urandom\<close> is the
  operating system's random source read by \<^verbatim>\<open>secrets\<close>, \<open>sha256\<close> is
  \<^verbatim>\<open>hashlib.sha256(...).digest()\<close>, \<open>environ\<close> is \<^verbatim>\<open>os.environ\<close>.
\<close>

record env =
  net :: "nat \<Rightarrow> outcome"
  urandom :: "nat \<Rightarrow> byte"
  sha256 :: "byte list \<Rightarrow> byte list"
  environ :: "(string \<times> string) list"

text \<open>
  What the program changes: the two files under \<^verbatim>\<open>/data\<close> (\<open>None\<close> when the file does
  not exist), the Flask session, the requests issued so far (oldest first), the number of
  random bytes drawn, and the seconds spent in \<^verbatim>\<open>time.sleep\<close>.
\<close>

record world =
  token_file :: "json option"
  setup_file :: "dict option"
  session :: dict
  calls :: "request list"
  drawn :: nat
  slept :: nat

text \<open>What a view function returns to Flask; \<open>Unhandled\<close> is an exception leaving the view.\<close>

datatype reply =
    Jsonify dict nat
  | Render string dict
  | Redirect string
  | Unhandled exn

subsection \<open>Constants\<close>

definition GOOGLE_CLIENT_ID :: string where
  "GOOGLE_CLIENT_ID = ''292824132082-7a1h7ae29f4aepk6qng3296kdlnpqhea.apps.googleusercontent.com''"

definition GOOGLE_AUTH_URL :: string where
  "GOOGLE_AUTH_URL = ''https://accounts.google.com/o/oauth2/v2/auth''"

definition GOOGLE_TOKEN_URL :: string where
  "GOOGLE_TOKEN_URL = ''https://oauth2.googleapis.com/token''"

definition SCOPES :: "string list" where
  "SCOPES = [''https://www.googleapis.com/auth/cloud-platform'',
             ''https://www.googleapis.com/auth/userinfo.email'']"

definition TUNNEL_IMAGE :: string where
  "TUNNEL_IMAGE = ''ghcr.io/bramalkema/gcp-ha-tunnel/tunnel-server:latest''"

subsection \<open>Helpers\<close>

definition get_ingress_path :: "env \<Rightarrow> string" where
  "get_ingress_path e = (case map_of (environ e) ''INGRESS_PATH'' of None \<Rightarrow> [] | Some p \<Rightarrow> p)"

text \<open>\<^verbatim>\<open>secrets.token_bytes\<close>, \<^verbatim>\<open>token_hex\<close> and \<^verbatim>\<open>token_urlsafe\<close>.\<close>

definition token_bytes :: "env \<Rightarrow> nat \<Rightarrow> world \<Rightarrow> byte list \<times> world" where
  "token_bytes e n w = (map (urandom e) [drawn w ..< drawn w + n], w\<lparr>drawn := drawn w + n\<rparr>)"

definition token_hex :: "env \<Rightarrow> nat \<Rightarrow> world \<Rightarrow> string \<times> world" where
  "token_hex e n w = (case token_bytes e n w of (bs, w') \<Rightarrow> (bytes_hex bs, w'))"

definition token_urlsafe :: "env \<Rightarrow> nat \<Rightarrow> world \<Rightarrow> string \<times> world" where
  "token_urlsafe e n w = (case token_bytes e n w of (bs, w') \<Rightarrow> (base64url_nopad bs, w'))"

definition generate_project_name :: "env \<Rightarrow> world \<Rightarrow> string \<times> world" where
  "generate_project_name e w =
     (case token_hex e 3 w of (hex, w') \<Rightarrow> (''ha-tunnel-'' @ hex, w'))"

definition generate_password :: "env \<Rightarrow> world \<Rightarrow> string \<times> world" where
  "generate_password e w = token_urlsafe e 24 w"

definition get_setup_state :: "world \<Rightarrow> dict" where
  "get_setup_state w =
     (case setup_file w of
        Some d \<Rightarrow> d
      | None \<Rightarrow> [(''step'', JStr ''start''), (''project_id'', JNull), (''password'', JNull)])"

definition save_setup_state :: "dict \<Rightarrow> world \<Rightarrow> world" where
  "save_setup_state state w = w\<lparr>setup_file := Some state\<rparr>"

definition get_token :: "world \<Rightarrow> json" where
  "get_token w = (case token_file w of Some t \<Rightarrow> t | None \<Rightarrow> JNull)"

definition save_token :: "json \<Rightarrow> world \<Rightarrow> world" where
  "save_token token w = w\<lparr>token_file := Some token\<rparr>"

text \<open>One call of \<^verbatim>\<open>requests.request\<close> / \<^verbatim>\<open>requests.post\<close>: logged, then answered.\<close>

definition requests_request :: "env \<Rightarrow> request \<Rightarrow> world \<Rightarrow> (exn + response) \<times> world" where
  "requests_request e r w =
     (case net e (length (calls w)) of
        Raises ex \<Rightarrow> (Inl ex, w\<lparr>calls := calls w @ [r]\<rparr>)
      | Responds resp \<Rightarrow> (Inr resp, w\<lparr>calls := calls w @ [r]\<rparr>))"

text \<open>\<^verbatim>\<open>token['access_token']\<close> is evaluated before the request is made.\<close>

definition gcp_request :: "string \<Rightarrow> string \<Rightarrow> json \<Rightarrow> body \<Rightarrow> request" where
  "gcp_request m u access_token b =
     \<lparr>meth = m, url = u,
      headers = [(''Authorization'', ''Bearer '' @ py_str access_token),
                 (''Content-Type'', ''application/json'')],
      payload = b\<rparr>"

definition gcp_api :: "env \<Rightarrow> string \<Rightarrow> string \<Rightarrow> json \<Rightarrow> body \<Rightarrow> world \<Rightarrow> (exn + response) \<times> world" where
  "gcp_api e m u token b w =
     (case subscript token ''access_token'' of
        Inl ex \<Rightarrow> (Inl ex, w)
      | Inr access_token \<Rightarrow> requests_request e (gcp_request m u access_token b) w)"

section \<open>Authorization flow\<close>

definition redirect_uri :: "env \<Rightarrow> string \<Rightarrow> string" where
  "redirect_uri e url_root = rstrip (CHR ''/'') url_root @ get_ingress_path e @ ''/auth/callback''"

definition auth_params :: "env \<Rightarrow> string \<Rightarrow> string \<Rightarrow> (string \<times> string) list" where
  "auth_params e url_root code_challenge =
     [(''client_id'', GOOGLE_CLIENT_ID),
      (''redirect_uri'', redirect_uri e url_root),
      (''response_type'', ''code''),
      (''scope'', join_with '' '' SCOPES),
      (''code_challenge'', code_challenge),
      (''code_challenge_method'', ''S256''),
      (''access_type'', ''offline''),
      (''prompt'', ''consent'')]"

text \<open>\<^verbatim>\<open>auth_start\<close>: the argument \<open>url_root\<close> is \<^verbatim>\<open>request.url_root\<close>.\<close>

definition auth_start :: "env \<Rightarrow> string \<Rightarrow> world \<Rightarrow> reply \<times> world" where
  "auth_start e url_root w =
     (case token_urlsafe e 64 w of (code_verifier, w1) \<Rightarrow>
        let code_challenge = rstrip (CHR ''='') (urlsafe_b64encode (sha256 e (encode code_verifier)));
            w2 = w1\<lparr>session := dict_set (session w1) ''code_verifier'' (JStr code_verifier)\<rparr>;
            params = auth_params e url_root code_challenge
        in (Redirect (GOOGLE_AUTH_URL @ ''?'' @ urlencode params), w2))"

text \<open>
  \<^verbatim>\<open>auth_callback\<close>: \<open>code\<close> and \<open>error\<close> are \<^verbatim>\<open>request.args.get("code")\<close> and
  \<^verbatim>\<open>request.args.get("error")\<close>, \<open>None\<close> when the query string has no such parameter.
  The call of \<^verbatim>\<open>requests.post\<close> and \<^verbatim>\<open>resp.json()\<close> are outside any \<^verbatim>\<open>try\<close>.
\<close>

definition auth_callback :: "env \<Rightarrow> string \<Rightarrow> string option \<Rightarrow> string option \<Rightarrow> world \<Rightarrow> reply \<times> world" where
  "auth_callback e url_root code error w =
     (if truthy (opt_json error) then (Render ''error.html'' [(''error'', opt_json error)], w)
      else if \<not> truthy (opt_json code) then
        (Render ''error.html'' [(''error'', JStr ''No authorization code received'')], w)
      else
        let code_verifier = dict_get (session w) ''code_verifier'' in
        case requests_request e
               \<lparr>meth = ''POST'', url = GOOGLE_TOKEN_URL, headers = [],
                payload = FormBody
                  [(''client_id'', JStr GOOGLE_CLIENT_ID),
                   (''code'', opt_json code),
                   (''code_verifier'', code_verifier),
                   (''grant_type'', JStr ''authorization_code''),
                   (''redirect_uri'', JStr (redirect_uri e url_root))]\<rparr> w of
          (Inl ex, w1) \<Rightarrow> (Unhandled ex, w1)
        | (Inr resp, w1) \<Rightarrow>
            if status_code resp \<noteq> 200 then
              (Render ''error.html'' [(''error'', JStr (''Token exchange failed: '' @ resp_text resp))], w1)
            else
              (case body_json resp of
                 Inl ex \<Rightarrow> (Unhandled ex, w1)
               | Inr token \<Rightarrow>
                   let w2 = save_token token w1;
                       state = get_setup_state w2;
                       state = dict_set state ''step'' (JStr ''authenticated'');
                       w3 = save_setup_state state w2
                   in (Redirect (get_ingress_path e @ ''/''), w3)))"

section \<open>Provisioning\<close>

text \<open>
  \<^verbatim>\<open>update_addon_config\<close>: nothing is done without a supervisor token; the restart is
  requested only after the options were accepted. No exception is caught here.
\<close>

definition addon_config :: "dict \<Rightarrow> dict" where
  "addon_config state =
     [(''server_url'', dict_get_default state ''server_url'' (JStr [])),
      (''auth_user'', JStr ''hauser''),
      (''auth_pass'', dict_get_default state ''password'' (JStr [])),
      (''google_project_id'', dict_get_default state ''project_id'' (JStr [])),
      (''local_port'', JNum 8123),
      (''keepalive'', JStr ''25s''),
      (''log_level'', JStr ''info''),
      (''google_secure_devices_pin'', JStr [])]"

definition options_request :: "json \<Rightarrow> dict \<Rightarrow> request" where
  "options_request supervisor_token config =
     \<lparr>meth = ''POST'', url = ''http://supervisor/addons/self/options'',
      headers = [(''Authorization'', ''Bearer '' @ py_str supervisor_token)],
      payload = JsonBody (JObj [(''options'', JObj config)])\<rparr>"

definition restart_request :: "json \<Rightarrow> request" where
  "restart_request supervisor_token =
     \<lparr>meth = ''POST'', url = ''http://supervisor/addons/self/restart'',
      headers = [(''Authorization'', ''Bearer '' @ py_str supervisor_token)],
      payload = NoBody\<rparr>"

definition update_addon_config :: "env \<Rightarrow> dict \<Rightarrow> world \<Rightarrow> (exn + unit) \<times> world" where
  "update_addon_config e state w =
     (let supervisor_token = opt_json (map_of (environ e) ''SUPERVISOR_TOKEN'') in
      if \<not> truthy supervisor_token then (Inr (), w)
      else
        let config = addon_config state in
        case requests_request e (options_request supervisor_token config) w of
          (Inl ex, w1) \<Rightarrow> (Inl ex, w1)
        | (Inr resp, w1) \<Rightarrow>
            if status_code resp = 200 then
              (case requests_request e (restart_request supervisor_token) w1 of
                 (Inl ex, w2) \<Rightarrow> (Inl ex, w2)
               | (Inr resp2, w2) \<Rightarrow> (Inr (), w2))
            else (Inr (), w1))"

text \<open>The service descriptor built in \<^verbatim>\<open>run_setup\<close>; it depends on the password only.\<close>

definition service_config :: "json \<Rightarrow> json" where
  "service_config password =
     JObj [
       (''apiVersion'', JStr ''serving.knative.dev/v1''),
       (''kind'', JStr ''Service''),
       (''metadata'', JObj [
          (''name'', JStr ''ha-tunnel''),
          (''annotations'', JObj [(''run.googleapis.com/ingress'', JStr ''all'')])]),
       (''spec'', JObj [
          (''template'', JObj [
             (''metadata'', JObj [
                (''annotations'', JObj [
                   (''autoscaling.knative.dev/minScale'', JStr ''0''),
                   (''autoscaling.knative.dev/maxScale'', JStr ''1''),
                   (''run.googleapis.com/cpu-throttling'', JStr ''true'')])]),
             (''spec'', JObj [
                (''containerConcurrency'', JNum 80),
                (''timeoutSeconds'', JNum 3600),
                (''containers'', JArr [JObj [
                   (''image'', JStr TUNNEL_IMAGE),
                   (''env'', JArr [JObj [
                      (''name'', JStr ''AUTH''),
                      (''value'', JStr (''hauser:'' @ py_str password))]]),
                   (''resources'', JObj [
                      (''limits'', JObj [(''cpu'', JStr ''1''), (''memory'', JStr ''256Mi'')])]),
                   (''ports'', JArr [JObj [(''containerPort'', JNum 8080)]])]])])])])]"

definition region :: string where
  "region = ''us-central1''"

definition iam_policy :: json where
  "iam_policy = JObj [(''bindings'', JArr [JObj [
      (''role'', JStr ''roles/run.invoker''),
      (''members'', JArr [JStr ''allUsers''])]])]"

subsection \<open>The URLs of the cloud calls\<close>

definition projects_url :: string where
  "projects_url = ''https://cloudresourcemanager.googleapis.com/v1/projects''"

definition billing_url :: "json \<Rightarrow> string" where
  "billing_url project_id =
     ''https://cloudbilling.googleapis.com/v1/projects/'' @ py_str project_id @ ''/billingInfo''"

definition enable_url :: "json \<Rightarrow> string \<Rightarrow> string" where
  "enable_url project_id api =
     ''https://serviceusage.googleapis.com/v1/projects/'' @ py_str project_id @ ''/services/'' @ api @ '':enable''"

definition services_url :: "json \<Rightarrow> string" where
  "services_url project_id =
     ''https://run.googleapis.com/apis/serving.knative.dev/v1/namespaces/'' @ py_str project_id @ ''/services''"

definition service_put_url :: "json \<Rightarrow> string" where
  "service_put_url project_id =
     ''https://run.googleapis.com/apis/serving.knative.dev/v1/namespaces/'' @ py_str project_id @ ''/services/ha-tunnel''"

definition set_iam_url :: "json \<Rightarrow> string" where
  "set_iam_url project_id =
     ''https://run.googleapis.com/v1/projects/'' @ py_str project_id @ ''/locations/'' @ region @ ''/services/ha-tunnel:setIamPolicy''"

definition service_get_url :: "json \<Rightarrow> string" where
  "service_get_url project_id =
     ''https://run.googleapis.com/v1/projects/'' @ py_str project_id @ ''/locations/'' @ region @ ''/services/ha-tunnel''"

subsection \<open>The body of the \<^verbatim>\<open>try\<close> block, last part first\<close>

text \<open>
  Each part returns the exception that left it (\<open>Inl\<close>) or the reply of a
  \<^verbatim>\<open>return\<close> statement (\<open>Inr\<close>), and the world as it is then. The local variables
  \<^verbatim>\<open>token\<close>, \<^verbatim>\<open>project_id\<close>, \<^verbatim>\<open>password\<close>, \<^verbatim>\<open>billing_account\<close> and the dict
  \<^verbatim>\<open>state\<close> are passed along.
\<close>

text \<open>Reading \<^verbatim>\<open>status.url\<close> of the service, which happens only on status 200.\<close>

definition read_service_url :: "response \<Rightarrow> dict \<Rightarrow> exn + dict" where
  "read_service_url resp state =
     (if status_code resp = 200 then
        (case body_json resp of
           Inl ex \<Rightarrow> Inl ex
         | Inr service_data \<Rightarrow>
             (case attr_get service_data ''status'' (JObj []) of
                Inl ex \<Rightarrow> Inl ex
              | Inr st \<Rightarrow>
                  (case attr_get st ''url'' (JStr []) of
                     Inl ex \<Rightarrow> Inl ex
                   | Inr service_url \<Rightarrow> Inr (dict_set state ''server_url'' service_url))))
      else Inr state)"

text \<open>"Get service URL" up to the final \<^verbatim>\<open>return jsonify(...)\<close>.\<close>

definition success_reply :: "json \<Rightarrow> json \<Rightarrow> json \<Rightarrow> reply" where
  "success_reply project_id server_url password =
     Jsonify [(''success'', JBool True),
              (''project_id'', project_id),
              (''server_url'', server_url),
              (''password'', password)] 200"

definition setup_finish :: "env \<Rightarrow> json \<Rightarrow> json \<Rightarrow> json \<Rightarrow> dict \<Rightarrow> world \<Rightarrow> (exn + reply) \<times> world" where
  "setup_finish e token project_id password state w =
     (case gcp_api e ''GET'' (service_get_url project_id) token NoBody w of
        (Inl ex, w1) \<Rightarrow> (Inl ex, w1)
      | (Inr resp, w1) \<Rightarrow>
          (case read_service_url resp state of
             Inl ex \<Rightarrow> (Inl ex, w1)
           | Inr state1 \<Rightarrow>
               let state2 = dict_set state1 ''step'' (JStr ''complete'');
                   w2 = save_setup_state state2 w1
               in
               (case update_addon_config e state2 w2 of
                  (Inl ex, w3) \<Rightarrow> (Inl ex, w3)
                | (Inr u, w3) \<Rightarrow>
                    (Inr (success_reply project_id
                            (dict_get_default state2 ''server_url'' (JStr [])) password), w3))))"

text \<open>"Step 5: Make service public": the answer is not looked at.\<close>

definition setup_make_public :: "env \<Rightarrow> json \<Rightarrow> json \<Rightarrow> json \<Rightarrow> dict \<Rightarrow> world \<Rightarrow> (exn + reply) \<times> world" where
  "setup_make_public e token project_id password state w =
     (case gcp_api e ''POST'' (set_iam_url project_id) token
             (JsonBody (JObj [(''policy'', iam_policy)])) w of
        (Inl ex, w1) \<Rightarrow> (Inl ex, w1)
      | (Inr resp, w1) \<Rightarrow> setup_finish e token project_id password state w1)"

text \<open>"Step 4: Deploy Cloud Run": create, and on any status but 200 or 201 update.\<close>

definition deploy_ok :: "response \<Rightarrow> bool" where
  "deploy_ok resp = (status_code resp \<in> {200, 201})"

definition deploy_failed :: "response \<Rightarrow> reply" where
  "deploy_failed resp = Jsonify [(''error'', JStr (''Failed to deploy: '' @ resp_text resp))] 500"

definition setup_deploy :: "env \<Rightarrow> json \<Rightarrow> json \<Rightarrow> json \<Rightarrow> dict \<Rightarrow> world \<Rightarrow> (exn + reply) \<times> world" where
  "setup_deploy e token project_id password state w =
     (let state1 = dict_set state ''step'' (JStr ''deploying'');
          w1 = save_setup_state state1 w
      in
      case gcp_api e ''POST'' (services_url project_id) token
             (JsonBody (service_config password)) w1 of
        (Inl ex, w2) \<Rightarrow> (Inl ex, w2)
      | (Inr resp, w2) \<Rightarrow>
          if \<not> deploy_ok resp then
            (case gcp_api e ''PUT'' (service_put_url project_id) token
                    (JsonBody (service_config password)) w2 of
               (Inl ex, w3) \<Rightarrow> (Inl ex, w3)
             | (Inr resp2, w3) \<Rightarrow>
                 if \<not> deploy_ok resp2 then (Inr (deploy_failed resp2), w3)
                 else setup_make_public e token project_id password state1 w3)
          else setup_make_public e token project_id password state1 w2)"

text \<open>"Step 3: Enable APIs": the loop ignores every answer, then the program sleeps.\<close>

definition apis :: "string list" where
  "apis = [''run.googleapis.com'', ''cloudbuild.googleapis.com'']"

fun enable_apis :: "env \<Rightarrow> json \<Rightarrow> json \<Rightarrow> string list \<Rightarrow> world \<Rightarrow> (exn + unit) \<times> world" where
  "enable_apis e token project_id [] w = (Inr (), w)"
| "enable_apis e token project_id (api # rest) w =
     (case gcp_api e ''POST'' (enable_url project_id api) token NoBody w of
        (Inl ex, w1) \<Rightarrow> (Inl ex, w1)
      | (Inr resp, w1) \<Rightarrow> enable_apis e token project_id rest w1)"

definition setup_enable_apis :: "env \<Rightarrow> json \<Rightarrow> json \<Rightarrow> json \<Rightarrow> dict \<Rightarrow> world \<Rightarrow> (exn + reply) \<times> world" where
  "setup_enable_apis e token project_id password state w =
     (let state1 = dict_set state ''step'' (JStr ''enabling_apis'');
          w1 = save_setup_state state1 w
      in
      case enable_apis e token project_id apis w1 of
        (Inl ex, w2) \<Rightarrow> (Inl ex, w2)
      | (Inr u, w2) \<Rightarrow>
          setup_deploy e token project_id password state1 (w2\<lparr>slept := slept w2 + 5\<rparr>))"

text \<open>"Step 2: Link billing", entered after the project was created.\<close>

definition billing_failed :: "response \<Rightarrow> reply" where
  "billing_failed resp =
     Jsonify [(''error'', JStr (''Failed to link billing: '' @ resp_text resp)),
              (''billing_required'', JBool True)] 400"

definition setup_link_billing :: "env \<Rightarrow> json \<Rightarrow> json \<Rightarrow> json \<Rightarrow> json \<Rightarrow> dict \<Rightarrow> world \<Rightarrow> (exn + reply) \<times> world" where
  "setup_link_billing e token project_id password billing_account state w =
     (let state1 = dict_set state ''step'' (JStr ''linking_billing'');
          w1 = save_setup_state state1 w
      in
      if truthy billing_account then
        (case gcp_api e ''PUT'' (billing_url project_id) token
                (JsonBody (JObj [(''billingAccountName'', billing_account)])) w1 of
           (Inl ex, w2) \<Rightarrow> (Inl ex, w2)
         | (Inr resp, w2) \<Rightarrow>
             if status_code resp \<noteq> 200 then (Inr (billing_failed resp), w2)
             else setup_enable_apis e token project_id password state1 w2)
      else setup_enable_apis e token project_id password state1 w1)"

text \<open>"Step 1: Create project": 409 means the project already exists.\<close>

definition project_failed :: "response \<Rightarrow> reply" where
  "project_failed resp =
     Jsonify [(''error'', JStr (''Failed to create project: '' @ resp_text resp))] 500"

definition setup_create_project :: "env \<Rightarrow> json \<Rightarrow> json \<Rightarrow> json \<Rightarrow> json \<Rightarrow> dict \<Rightarrow> world \<Rightarrow> (exn + reply) \<times> world" where
  "setup_create_project e token project_id password billing_account state w =
     (case gcp_api e ''POST'' projects_url token
             (JsonBody (JObj [(''projectId'', project_id), (''name'', JStr ''HA Tunnel'')])) w of
        (Inl ex, w1) \<Rightarrow> (Inl ex, w1)
      | (Inr resp, w1) \<Rightarrow>
          if status_code resp \<notin> {200, 409} then (Inr (project_failed resp), w1)
          else setup_link_billing e token project_id password billing_account state w1)"

subsection \<open>\<^verbatim>\<open>run_setup\<close>\<close>

text \<open>
  \<open>request_json\<close> is \<^verbatim>\<open>request.json\<close>: \<open>None\<close> when the request has no JSON body.
  \<^verbatim>\<open>x or f()\<close> calls \<open>f\<close> only when \<open>x\<close> is falsy. The first save happens before the
  \<^verbatim>\<open>try\<close>; every exception inside it becomes an error reply with status 500.
\<close>

definition resolve_project_id :: "env \<Rightarrow> dict \<Rightarrow> world \<Rightarrow> json \<times> world" where
  "resolve_project_id e state w =
     (if truthy (dict_get state ''project_id'') then (dict_get state ''project_id'', w)
      else (case generate_project_name e w of (name, w') \<Rightarrow> (JStr name, w')))"

definition resolve_password :: "env \<Rightarrow> dict \<Rightarrow> world \<Rightarrow> json \<times> world" where
  "resolve_password e state w =
     (if truthy (dict_get state ''password'') then (dict_get state ''password'', w)
      else (case generate_password e w of (pw, w') \<Rightarrow> (JStr pw, w')))"

definition run_setup :: "env \<Rightarrow> json option \<Rightarrow> world \<Rightarrow> reply \<times> world" where
  "run_setup e request_json w =
     (let token = get_token w in
      if \<not> truthy token then (Jsonify [(''error'', JStr ''Not authenticated'')] 401, w)
      else
        let state = get_setup_state w in
        case resolve_project_id e state w of (project_id, w1) \<Rightarrow>
        case resolve_password e state w1 of (password, w2) \<Rightarrow>
        (case request_json of
           None \<Rightarrow> (Unhandled BadRequest, w2)
         | Some rj \<Rightarrow>
             (case attr_get rj ''billing_account'' JNull of
                Inl ex \<Rightarrow> (Unhandled ex, w2)
              | Inr billing_account \<Rightarrow>
                  let state1 = dict_set state ''project_id'' project_id;
                      state2 = dict_set state1 ''password'' password;
                      state3 = dict_set state2 ''step'' (JStr ''creating_project'');
                      w3 = save_setup_state state3 w2
                  in
                  (case setup_create_project e token project_id password billing_account state3 w3 of
                     (Inl ex, w4) \<Rightarrow> (Jsonify [(''error'', JStr (exn_str ex))] 500, w4)
                   | (Inr r, w4) \<Rightarrow> (r, w4)))))"

section \<open>Status\<close>

definition get_status :: "world \<Rightarrow> reply" where
  "get_status w =
     (let state = get_setup_state w;
          token = get_token w
      in Jsonify
           [(''authenticated'', JBool (token \<noteq> JNull)),
            (''step'', dict_get_default state ''step'' (JStr ''start'')),
            (''project_id'', dict_get state ''project_id''),
            (''server_url'', dict_get state ''server_url''),
            (''has_password'', JBool (dict_get state ''password'' \<noteq> JNull))] 200)"

section \<open>Observations\<close>

text \<open>What is persisted under a key of the setup state (the default state when no file exists).\<close>

definition persisted :: "world \<Rightarrow> string \<Rightarrow> json" where
  "persisted w k = dict_get (get_setup_state w) k"

text \<open>
  The position of a step name in the sequence
  start, authenticated, creating_project, linking_billing, enabling_apis, deploying, complete.
  The program itself never compares two steps; the rank is only used to state properties.
\<close>

fun step_rank :: "json \<Rightarrow> nat option" where
  "step_rank (JStr s) =
     (if s = ''start'' then Some 0
      else if s = ''authenticated'' then Some 1
      else if s = ''creating_project'' then Some 2
      else if s = ''linking_billing'' then Some 3
      else if s = ''enabling_apis'' then Some 4
      else if s = ''deploying'' then Some 5
      else if s = ''complete'' then Some 6
      else None)"
| "step_rank _ = None"

definition step_le :: "json \<Rightarrow> json \<Rightarrow> bool" where
  "step_le a b =
     (case step_rank a of
        None \<Rightarrow> False
      | Some i \<Rightarrow> (case step_rank b of None \<Rightarrow> False | Some j \<Rightarrow> i \<le> j))"

text \<open>Requests are told apart by their host.\<close>

definition is_billing_call :: "request \<Rightarrow> bool" where
  "is_billing_call r = prefix ''https://cloudbilling.googleapis.com/'' (url r)"

definition is_supervisor_call :: "request \<Rightarrow> bool" where
  "is_supervisor_call r = prefix ''http://supervisor/'' (url r)"

text \<open>The replies that carry the \<^verbatim>\<open>billing_required\<close> flag.\<close>

definition billing_required :: "reply \<Rightarrow> bool" where
  "billing_required rep =
     (case rep of Jsonify d c \<Rightarrow> map_of d ''billing_required'' \<noteq> None | _ \<Rightarrow> False)"

text \<open>The requests issued between two worlds.\<close>

definition new_calls :: "world \<Rightarrow> world \<Rightarrow> request list" where
  "new_calls w w' = drop (length (calls w)) (calls w')"

text \<open>Status code and fields of a JSON reply.\<close>

definition reply_status :: "reply \<Rightarrow> nat" where
  "reply_status rep = (case rep of Jsonify d c \<Rightarrow> c | _ \<Rightarrow> 0)"

definition reply_field :: "reply \<Rightarrow> string \<Rightarrow> json option" where
  "reply_field rep k = (case rep of Jsonify d c \<Rightarrow> map_of d k | _ \<Rightarrow> None)"

text \<open>
  What a part of the program leaves alone: the token file, the session and the random
  source; requests are only appended.
\<close>

definition frame :: "world \<Rightarrow> world \<Rightarrow> bool" where
  "frame w w' \<longleftrightarrow>
     token_file w' = token_file w \<and> session w' = session w \<and> drawn w' = drawn w \<and>
     prefix (calls w) (calls w')"

text \<open>A setup file exists and holds the identifiers of the dict \<open>state\<close>.\<close>

definition kept :: "dict \<Rightarrow> world \<Rightarrow> bool" where
  "kept state w' \<longleftrightarrow>
     setup_file w' \<noteq> None \<and>
     persisted w' ''project_id'' = dict_get state ''project_id'' \<and>
     persisted w' ''password'' = dict_get state ''password''"

text \<open>The last request issued went to the supervisor and raised \<open>ex\<close>.\<close>

definition publisher_raised :: "env \<Rightarrow> world \<Rightarrow> exn \<Rightarrow> bool" where
  "publisher_raised e w' ex \<longleftrightarrow>
     calls w' \<noteq> [] \<and> is_supervisor_call (last (calls w')) \<and>
     net e (length (calls w') - 1) = Raises ex"

text \<open>The reply is the success reply of the run that left \<open>w'\<close>.\<close>

definition succeeded :: "json \<Rightarrow> json \<Rightarrow> reply \<Rightarrow> world \<Rightarrow> bool" where
  "succeeded p pw rep w' \<longleftrightarrow>
     rep = success_reply p (dict_get_default (get_setup_state w') ''server_url'' (JStr [])) pw \<and>
     persisted w' ''step'' = JStr ''complete''"

text \<open>The billing requests among the requests issued so far.\<close>

definition billing_calls :: "world \<Rightarrow> request list" where
  "billing_calls w = filter is_billing_call (calls w)"

text \<open>Two environments that answer alike from the \<open>k\<close>-th request on.\<close>

definition agree_from :: "nat \<Rightarrow> env \<Rightarrow> env \<Rightarrow> bool" where
  "agree_from k e e' \<longleftrightarrow> (\<forall>i\<ge>k. net e' i = net e i) \<and> environ e' = environ e"

section \<open>Example inputs\<close>

text \<open>A cloud that accepts everything, and worlds before and after the authorization.\<close>

definition ok_response :: response where
  "ok_response =
     \<lparr>status_code = 200, resp_text = ''ok'',
      body_json = Inr (JObj [(''access_token'', JStr ''ya29.a0'')])\<rparr>"

definition example_env :: env where
  "example_env =
     \<lparr>net = (\<lambda>i. Responds ok_response),
      urandom = (\<lambda>i. of_nat (7 * i + 1)),
      sha256 = (\<lambda>bs. replicate 32 0),
      environ = []\<rparr>"

definition fresh_world :: world where
  "fresh_world =
     \<lparr>token_file = None, setup_file = None, session = [], calls = [], drawn = 0, slept = 0\<rparr>"

definition authorized_world :: world where
  "authorized_world =
     \<lparr>token_file = Some (JObj [(''access_token'', JStr ''ya29.a0'')]),
      setup_file = Some [(''step'', JStr ''authenticated''), (''project_id'', JNull),
                         (''password'', JNull)],
      session = [(''code_verifier'', JStr ''dBjftJeZ4CVP'')], calls = [], drawn = 64, slept = 0\<rparr>"

definition completed_world :: world where
  "completed_world =
     \<lparr>token_file = Some (JObj [(''access_token'', JStr ''ya29.a0'')]),
      setup_file = Some [(''step'', JStr ''complete''), (''project_id'', JStr ''ha-tunnel-0a1b2c''),
                         (''password'', JStr ''s3cr3t''),
                         (''server_url'', JStr ''https://ha-tunnel-xyz.a.run.app'')],
      session = [(''code_verifier'', JStr ''dBjftJeZ4CVP'')], calls = [], drawn = 91, slept = 5\<rparr>"

text \<open>A cloud that refuses everything.\<close>

definition refusing_env :: env where
  "refusing_env =
     \<lparr>net = (\<lambda>i. Responds \<lparr>status_code = 403, resp_text = ''forbidden'',
                              body_json = Inr (JObj [])\<rparr>),
      urandom = (\<lambda>i. of_nat (7 * i + 1)),
      sha256 = (\<lambda>bs. replicate 32 0),
      environ = []\<rparr>"

text \<open>A cloud in which the project exists already: the first request is answered with 409.\<close>

definition conflict_response :: response where
  "conflict_response =
     \<lparr>status_code = 409, resp_text = ''ALREADY_EXISTS'', body_json = Inr (JObj [])\<rparr>"

definition conflict_env :: env where
  "conflict_env = example_env\<lparr>net := (net example_env)(0 := Responds conflict_response)\<rparr>"

text \<open>The setup state with which \<^verbatim>\<open>run_setup\<close> enters its \<^verbatim>\<open>try\<close> block.\<close>

definition entry_state :: "dict \<Rightarrow> json \<Rightarrow> json \<Rightarrow> dict" where
  "entry_state state p pw =
     dict_set (dict_set (dict_set state ''project_id'' p) ''password'' pw)
       ''step'' (JStr ''creating_project'')"

definition create_request :: "json \<Rightarrow> json \<Rightarrow> request" where
  "create_request a p =
     gcp_request ''POST'' projects_url a
       (JsonBody (JObj [(''projectId'', p), (''name'', JStr ''HA Tunnel'')]))"

text \<open>A cloud that creates the project and then refuses to attach the billing account.\<close>

definition billing_refusal :: response where
  "billing_refusal =
     \<lparr>status_code = 403, resp_text = ''billing account is closed'', body_json = Inr (JObj [])\<rparr>"

definition unbilled_env :: env where
  "unbilled_env = example_env\<lparr>net := (net example_env)(1 := Responds billing_refusal)\<rparr>"

definition billing_body :: json where
  "billing_body = JObj [(''billing_account'', JStr ''billingAccounts/ABC123'')]"

definition billing_request :: "json \<Rightarrow> json \<Rightarrow> json \<Rightarrow> request" where
  "billing_request a p ba =
     gcp_request ''PUT'' (billing_url p) a (JsonBody (JObj [(''billingAccountName'', ba)]))"

text \<open>
  A setup that was interrupted while deploying, and a cloud in which the service exists
  already (the fourth request, the creation of the service, is answered with 409) and
  cannot be read (the seventh request, the reading of the service, is answered with 404).
\<close>

definition interrupted_world :: world where
  "interrupted_world =
     \<lparr>token_file = Some (JObj [(''access_token'', JStr ''ya29.a0'')]),
      setup_file = Some [(''step'', JStr ''deploying''), (''project_id'', JStr ''ha-tunnel-0a1b2c''),
                         (''password'', JStr ''s3cr3t'')],
      session = [], calls = [], drawn = 91, slept = 5\<rparr>"

definition not_found :: response where
  "not_found = \<lparr>status_code = 404, resp_text = ''NOT_FOUND'', body_json = Inr (JObj [])\<rparr>"

definition redeploy_env :: env where
  "redeploy_env =
     example_env\<lparr>net := (net example_env)(3 := Responds conflict_response, 6 := Responds not_found)\<rparr>"

definition service_post :: "json \<Rightarrow> json \<Rightarrow> json \<Rightarrow> request" where
  "service_post a p pw = gcp_request ''POST'' (services_url p) a (JsonBody (service_config pw))"

definition service_put :: "json \<Rightarrow> json \<Rightarrow> json \<Rightarrow> request" where
  "service_put a p pw = gcp_request ''PUT'' (service_put_url p) a (JsonBody (service_config pw))"

text \<open>
  An add-on with a supervisor token, for which the eighth request of a run without
  billing, the publication of the options, finds the supervisor unreachable or unwilling.
\<close>

definition unreachable_env :: env where
  "unreachable_env =
     example_env\<lparr>net := (net example_env)(6 := Raises (RequestException ''Connection refused'')),
                 environ := [(''SUPERVISOR_TOKEN'', ''abc123'')]\<rparr>"

definition unwilling_env :: env where
  "unwilling_env =
     example_env\<lparr>net := (net example_env)(6 := Responds not_found),
                 environ := [(''SUPERVISOR_TOKEN'', ''abc123'')]\<rparr>"

text \<open>
  A part of the run ended in the publisher: its last request went to the supervisor, the
  step is persisted as complete, and the result follows what became of that request.
\<close>

definition ended_in_publisher :: "env \<Rightarrow> json \<Rightarrow> json \<Rightarrow> exn + reply \<Rightarrow> world \<Rightarrow> bool" where
  "ended_in_publisher e p pw res w' \<longleftrightarrow>
     calls w' \<noteq> [] \<and> is_supervisor_call (last (calls w')) \<and>
     persisted w' ''step'' = JStr ''complete'' \<and>
     (case net e (length (calls w') - 1) of
        Raises ex \<Rightarrow> res = Inl ex
      | Responds r \<Rightarrow> (case res of Inl ex \<Rightarrow> False | Inr rep \<Rightarrow> succeeded p pw rep w'))"

text \<open>A part of the run issued no request, or its last request did not go to the supervisor.\<close>

definition ended_before_publisher :: "world \<Rightarrow> world \<Rightarrow> bool" where
  "ended_before_publisher w w' \<longleftrightarrow>
     calls w' = calls w \<or> (calls w' \<noteq> [] \<and> \<not> is_supervisor_call (last (calls w')))"

text \<open>
  The publisher failed in the part of the run between \<open>w\<close> and \<open>w'\<close>: a supervisor token
  is configured, and the last request, issued in that part, went to the supervisor and
  raised \<open>ex\<close>.
\<close>

definition publisher_failed :: "env \<Rightarrow> world \<Rightarrow> world \<Rightarrow> exn \<Rightarrow> bool" where
  "publisher_failed e w w' ex \<longleftrightarrow>
     publisher_raised e w' ex \<and> length (calls w) < length (calls w') \<and>
     truthy (opt_json (map_of (environ e) ''SUPERVISOR_TOKEN''))"

text \<open>The request that reads the deployed service.\<close>

definition service_get :: "json \<Rightarrow> json \<Rightarrow> request" where
  "service_get a p = gcp_request ''GET'' (service_get_url p) a NoBody"

text \<open>
  The reply reports the server URL that the answer \<open>resp\<close> to the reading of the service
  determines for a run that began with the setup state \<open>st\<close>.
\<close>

definition url_reported :: "response \<Rightarrow> dict \<Rightarrow> reply \<Rightarrow> bool" where
  "url_reported resp st rep \<longleftrightarrow>
     (status_code resp \<noteq> 200 \<longrightarrow>
        reply_field rep ''server_url'' = Some (dict_get_default st ''server_url'' (JStr []))) \<and>
     (status_code resp = 200 \<longrightarrow>
        (\<exists>sd s u. body_json resp = Inr sd \<and> attr_get sd ''status'' (JObj []) = Inr s \<and>
           attr_get s ''url'' (JStr []) = Inr u \<and> reply_field rep ''server_url'' = Some u))"

text \<open>Among the requests from the \<open>k\<close>-th on there is the reading of the service, answered so.\<close>

definition service_read :: "env \<Rightarrow> json \<Rightarrow> dict \<Rightarrow> reply \<Rightarrow> nat \<Rightarrow> world \<Rightarrow> bool" where
  "service_read e p st rep k w' \<longleftrightarrow>
     (\<exists>i a resp. k \<le> i \<and> i < length (calls w') \<and> calls w' ! i = service_get a p \<and>
        net e i = Responds resp \<and> url_reported resp st rep)"

text \<open>
  The request that creates the service is the only \<^verbatim>\<open>POST\<close> under the namespaces of the
  serving API. The update of a creation request \<open>r\<close> is \<open>r\<close> sent with \<^verbatim>\<open>PUT\<close> to the
  service itself: headers and descriptor are those of \<open>r\<close>.
\<close>

definition is_service_post :: "request \<Rightarrow> bool" where
  "is_service_post r \<longleftrightarrow>
     meth r = ''POST'' \<and>
     prefix ''https://run.googleapis.com/apis/serving.knative.dev/v1/namespaces/'' (url r)"

definition update_of :: "request \<Rightarrow> request" where
  "update_of r = r\<lparr>meth := ''PUT'', url := url r @ ''/ha-tunnel''\<rparr>"

text \<open>The \<open>i\<close>-th request was answered with a status other than 200 and 201.\<close>

definition refused :: "env \<Rightarrow> nat \<Rightarrow> bool" where
  "refused e i \<longleftrightarrow> (case net e i of Raises ex \<Rightarrow> False | Responds resp \<Rightarrow> status_code resp \<notin> {200, 201})"

text \<open>From the \<open>k\<close>-th request on, every refused creation of the service is followed by its update.\<close>

definition update_follows :: "env \<Rightarrow> nat \<Rightarrow> request list \<Rightarrow> bool" where
  "update_follows e k cs \<longleftrightarrow>
     (\<forall>i. k \<le> i \<and> i < length cs \<and> is_service_post (cs ! i) \<and> refused e i \<longrightarrow>
          Suc i < length cs \<and> cs ! Suc i = update_of (cs ! i))"

section \<open>Basic facts\<close>

lemma dict_get_default_set:
  "dict_get_default (dict_set d k v) k' dflt = (if k' = k then v else dict_get_default d k' dflt)"
  by (simp add: dict_get_default_def dict_set_def update_conv')

lemma dict_get_set:
  "dict_get (dict_set d k v) k' = (if k' = k then v else dict_get d k')"
  by (simp add: dict_get_def dict_get_default_set)

lemma requests_request_cases:
  assumes "requests_request e r w = (res, w')"
  obtains (raises) ex where "res = Inl ex" "net e (length (calls w)) = Raises ex"
                            "w' = w\<lparr>calls := calls w @ [r]\<rparr>"
        | (responds) resp where "res = Inr resp" "net e (length (calls w)) = Responds resp"
                            "w' = w\<lparr>calls := calls w @ [r]\<rparr>"
  using assms by (auto simp: requests_request_def split: outcome.splits)

lemma gcp_api_cases:
  assumes "gcp_api e m u t b w = (res, w')"
  obtains (no_token) ex where "res = Inl ex" "subscript t ''access_token'' = Inl ex" "w' = w"
        | (raises) a ex where "res = Inl ex" "subscript t ''access_token'' = Inr a"
                            "net e (length (calls w)) = Raises ex"
                            "w' = w\<lparr>calls := calls w @ [gcp_request m u a b]\<rparr>"
        | (responds) a resp where "res = Inr resp" "subscript t ''access_token'' = Inr a"
                            "net e (length (calls w)) = Responds resp"
                            "w' = w\<lparr>calls := calls w @ [gcp_request m u a b]\<rparr>"
  using assms
  by (auto simp: gcp_api_def split: sum.splits elim!: requests_request_cases)


lemma update_addon_config_fields:
  assumes "update_addon_config e state w = (res, w')"
  shows "token_file w' = token_file w \<and> setup_file w' = setup_file w \<and> session w' = session w
         \<and> drawn w' = drawn w \<and> slept w' = slept w \<and> prefix (calls w) (calls w')"
  using assms unfolding update_addon_config_def Let_def
  by (auto split: if_splits prod.splits elim!: requests_request_cases)

lemma setup_finish_frame:
  assumes "setup_finish e t p pw st w = (res, w')"
  shows "frame w w'"
  using assms unfolding setup_finish_def Let_def frame_def save_setup_state_def
  by (auto split: prod.splits sum.splits
      elim!: gcp_api_cases dest!: update_addon_config_fields dest: append_prefixD)

lemma setup_make_public_frame:
  assumes "setup_make_public e t p pw st w = (res, w')"
  shows "frame w w'"
  using assms unfolding setup_make_public_def
  by (auto split: prod.splits sum.splits elim!: gcp_api_cases dest!: setup_finish_frame
       simp: frame_def dest: append_prefixD)

lemma setup_deploy_frame:
  assumes "setup_deploy e t p pw st w = (res, w')"
  shows "frame w w'"
  using assms unfolding setup_deploy_def Let_def save_setup_state_def
  by (auto split: prod.splits sum.splits if_splits elim!: gcp_api_cases dest!: setup_make_public_frame
       simp: frame_def dest: append_prefixD)

lemma enable_apis_fields:
  "enable_apis e t p as w = (res, w') \<Longrightarrow>
     token_file w' = token_file w \<and> setup_file w' = setup_file w \<and> session w' = session w
         \<and> drawn w' = drawn w \<and> slept w' = slept w \<and> prefix (calls w) (calls w')"
proof (induction as arbitrary: w)
  case Nil
  then show ?case by simp
next
  case (Cons a as)
  then show ?case
    by (auto split: prod.splits sum.splits elim!: gcp_api_cases dest!: Cons.IH dest: append_prefixD)
qed

lemma setup_enable_apis_frame:
  assumes "setup_enable_apis e t p pw st w = (res, w')"
  shows "frame w w'"
  using assms unfolding setup_enable_apis_def Let_def save_setup_state_def
  by (auto split: prod.splits sum.splits if_splits dest!: enable_apis_fields setup_deploy_frame
       simp: frame_def dest: append_prefixD)

lemma setup_link_billing_frame:
  assumes "setup_link_billing e t p pw ba st w = (res, w')"
  shows "frame w w'"
  using assms unfolding setup_link_billing_def Let_def save_setup_state_def
  by (auto split: prod.splits sum.splits if_splits elim!: gcp_api_cases dest!: setup_enable_apis_frame
       simp: frame_def dest: append_prefixD)

lemma setup_create_project_frame:
  assumes "setup_create_project e t p pw ba st w = (res, w')"
  shows "frame w w'"
  using assms unfolding setup_create_project_def
  by (auto split: prod.splits sum.splits if_splits elim!: gcp_api_cases dest!: setup_link_billing_frame
       simp: frame_def dest: append_prefixD)


lemma read_service_url_keeps:
  "read_service_url resp st = Inr st1 \<Longrightarrow> k \<noteq> ''server_url'' \<Longrightarrow> dict_get st1 k = dict_get st k"
  unfolding read_service_url_def
  by (auto split: if_splits sum.splits simp: dict_get_set)


lemmas file_defs = persisted_def get_setup_state_def kept_def save_setup_state_def

lemma calls_save [simp]: "calls (save_setup_state d w) = calls w"
  by (simp add: save_setup_state_def)

lemma step_le_refl [simp]:
  "step_le (JStr ''deploying'') (JStr ''deploying'')"
  "step_le (JStr ''complete'') (JStr ''complete'')"
  "step_le (JStr ''enabling_apis'') (JStr ''enabling_apis'')"
  "step_le (JStr ''linking_billing'') (JStr ''linking_billing'')"
  "step_le (JStr ''creating_project'') (JStr ''creating_project'')"
  by (simp_all add: step_le_def)

lemma step_le_trans: "step_le a b \<Longrightarrow> step_le b c \<Longrightarrow> step_le a c"
  by (auto simp: step_le_def split: option.splits)

lemma step_le_chain [simp]:
  "step_le (JStr ''deploying'') (JStr ''complete'')"
  "step_le (JStr ''enabling_apis'') (JStr ''deploying'')"
  "step_le (JStr ''linking_billing'') (JStr ''enabling_apis'')"
  "step_le (JStr ''creating_project'') (JStr ''linking_billing'')"
  by (simp_all add: step_le_def)

lemma setup_finish_file:
  assumes "setup_finish e t p pw st w = (res, w')"
  shows "setup_file w' = setup_file w \<or> (kept st w' \<and> persisted w' ''step'' = JStr ''complete'')"
  using assms unfolding setup_finish_def Let_def
  by (auto split: prod.splits sum.splits elim!: gcp_api_cases dest!: update_addon_config_fields
      simp: file_defs dict_get_set read_service_url_keeps)

lemma setup_make_public_file:
  assumes "setup_make_public e t p pw st w = (res, w')"
  shows "setup_file w' = setup_file w \<or> (kept st w' \<and> persisted w' ''step'' = JStr ''complete'')"
  using assms unfolding setup_make_public_def
  by (auto split: prod.splits sum.splits elim!: gcp_api_cases dest!: setup_finish_file)

lemma setup_deploy_file:
  assumes "setup_deploy e t p pw st w = (res, w')"
  shows "kept st w' \<and> step_le (JStr ''deploying'') (persisted w' ''step'')"
  using assms unfolding setup_deploy_def Let_def
  by (auto split: prod.splits sum.splits if_splits elim!: gcp_api_cases dest!: setup_make_public_file
      simp: file_defs dict_get_set)

lemma setup_enable_apis_file:
  assumes "setup_enable_apis e t p pw st w = (res, w')"
  shows "kept st w' \<and> step_le (JStr ''enabling_apis'') (persisted w' ''step'')"
  using assms unfolding setup_enable_apis_def Let_def
  by (auto split: prod.splits sum.splits dest!: enable_apis_fields setup_deploy_file
      simp: file_defs dict_get_set intro: step_le_trans[OF step_le_chain(2)])

lemma setup_link_billing_file:
  assumes "setup_link_billing e t p pw ba st w = (res, w')"
  shows "kept st w' \<and> step_le (JStr ''linking_billing'') (persisted w' ''step'')"
  using assms unfolding setup_link_billing_def Let_def
  by (auto split: prod.splits sum.splits if_splits elim!: gcp_api_cases dest!: setup_enable_apis_file
      simp: file_defs dict_get_set intro: step_le_trans[OF step_le_chain(3)])

lemma setup_create_project_file:
  assumes "setup_create_project e t p pw ba st w = (res, w')"
  shows "setup_file w' = setup_file w \<or> (kept st w' \<and> step_le (JStr ''linking_billing'') (persisted w' ''step''))"
  using assms unfolding setup_create_project_def
  by (auto split: prod.splits sum.splits if_splits elim!: gcp_api_cases dest!: setup_link_billing_file)

lemma not_billing_required [simp]:
  "\<not> billing_required (success_reply p u pw)"
  "\<not> billing_required (deploy_failed resp)"
  "\<not> billing_required (project_failed resp)"
  "billing_required (billing_failed resp)"
  by (simp_all add: billing_required_def success_reply_def deploy_failed_def project_failed_def billing_failed_def)

lemma reply_status_simps [simp]:
  "reply_status (success_reply p u pw) = 200"
  "reply_status (deploy_failed resp) = 500"
  "reply_status (project_failed resp) = 500"
  "reply_status (billing_failed resp) = 400"
  by (simp_all add: reply_status_def success_reply_def deploy_failed_def project_failed_def billing_failed_def)



lemma setup_finish_reply:
  assumes "setup_finish e t p pw st w = (Inr rep, w')"
  shows "\<not> billing_required rep \<and> (reply_status rep = 200 \<longrightarrow> succeeded p pw rep w')"
  using assms unfolding setup_finish_def Let_def succeeded_def
  by (auto split: prod.splits sum.splits elim!: gcp_api_cases dest!: update_addon_config_fields
      simp: file_defs dict_get_set)

lemma setup_make_public_reply:
  assumes "setup_make_public e t p pw st w = (Inr rep, w')"
  shows "\<not> billing_required rep \<and> (reply_status rep = 200 \<longrightarrow> succeeded p pw rep w')"
  using assms unfolding setup_make_public_def
  by (auto split: prod.splits sum.splits elim!: gcp_api_cases dest!: setup_finish_reply)

lemma setup_deploy_reply:
  assumes "setup_deploy e t p pw st w = (Inr rep, w')"
  shows "\<not> billing_required rep \<and> (reply_status rep = 200 \<longrightarrow> succeeded p pw rep w')"
  using assms unfolding setup_deploy_def Let_def
  by (auto split: prod.splits sum.splits if_splits elim!: gcp_api_cases dest!: setup_make_public_reply)

lemma setup_enable_apis_reply:
  assumes "setup_enable_apis e t p pw st w = (Inr rep, w')"
  shows "\<not> billing_required rep \<and> (reply_status rep = 200 \<longrightarrow> succeeded p pw rep w')"
  using assms unfolding setup_enable_apis_def Let_def
  by (auto split: prod.splits sum.splits if_splits dest!: setup_deploy_reply)

lemma setup_link_billing_reply:
  assumes "setup_link_billing e t p pw ba st w = (Inr rep, w')"
  shows "(reply_status rep = 200 \<longrightarrow> succeeded p pw rep w') \<and>
         (billing_required rep \<longrightarrow>
            truthy ba \<and> persisted w' ''step'' = JStr ''linking_billing'' \<and>
            (\<exists>a. subscript t ''access_token'' = Inr a \<and>
               calls w' = calls w @ [gcp_request ''PUT'' (billing_url p) a
                                      (JsonBody (JObj [(''billingAccountName'', ba)]))]) \<and>
            (\<exists>resp. net e (length (calls w)) = Responds resp \<and> status_code resp \<noteq> 200 \<and>
               rep = billing_failed resp))"
  using assms unfolding setup_link_billing_def Let_def
  by (auto split: prod.splits sum.splits if_splits elim!: gcp_api_cases dest!: setup_enable_apis_reply
      simp: file_defs dict_get_set)

lemma setup_create_project_reply:
  assumes "setup_create_project e t p pw ba st w = (Inr rep, w')"
  shows "(reply_status rep = 200 \<longrightarrow> succeeded p pw rep w') \<and>
         (billing_required rep \<longrightarrow>
            truthy ba \<and> persisted w' ''step'' = JStr ''linking_billing'' \<and>
            (\<exists>a. subscript t ''access_token'' = Inr a \<and>
               calls w' = calls w @
                 [gcp_request ''POST'' projects_url a
                    (JsonBody (JObj [(''projectId'', p), (''name'', JStr ''HA Tunnel'')])),
                  gcp_request ''PUT'' (billing_url p) a
                    (JsonBody (JObj [(''billingAccountName'', ba)]))]) \<and>
            (\<exists>resp. net e (Suc (length (calls w))) = Responds resp \<and> status_code resp \<noteq> 200 \<and>
               rep = billing_failed resp))"
  using assms unfolding setup_create_project_def
  by (auto split: prod.splits sum.splits if_splits elim!: gcp_api_cases dest!: setup_link_billing_reply)

lemma update_addon_config_raised:
  assumes "update_addon_config e st w = (res, w')"
  shows "setup_file w' = setup_file w \<and> (\<forall>ex. res = Inl ex \<longrightarrow> publisher_raised e w' ex)"
  using assms unfolding update_addon_config_def Let_def publisher_raised_def
  by (auto split: if_splits prod.splits elim!: requests_request_cases
      simp: is_supervisor_call_def options_request_def restart_request_def)

lemma setup_finish_complete:
  assumes "setup_finish e t p pw st w = (res, w')"
    and "persisted w ''step'' \<noteq> JStr ''complete''" and "persisted w' ''step'' = JStr ''complete''"
  shows "(\<exists>rep. res = Inr rep \<and> succeeded p pw rep w') \<or> (\<exists>ex. res = Inl ex \<and> publisher_raised e w' ex)"
  using assms unfolding setup_finish_def Let_def succeeded_def
  by (auto split: prod.splits sum.splits elim!: gcp_api_cases
      dest!: update_addon_config_raised
      simp: file_defs dict_get_set)

lemma setup_make_public_complete:
  assumes "setup_make_public e t p pw st w = (res, w')"
    and "persisted w ''step'' \<noteq> JStr ''complete''" and "persisted w' ''step'' = JStr ''complete''"
  shows "(\<exists>rep. res = Inr rep \<and> succeeded p pw rep w') \<or> (\<exists>ex. res = Inl ex \<and> publisher_raised e w' ex)"
  using assms unfolding setup_make_public_def
  by (auto split: prod.splits sum.splits elim!: gcp_api_cases
      dest!: setup_finish_complete simp: file_defs)

lemma setup_deploy_complete:
  assumes "setup_deploy e t p pw st w = (res, w')"
    and "persisted w' ''step'' = JStr ''complete''"
  shows "(\<exists>rep. res = Inr rep \<and> succeeded p pw rep w') \<or> (\<exists>ex. res = Inl ex \<and> publisher_raised e w' ex)"
  using assms unfolding setup_deploy_def Let_def
  by (auto split: prod.splits sum.splits if_splits elim!: gcp_api_cases
      dest!: setup_make_public_complete simp: file_defs dict_get_set)

lemma setup_enable_apis_complete:
  assumes "setup_enable_apis e t p pw st w = (res, w')"
    and "persisted w' ''step'' = JStr ''complete''"
  shows "(\<exists>rep. res = Inr rep \<and> succeeded p pw rep w') \<or> (\<exists>ex. res = Inl ex \<and> publisher_raised e w' ex)"
  using assms unfolding setup_enable_apis_def Let_def
  by (auto split: prod.splits sum.splits if_splits
      dest!: enable_apis_fields setup_deploy_complete simp: file_defs dict_get_set)

lemma setup_link_billing_complete:
  assumes "setup_link_billing e t p pw ba st w = (res, w')"
    and "persisted w' ''step'' = JStr ''complete''"
  shows "(\<exists>rep. res = Inr rep \<and> succeeded p pw rep w') \<or> (\<exists>ex. res = Inl ex \<and> publisher_raised e w' ex)"
  using assms unfolding setup_link_billing_def Let_def
  by (auto split: prod.splits sum.splits if_splits elim!: gcp_api_cases
      dest!: setup_enable_apis_complete simp: file_defs dict_get_set)

lemma setup_create_project_complete:
  assumes "setup_create_project e t p pw ba st w = (res, w')"
    and "persisted w ''step'' \<noteq> JStr ''complete''" and "persisted w' ''step'' = JStr ''complete''"
  shows "(\<exists>rep. res = Inr rep \<and> succeeded p pw rep w') \<or> (\<exists>ex. res = Inl ex \<and> publisher_raised e w' ex)"
  using assms unfolding setup_create_project_def
  by (auto split: prod.splits sum.splits if_splits elim!: gcp_api_cases
      dest!: setup_link_billing_complete simp: file_defs)

lemma billing_calls_other [simp]:
  "billing_calls (w\<lparr>setup_file := f\<rparr>) = billing_calls w"
  "billing_calls (w\<lparr>slept := n\<rparr>) = billing_calls w"
  "billing_calls (save_setup_state d w) = billing_calls w"
  by (simp_all add: billing_calls_def save_setup_state_def)

lemma billing_calls_app [simp]:
  "billing_calls (w\<lparr>calls := cs\<rparr>) = filter is_billing_call cs"
  by (simp add: billing_calls_def)

lemma billing_calls_unfold: "filter is_billing_call (calls w) = billing_calls w"
  by (simp add: billing_calls_def)

lemma not_billing_call [simp]:
  "\<not> is_billing_call (gcp_request m projects_url a b)"
  "\<not> is_billing_call (gcp_request m (enable_url p api) a b)"
  "\<not> is_billing_call (gcp_request m (services_url p) a b)"
  "\<not> is_billing_call (gcp_request m (service_put_url p) a b)"
  "\<not> is_billing_call (gcp_request m (set_iam_url p) a b)"
  "\<not> is_billing_call (gcp_request m (service_get_url p) a b)"
  "is_billing_call (gcp_request m (billing_url p) a b)"
  by (simp_all add: is_billing_call_def gcp_request_def projects_url_def enable_url_def
      services_url_def service_put_url_def set_iam_url_def service_get_url_def billing_url_def)

lemma update_addon_config_billing:
  assumes "update_addon_config e st w = (res, w')"
  shows "billing_calls w' = billing_calls w"
  using assms unfolding update_addon_config_def Let_def
  by (auto split: if_splits prod.splits elim!: requests_request_cases
      simp: is_billing_call_def billing_calls_unfold options_request_def restart_request_def)

lemma setup_finish_billing:
  assumes "setup_finish e t p pw st w = (res, w')"
  shows "billing_calls w' = billing_calls w"
  using assms unfolding setup_finish_def Let_def
  by (auto split: prod.splits sum.splits elim!: gcp_api_cases dest!: update_addon_config_billing simp: billing_calls_unfold)

lemma setup_make_public_billing:
  assumes "setup_make_public e t p pw st w = (res, w')"
  shows "billing_calls w' = billing_calls w"
  using assms unfolding setup_make_public_def
  by (auto split: prod.splits sum.splits elim!: gcp_api_cases dest!: setup_finish_billing simp: billing_calls_unfold)

lemma setup_deploy_billing:
  assumes "setup_deploy e t p pw st w = (res, w')"
  shows "billing_calls w' = billing_calls w"
  using assms unfolding setup_deploy_def Let_def
  by (auto split: prod.splits sum.splits if_splits elim!: gcp_api_cases dest!: setup_make_public_billing simp: billing_calls_unfold)

lemma enable_apis_billing:
  "enable_apis e t p as w = (res, w') \<Longrightarrow> billing_calls w' = billing_calls w"
proof (induction as arbitrary: w)
  case Nil
  then show ?case by simp
next
  case (Cons a as)
  then show ?case
    by (auto split: prod.splits sum.splits elim!: gcp_api_cases dest!: Cons.IH simp: billing_calls_unfold)
qed

lemma setup_enable_apis_billing:
  assumes "setup_enable_apis e t p pw st w = (res, w')"
  shows "billing_calls w' = billing_calls w"
  using assms unfolding setup_enable_apis_def Let_def
  by (auto split: prod.splits sum.splits dest!: enable_apis_billing setup_deploy_billing)

lemma setup_link_billing_billing:
  assumes "setup_link_billing e t p pw ba st w = (res, w')" and "\<not> truthy ba"
  shows "billing_calls w' = billing_calls w"
  using assms unfolding setup_link_billing_def Let_def
  by (auto split: prod.splits sum.splits dest!: setup_enable_apis_billing)

lemma setup_create_project_billing:
  assumes "setup_create_project e t p pw ba st w = (res, w')" and "\<not> truthy ba"
  shows "billing_calls w' = billing_calls w"
  using assms unfolding setup_create_project_def
  by (auto split: prod.splits sum.splits if_splits elim!: gcp_api_cases dest!: setup_link_billing_billing simp: billing_calls_unfold)

lemma agree_from_mono: "agree_from k e e' \<Longrightarrow> k \<le> k' \<Longrightarrow> agree_from k' e e'"
  by (simp add: agree_from_def)

lemma requests_request_cong:
  "agree_from (length (calls w)) e e' \<Longrightarrow> requests_request e' r w = requests_request e r w"
  by (simp add: agree_from_def requests_request_def)

lemma requests_request_length:
  "requests_request e r w = (res, w') \<Longrightarrow> length (calls w) \<le> length (calls w')"
  by (erule requests_request_cases) auto

lemma gcp_api_cong:
  "agree_from (length (calls w)) e e' \<Longrightarrow> gcp_api e' m u t b w = gcp_api e m u t b w"
  by (simp add: gcp_api_def requests_request_cong split: sum.splits)

lemma gcp_api_length:
  "gcp_api e m u t b w = (res, w') \<Longrightarrow> length (calls w) \<le> length (calls w')"
  by (erule gcp_api_cases) auto

lemma update_addon_config_cong:
  assumes "agree_from (length (calls w)) e e'"
  shows "update_addon_config e' st w = update_addon_config e st w"
proof -
  let ?tok = "opt_json (map_of (environ e) ''SUPERVISOR_TOKEN'')"
  have env: "environ e' = environ e" using assms by (simp add: agree_from_def)
  have first: "requests_request e' r w = requests_request e r w" for r
    using assms by (rule requests_request_cong)
  obtain res w1 where r1: "requests_request e (options_request ?tok (addon_config st)) w = (res, w1)"
    by (cases "requests_request e (options_request ?tok (addon_config st)) w")
  have second: "requests_request e' r w1 = requests_request e r w1" for r
    using requests_request_length[OF r1] assms
    by (intro requests_request_cong) (rule agree_from_mono)
  show ?thesis
    unfolding update_addon_config_def Let_def env first r1
    by (simp add: second split: sum.splits)
qed

lemma setup_finish_cong:
  assumes "agree_from (length (calls w)) e e'"
  shows "setup_finish e' t p pw st w = setup_finish e t p pw st w"
proof -
  obtain res w1 where r1: "gcp_api e ''GET'' (service_get_url p) t NoBody w = (res, w1)"
    by (cases "gcp_api e ''GET'' (service_get_url p) t NoBody w")
  have a1: "agree_from (length (calls w1)) e e'"
    using gcp_api_length[OF r1] assms by (rule agree_from_mono[rotated])
  show ?thesis
    unfolding setup_finish_def Let_def gcp_api_cong[OF assms] r1
    by (simp add: update_addon_config_cong[where e=e and e'=e'] a1 split: sum.splits)
qed

lemma setup_make_public_cong:
  assumes "agree_from (length (calls w)) e e'"
  shows "setup_make_public e' t p pw st w = setup_make_public e t p pw st w"
proof -
  obtain res w1 where r1:
    "gcp_api e ''POST'' (set_iam_url p) t (JsonBody (JObj [(''policy'', iam_policy)])) w = (res, w1)"
    by (cases "gcp_api e ''POST'' (set_iam_url p) t (JsonBody (JObj [(''policy'', iam_policy)])) w")
  have a1: "agree_from (length (calls w1)) e e'"
    using gcp_api_length[OF r1] assms by (rule agree_from_mono[rotated])
  show ?thesis
    unfolding setup_make_public_def gcp_api_cong[OF assms] r1
    by (simp add: setup_finish_cong[where e=e and e'=e'] a1 split: sum.splits)
qed

lemma setup_deploy_cong:
  assumes "agree_from (length (calls w)) e e'"
  shows "setup_deploy e' t p pw st w = setup_deploy e t p pw st w"
proof -
  let ?w1 = "save_setup_state (dict_set st ''step'' (JStr ''deploying'')) w"
  have a1: "agree_from (length (calls ?w1)) e e'"
    using assms by simp
  obtain res w2 where r1:
    "gcp_api e ''POST'' (services_url p) t (JsonBody (service_config pw)) ?w1 = (res, w2)"
    by (cases "gcp_api e ''POST'' (services_url p) t (JsonBody (service_config pw)) ?w1")
  have a2: "agree_from (length (calls w2)) e e'"
    using gcp_api_length[OF r1] a1 by (rule agree_from_mono[rotated])
  obtain res' w3 where r2:
    "gcp_api e ''PUT'' (service_put_url p) t (JsonBody (service_config pw)) w2 = (res', w3)"
    by (cases "gcp_api e ''PUT'' (service_put_url p) t (JsonBody (service_config pw)) w2")
  have a3: "agree_from (length (calls w3)) e e'"
    using gcp_api_length[OF r2] a2 by (rule agree_from_mono[rotated])
  show ?thesis
    unfolding setup_deploy_def Let_def gcp_api_cong[OF a1] r1
    by (simp add: gcp_api_cong[OF a2] r2 a2 a3 setup_make_public_cong[where e=e and e'=e'] split: sum.splits)
qed

lemma enable_apis_cong:
  "agree_from (length (calls w)) e e' \<Longrightarrow> enable_apis e' t p as w = enable_apis e t p as w"
proof (induction as arbitrary: w)
  case Nil
  then show ?case by simp
next
  case (Cons a as)
  obtain res w1 where r1: "gcp_api e ''POST'' (enable_url p a) t NoBody w = (res, w1)"
    by (cases "gcp_api e ''POST'' (enable_url p a) t NoBody w")
  have a1: "agree_from (length (calls w1)) e e'"
    using gcp_api_length[OF r1] Cons.prems by (rule agree_from_mono[rotated])
  show ?case
    by (simp add: gcp_api_cong[OF Cons.prems] r1 Cons.IH[OF a1] split: sum.splits)
qed

lemma enable_apis_length:
  "enable_apis e t p as w = (res, w') \<Longrightarrow> length (calls w) \<le> length (calls w')"
  by (drule enable_apis_fields) (simp add: prefix_length_le)

lemma setup_enable_apis_cong:
  assumes "agree_from (length (calls w)) e e'"
  shows "setup_enable_apis e' t p pw st w = setup_enable_apis e t p pw st w"
proof -
  let ?w1 = "save_setup_state (dict_set st ''step'' (JStr ''enabling_apis'')) w"
  have a1: "agree_from (length (calls ?w1)) e e'"
    using assms by simp
  obtain res w2 where r1: "enable_apis e t p apis ?w1 = (res, w2)"
    by (cases "enable_apis e t p apis ?w1")
  have a2: "agree_from (length (calls (w2\<lparr>slept := slept w2 + 5\<rparr>))) e e'"
    using enable_apis_length[OF r1] a1 by (auto intro: agree_from_mono)
  show ?thesis
    unfolding setup_enable_apis_def Let_def enable_apis_cong[OF a1] r1
    by (simp add: setup_deploy_cong[OF a2] split: sum.splits)
qed

lemma setup_link_billing_cong:
  assumes "agree_from (length (calls w)) e e'"
  shows "setup_link_billing e' t p pw ba st w = setup_link_billing e t p pw ba st w"
proof -
  let ?w1 = "save_setup_state (dict_set st ''step'' (JStr ''linking_billing'')) w"
  have a1: "agree_from (length (calls ?w1)) e e'"
    using assms by simp
  obtain res w2 where r1:
    "gcp_api e ''PUT'' (billing_url p) t (JsonBody (JObj [(''billingAccountName'', ba)])) ?w1 = (res, w2)"
    by (cases "gcp_api e ''PUT'' (billing_url p) t (JsonBody (JObj [(''billingAccountName'', ba)])) ?w1")
  have a2: "agree_from (length (calls w2)) e e'"
    using gcp_api_length[OF r1] a1 by (rule agree_from_mono[rotated])
  show ?thesis
    unfolding setup_link_billing_def Let_def gcp_api_cong[OF a1] r1
    by (simp add: setup_enable_apis_cong[where e=e and e'=e'] assms a1 a2 split: sum.splits)
qed


lemma setup_create_project_cong:
  assumes "agree_from (length (calls w)) e e'"
  shows "setup_create_project e' t p pw ba st w = setup_create_project e t p pw ba st w"
proof -
  obtain res w1 where r1:
    "gcp_api e ''POST'' projects_url t
       (JsonBody (JObj [(''projectId'', p), (''name'', JStr ''HA Tunnel'')])) w = (res, w1)"
    by (cases "gcp_api e ''POST'' projects_url t
       (JsonBody (JObj [(''projectId'', p), (''name'', JStr ''HA Tunnel'')])) w")
  have a1: "agree_from (length (calls w1)) e e'"
    using gcp_api_length[OF r1] assms by (rule agree_from_mono[rotated])
  show ?thesis
    unfolding setup_create_project_def gcp_api_cong[OF assms] r1
    by (simp add: setup_link_billing_cong[where e=e and e'=e'] a1 split: sum.splits)
qed

lemma rstrip_empty_iff: "rstrip c s = [] \<longleftrightarrow> (\<forall>x\<in>set s. x = c)"
  by (simp add: rstrip_def dropWhile_eq_Nil_conv)

lemma b64_alphabet_length: "length b64_alphabet = 64"
  by (simp add: b64_alphabet_def)

lemma b64_ch_in_alphabet: "b64_ch i \<in> set b64_alphabet"
  unfolding b64_ch_def by (rule nth_mem) (simp add: b64_alphabet_length)

lemma pad_not_in_alphabet: "CHR ''='' \<notin> set b64_alphabet"
  by (simp add: b64_alphabet_def)

lemma b64_ch_not_pad: "b64_ch i \<noteq> CHR ''=''"
  using b64_ch_in_alphabet[of i] pad_not_in_alphabet by metis

lemma urlsafe_b64encode_head:
  "urlsafe_b64encode (a # bs) = b64_ch (unat a div 4) # tl (urlsafe_b64encode (a # bs))"
  by (cases "(a # bs)" rule: urlsafe_b64encode.cases) auto

lemma base64url_nopad_nonempty: "bs \<noteq> [] \<Longrightarrow> base64url_nopad bs \<noteq> []"
proof (cases bs)
  case Nil
  then show "bs \<noteq> [] \<Longrightarrow> ?thesis" by simp
next
  case (Cons a rest)
  have "b64_ch (unat a div 4) \<in> set (urlsafe_b64encode (a # rest))"
    by (subst urlsafe_b64encode_head) simp
  then show ?thesis
    unfolding base64url_nopad_def rstrip_empty_iff Cons
    using b64_ch_not_pad by blast
qed

lemma resolve_project_id_props:
  assumes "resolve_project_id e st w = (p, w1)"
  shows "truthy p \<and> w1 = w\<lparr>drawn := drawn w1\<rparr> \<and>
         (truthy (dict_get st ''project_id'') \<longrightarrow> p = dict_get st ''project_id'' \<and> w1 = w)"
  using assms unfolding resolve_project_id_def generate_project_name_def token_hex_def token_bytes_def
  by (auto split: if_splits prod.splits)

lemma resolve_password_props:
  assumes "resolve_password e st w = (p, w1)"
  shows "truthy p \<and> w1 = w\<lparr>drawn := drawn w1\<rparr> \<and>
         (truthy (dict_get st ''password'') \<longrightarrow> p = dict_get st ''password'' \<and> w1 = w)"
  using assms unfolding resolve_password_def generate_password_def token_urlsafe_def token_bytes_def
  by (auto split: if_splits prod.splits simp: base64url_nopad_nonempty)

text \<open>The shape of every run.\<close>

lemma run_setup_cases:
  assumes "run_setup e rj w = (rep, w')"
  obtains (unauthenticated) "\<not> truthy (get_token w)"
            "rep = Jsonify [(''error'', JStr ''Not authenticated'')] 401" "w' = w"
        | (no_body) "truthy (get_token w)" "rj = None" "rep = Unhandled BadRequest"
            "w' = w\<lparr>drawn := drawn w'\<rparr>"
        | (bad_body) j ex where "truthy (get_token w)" "rj = Some j"
            "attr_get j ''billing_account'' JNull = Inl ex" "rep = Unhandled ex"
            "w' = w\<lparr>drawn := drawn w'\<rparr>"
        | (ran) j ba p w1 pw w2 res where "truthy (get_token w)" "rj = Some j"
            "attr_get j ''billing_account'' JNull = Inr ba"
            "resolve_project_id e (get_setup_state w) w = (p, w1)"
            "resolve_password e (get_setup_state w) w1 = (pw, w2)"
            "setup_create_project e (get_token w) p pw ba
               (dict_set (dict_set (dict_set (get_setup_state w) ''project_id'' p) ''password'' pw)
                  ''step'' (JStr ''creating_project''))
               (save_setup_state
                  (dict_set (dict_set (dict_set (get_setup_state w) ''project_id'' p) ''password'' pw)
                     ''step'' (JStr ''creating_project'')) w2) = (res, w')"
            "rep = (case res of Inl ex \<Rightarrow> Jsonify [(''error'', JStr (exn_str ex))] 500 | Inr r \<Rightarrow> r)"
proof (cases "truthy (get_token w)")
  case False
  with assms show ?thesis
    by (intro unauthenticated) (auto simp: run_setup_def Let_def)
next
  case True
  obtain p w1 where r1: "resolve_project_id e (get_setup_state w) w = (p, w1)"
    by (cases "resolve_project_id e (get_setup_state w) w")
  obtain pw w2 where r2: "resolve_password e (get_setup_state w) w1 = (pw, w2)"
    by (cases "resolve_password e (get_setup_state w) w1")
  have w2: "w2 = w\<lparr>drawn := drawn w2\<rparr>"
    using resolve_project_id_props[OF r1] resolve_password_props[OF r2]
    by (metis world.surjective world.update_convs(5))
  from assms True r1 r2 have run:
    "(case rj of
        None \<Rightarrow> (Unhandled BadRequest, w2)
      | Some j \<Rightarrow>
         (case attr_get j ''billing_account'' JNull of
            Inl ex \<Rightarrow> (Unhandled ex, w2)
          | Inr ba \<Rightarrow>
             (case setup_create_project e (get_token w) p pw ba
               (dict_set (dict_set (dict_set (get_setup_state w) ''project_id'' p) ''password'' pw)
                  ''step'' (JStr ''creating_project''))
               (save_setup_state
                  (dict_set (dict_set (dict_set (get_setup_state w) ''project_id'' p) ''password'' pw)
                     ''step'' (JStr ''creating_project'')) w2) of
               (Inl ex, w4) \<Rightarrow> (Jsonify [(''error'', JStr (exn_str ex))] 500, w4)
             | (Inr r, w4) \<Rightarrow> (r, w4)))) = (rep, w')"
    unfolding run_setup_def Let_def by simp
  show ?thesis
  proof (cases rj)
    case None
    with run w2 True show ?thesis by (intro no_body) auto
  next
    case (Some j)
    show ?thesis
    proof (cases "attr_get j ''billing_account'' JNull")
      case (Inl ex)
      with run w2 True Some show ?thesis by (intro bad_body[of j ex]) auto
    next
      case (Inr ba)
      let ?st = "dict_set (dict_set (dict_set (get_setup_state w) ''project_id'' p) ''password'' pw)
                  ''step'' (JStr ''creating_project'')"
      obtain res w4 where c:
        "setup_create_project e (get_token w) p pw ba ?st (save_setup_state ?st w2) = (res, w4)"
        by (cases "setup_create_project e (get_token w) p pw ba ?st (save_setup_state ?st w2)")
      from run Some Inr c
      have "rep = (case res of Inl ex \<Rightarrow> Jsonify [(''error'', JStr (exn_str ex))] 500 | Inr r \<Rightarrow> r)"
        and "w' = w4"
        by (auto split: sum.splits)
      with c show ?thesis
        using ran[OF True Some Inr r1 r2, of res] by simp
    qed
  qed
qed

lemma run_setup_ran_props:
  assumes "resolve_project_id e (get_setup_state w) w = (p, w1)"
    and "resolve_password e (get_setup_state w) w1 = (pw, w2)"
    and "setup_create_project e t p pw ba st (save_setup_state st w2) = (res, w')"
    and "dict_get st ''project_id'' = p" and "dict_get st ''password'' = pw"
    and "dict_get st ''step'' = JStr ''creating_project''"
  shows "persisted w' ''project_id'' = p \<and> persisted w' ''password'' = pw \<and>
         step_le (JStr ''creating_project'') (persisted w' ''step'') \<and>
         token_file w' = token_file w \<and> session w' = session w \<and> drawn w' = drawn w2 \<and>
         prefix (calls w) (calls w')"
proof -
  have w2: "token_file w2 = token_file w" "session w2 = session w" "calls w2 = calls w"
    using resolve_project_id_props[OF assms(1)] resolve_password_props[OF assms(2)]
    by (metis world.select_convs(1) world.surjective world.update_convs(5),
        metis world.select_convs(3) world.surjective world.update_convs(5),
        metis world.select_convs(4) world.surjective world.update_convs(5))
  have fr: "frame (save_setup_state st w2) w'"
    using assms(3) by (rule setup_create_project_frame)
  have fl: "setup_file w' = Some st \<or> (kept st w' \<and> step_le (JStr ''linking_billing'') (persisted w' ''step''))"
    using setup_create_project_file[OF assms(3)] by (simp add: save_setup_state_def)
  have "persisted w' ''project_id'' = p \<and> persisted w' ''password'' = pw \<and>
         step_le (JStr ''creating_project'') (persisted w' ''step'')"
    using fl assms(4-6)
    by (auto simp: persisted_def get_setup_state_def kept_def
        intro: step_le_trans[OF step_le_chain(4)])
  with fr w2 show ?thesis
    by (simp add: frame_def save_setup_state_def)
qed

section \<open>The authorization flow\<close>

text \<open>
  Claim C9 says that every call of \<^verbatim>\<open>auth_callback\<close> destroys the PKCE exchange
  context. The program has no statement that removes anything from the session, and the
  property that holds is the opposite one (C9 as amended): whatever the outcome of
  \<^verbatim>\<open>auth_callback\<close>, the session is exactly what it was before the call, so a stored
  \<^verbatim>\<open>code_verifier\<close> is still stored afterwards.
\<close>

theorem auth_callback_keeps_session:
  "session (snd (auth_callback e url_root code error w)) = session w"
  unfolding auth_callback_def Let_def save_token_def save_setup_state_def
  by (auto split: prod.splits sum.splits elim!: requests_request_cases)

text \<open>
  A callback that reports \<^verbatim>\<open>access_denied\<close> leaves the verifier of the session in place.
\<close>

theorem verifier_survives_callback:
  "map_of (session (snd (auth_callback example_env ''http://ha.local/'' None (Some ''access_denied'')
      authorized_world))) ''code_verifier'' = Some (JStr ''dBjftJeZ4CVP'')"
  by code_simp

text \<open>
  Claim C5 (as amended): \<^verbatim>\<open>auth_callback\<close> answers with the error page showing the
  provider's error whenever the \<^verbatim>\<open>error\<close> parameter is present and not empty, whether
  or not a code came with it; it answers with the error page "No authorization code
  received" whenever \<^verbatim>\<open>error\<close> is absent or empty and \<^verbatim>\<open>code\<close> is absent or empty.
  In both cases the world is returned as it was: no request was issued and no token was
  written.
\<close>

theorem auth_callback_rejects:
  "(error = Some er \<and> er \<noteq> [] \<longrightarrow>
      auth_callback e url_root code error w = (Render ''error.html'' [(''error'', JStr er)], w)) \<and>
   ((error = None \<or> error = Some []) \<and> (code = None \<or> code = Some []) \<longrightarrow>
      auth_callback e url_root code error w =
        (Render ''error.html'' [(''error'', JStr ''No authorization code received'')], w))"
  by (auto simp: auth_callback_def opt_json_def)

theorem auth_callback_rejects_witness:
  "auth_callback example_env ''http://ha.local/'' (Some ''4/0Ab'') (Some ''access_denied'') fresh_world =
     (Render ''error.html'' [(''error'', JStr ''access_denied'')], fresh_world) \<and>
   auth_callback example_env ''http://ha.local/'' None None fresh_world =
     (Render ''error.html'' [(''error'', JStr ''No authorization code received'')], fresh_world)"
  using auth_callback_rejects[of "Some ''access_denied''" "''access_denied''" example_env
          "''http://ha.local/''" "Some ''4/0Ab''" fresh_world]
        auth_callback_rejects[of None "''x''" example_env "''http://ha.local/''" None fresh_world]
  by simp

text \<open>
  The claim as first stated speaks of an error parameter that is present. A query string
  \<^verbatim>\<open>?error=&code=4/0Ab\<close> has one, its value is the empty string, \<^verbatim>\<open>if error:\<close> is false
  for it, and the code is exchanged and the token stored.
\<close>

theorem empty_error_parameter_is_ignored:
  "token_file (snd (auth_callback example_env ''http://ha.local/'' (Some ''4/0Ab'') (Some [])
      fresh_world)) = Some (JObj [(''access_token'', JStr ''ya29.a0'')]) \<and>
   length (calls (snd (auth_callback example_env ''http://ha.local/'' (Some ''4/0Ab'') (Some [])
      fresh_world))) = 1"
  by code_simp




lemma persisted_same: "setup_file w' = setup_file w \<Longrightarrow> persisted w' k = persisted w k"
  by (simp add: persisted_def get_setup_state_def)

section \<open>The order of the steps\<close>




lemma truthy_not_null: "truthy x \<Longrightarrow> x \<noteq> JNull"
  by auto

lemma dict_get_default_of_get:
  "dict_get d k = v \<Longrightarrow> v \<noteq> JNull \<Longrightarrow> dict_get_default d k x = v"
  by (auto simp: dict_get_def dict_get_default_def split: option.splits)

lemma reply_field_success [simp]:
  "reply_field (success_reply p u pw) ''project_id'' = Some p"
  "reply_field (success_reply p u pw) ''server_url'' = Some u"
  "reply_field (success_reply p u pw) ''password'' = Some pw"
  by (simp_all add: reply_field_def success_reply_def)

text \<open>What a run that answers with status 200 has done.\<close>

lemma run_setup_success:
  assumes "run_setup e rj w = (rep, w')" and "reply_status rep = 200"
  shows "rep = success_reply (persisted w' ''project_id'')
                 (dict_get_default (get_setup_state w') ''server_url'' (JStr []))
                 (persisted w' ''password'') \<and>
         persisted w' ''step'' = JStr ''complete'' \<and>
         truthy (persisted w' ''project_id'') \<and> truthy (persisted w' ''password'') \<and>
         truthy (get_token w')"
  using assms(1)
proof (cases rule: run_setup_cases)
  case unauthenticated
  with assms(2) show ?thesis by (simp add: reply_status_def)
next
  case no_body
  with assms(2) show ?thesis by (simp add: reply_status_def)
next
  case (bad_body j ex)
  with assms(2) show ?thesis by (simp add: reply_status_def)
next
  case (ran j ba p w1 pw w2 res)
  have props: "persisted w' ''project_id'' = p \<and> persisted w' ''password'' = pw \<and>
         token_file w' = token_file w"
    using run_setup_ran_props[OF ran(4,5,6)] by (simp add: dict_get_set)
  have tr: "truthy p" "truthy pw"
    using resolve_project_id_props[OF ran(4)] resolve_password_props[OF ran(5)] by simp_all
  show ?thesis
  proof (cases res)
    case (Inl ex)
    with ran(7) assms(2) show ?thesis by (simp add: reply_status_def)
  next
    case (Inr r)
    with ran(7) have "r = rep" by simp
    with ran(6) Inr assms(2) have "succeeded p pw rep w'"
      by (auto dest!: setup_create_project_reply)
    with props tr ran(1) show ?thesis
      by (simp add: succeeded_def get_token_def)
  qed
qed

section \<open>Status\<close>

text \<open>
  Claim C10: the reply of \<^verbatim>\<open>get_status\<close> shows of the password only whether there is
  one. Two worlds with the same token file whose setup states agree on every key but
  \<^verbatim>\<open>password\<close>, and both have a password, get the same reply; with no token file and no
  setup file the reply says \<^verbatim>\<open>authenticated\<close> false and step start; after a run of
  \<^verbatim>\<open>run_setup\<close> that answered with success the reply says step complete and
  \<^verbatim>\<open>has_password\<close> true, and its fields are booleans, the step, the project id and
  the server URL.
\<close>

theorem status_hides_password:
  "(token_file w1 = token_file w2 \<and> setup_file w1 = Some d1 \<and> setup_file w2 = Some d2 \<and>
      (\<forall>k. k \<noteq> ''password'' \<longrightarrow> map_of d1 k = map_of d2 k) \<and>
      dict_get d1 ''password'' \<noteq> JNull \<and> dict_get d2 ''password'' \<noteq> JNull \<longrightarrow>
    get_status w1 = get_status w2) \<and>
   (token_file w0 = None \<and> setup_file w0 = None \<longrightarrow>
    get_status w0 =
      Jsonify [(''authenticated'', JBool False), (''step'', JStr ''start''),
               (''project_id'', JNull), (''server_url'', JNull),
               (''has_password'', JBool False)] 200) \<and>
   (run_setup e rj w = (rep, w') \<and> reply_status rep = 200 \<longrightarrow>
    get_status w' =
      Jsonify [(''authenticated'', JBool True), (''step'', JStr ''complete''),
               (''project_id'', persisted w' ''project_id''),
               (''server_url'', persisted w' ''server_url''),
               (''has_password'', JBool True)] 200)"
proof (intro conjI impI)
  assume h: "token_file w1 = token_file w2 \<and> setup_file w1 = Some d1 \<and> setup_file w2 = Some d2 \<and>
      (\<forall>k. k \<noteq> ''password'' \<longrightarrow> map_of d1 k = map_of d2 k) \<and>
      dict_get d1 ''password'' \<noteq> JNull \<and> dict_get d2 ''password'' \<noteq> JNull"
  then have "map_of d1 ''step'' = map_of d2 ''step''" "map_of d1 ''project_id'' = map_of d2 ''project_id''"
    "map_of d1 ''server_url'' = map_of d2 ''server_url''"
    by simp_all
  with h show "get_status w1 = get_status w2"
    by (simp add: get_status_def get_setup_state_def get_token_def dict_get_def dict_get_default_def)
next
  assume "token_file w0 = None \<and> setup_file w0 = None"
  then show "get_status w0 =
      Jsonify [(''authenticated'', JBool False), (''step'', JStr ''start''),
               (''project_id'', JNull), (''server_url'', JNull),
               (''has_password'', JBool False)] 200"
    by (simp add: get_status_def get_setup_state_def get_token_def dict_get_def dict_get_default_def)
next
  assume "run_setup e rj w = (rep, w') \<and> reply_status rep = 200"
  then have s: "persisted w' ''step'' = JStr ''complete''" "truthy (persisted w' ''password'')"
    "truthy (get_token w')"
    using run_setup_success[of e rj w rep w'] by simp_all
  have "dict_get_default (get_setup_state w') ''step'' (JStr ''start'') = JStr ''complete''"
    using s(1) by (intro dict_get_default_of_get) (simp_all add: persisted_def)
  then show "get_status w' =
      Jsonify [(''authenticated'', JBool True), (''step'', JStr ''complete''),
               (''project_id'', persisted w' ''project_id''),
               (''server_url'', persisted w' ''server_url''),
               (''has_password'', JBool True)] 200"
    using truthy_not_null[OF s(2)] truthy_not_null[OF s(3)]
    by (simp add: get_status_def persisted_def Let_def)
qed

theorem status_hides_password_witness:
  "get_status completed_world =
     get_status (completed_world\<lparr>setup_file :=
        Some [(''step'', JStr ''complete''), (''project_id'', JStr ''ha-tunnel-0a1b2c''),
              (''password'', JStr ''0therPassw0rd''),
              (''server_url'', JStr ''https://ha-tunnel-xyz.a.run.app'')]\<rparr>) \<and>
   get_status fresh_world =
      Jsonify [(''authenticated'', JBool False), (''step'', JStr ''start''),
               (''project_id'', JNull), (''server_url'', JNull),
               (''has_password'', JBool False)] 200 \<and>
   reply_status (fst (run_setup example_env (Some (JObj [])) completed_world)) = 200 \<and>
   reply_field (get_status (snd (run_setup example_env (Some (JObj [])) completed_world)))
      ''has_password'' = Some (JBool True) \<and>
   reply_field (get_status (snd (run_setup example_env (Some (JObj [])) completed_world)))
      ''step'' = Some (JStr ''complete'')"
proof -
  let ?d1 = "[(''step'', JStr ''complete''), (''project_id'', JStr ''ha-tunnel-0a1b2c''),
              (''password'', JStr ''s3cr3t''),
              (''server_url'', JStr ''https://ha-tunnel-xyz.a.run.app'')]"
  let ?d2 = "[(''step'', JStr ''complete''), (''project_id'', JStr ''ha-tunnel-0a1b2c''),
              (''password'', JStr ''0therPassw0rd''),
              (''server_url'', JStr ''https://ha-tunnel-xyz.a.run.app'')]"
  let ?w2 = "completed_world\<lparr>setup_file := Some ?d2\<rparr>"
  let ?run = "run_setup example_env (Some (JObj [])) completed_world"
  have h1: "token_file completed_world = token_file ?w2 \<and> setup_file completed_world = Some ?d1 \<and>
      setup_file ?w2 = Some ?d2 \<and> (\<forall>k. k \<noteq> ''password'' \<longrightarrow> map_of ?d1 k = map_of ?d2 k) \<and>
      dict_get ?d1 ''password'' \<noteq> JNull \<and> dict_get ?d2 ''password'' \<noteq> JNull"
    by (simp add: completed_world_def dict_get_def dict_get_default_def)
  have h2: "token_file fresh_world = None \<and> setup_file fresh_world = None"
    by (simp add: fresh_world_def)
  have h3: "reply_status (fst ?run) = 200"
    by code_simp
  have h3': "?run = (fst ?run, snd ?run)" by simp
  show ?thesis
    using h1 h2 h3 h3'
      status_hides_password[where ?w1.0 = completed_world and ?w2.0 = ?w2 and ?d1.0 = ?d1
        and ?d2.0 = ?d2 and ?w0.0 = fresh_world and e = example_env and rj = "Some (JObj [])"
        and w = completed_world and rep = "fst ?run" and w' = "snd ?run"]
    by (simp add: reply_field_def)
qed

text \<open>A run keeps the identifiers that are set, and leaves both set once it got past its checks.\<close>

lemma run_setup_ids:
  assumes "run_setup e rj w = (rep, w')"
  shows "(truthy (persisted w ''project_id'') \<longrightarrow> persisted w' ''project_id'' = persisted w ''project_id'') \<and>
         (truthy (persisted w ''password'') \<longrightarrow> persisted w' ''password'' = persisted w ''password'') \<and>
         (truthy (persisted w ''project_id'') \<and> truthy (persisted w ''password'') \<longrightarrow> drawn w' = drawn w) \<and>
         (truthy (get_token w) \<and> rj = Some (JObj b) \<longrightarrow>
            truthy (persisted w' ''project_id'') \<and> truthy (persisted w' ''password''))"
  using assms
proof (cases rule: run_setup_cases)
  case unauthenticated
  then show ?thesis by simp
next
  case no_body
  have "setup_file w' = setup_file w"
    using no_body(4) by (metis world.select_convs(2) world.surjective world.update_convs(5))
  then have same: "persisted w' k = persisted w k" for k
    by (rule persisted_same)
  have "truthy (persisted w ''project_id'') \<and> truthy (persisted w ''password'') \<longrightarrow> drawn w' = drawn w"
    using assms no_body(1,2)
    unfolding run_setup_def Let_def resolve_project_id_def resolve_password_def persisted_def
    by (auto split: prod.splits)
  with same no_body(2) show ?thesis by simp
next
  case (bad_body j ex)
  have "setup_file w' = setup_file w"
    using bad_body(5) by (metis world.select_convs(2) world.surjective world.update_convs(5))
  then have same: "persisted w' k = persisted w k" for k
    by (rule persisted_same)
  have "truthy (persisted w ''project_id'') \<and> truthy (persisted w ''password'') \<longrightarrow> drawn w' = drawn w"
    using assms bad_body(1,2,3)
    unfolding run_setup_def Let_def resolve_project_id_def resolve_password_def persisted_def
    by (auto split: prod.splits)
  moreover have "rj \<noteq> Some (JObj b)"
    using bad_body(2,3) by auto
  ultimately show ?thesis using same by simp
next
  case (ran j ba p w1 pw w2 res)
  have props: "persisted w' ''project_id'' = p" "persisted w' ''password'' = pw" "drawn w' = drawn w2"
    using run_setup_ran_props[OF ran(4,5,6)] by (simp_all add: dict_get_set)
  have p: "truthy p" "truthy (persisted w ''project_id'') \<longrightarrow> p = persisted w ''project_id'' \<and> w1 = w"
    using resolve_project_id_props[OF ran(4)] by (simp_all add: persisted_def)
  have pw: "truthy pw" "truthy (persisted w ''password'') \<longrightarrow> pw = persisted w ''password'' \<and> w2 = w1"
    using resolve_password_props[OF ran(5)] by (simp_all add: persisted_def)
  show ?thesis
    using props p pw by auto
qed

section \<open>Generated identifiers\<close>

text \<open>
  Claim C2: a run of \<^verbatim>\<open>run_setup\<close> that finds a non-empty \<^verbatim>\<open>project_id\<close>
  (respectively \<^verbatim>\<open>password\<close>) in the persisted setup state keeps exactly that value in
  the state and reports exactly that value when it succeeds; with both present it draws
  nothing from the random source. Any run that got past the check of the token and the
  reading of the request body leaves both values set, so a second run after it persists,
  uses and reports the same project id and the same password as the first.
\<close>

theorem identifiers_are_reused:
  "(run_setup e rj w = (rep, w') \<and> truthy (persisted w ''project_id'') \<longrightarrow>
      persisted w' ''project_id'' = persisted w ''project_id'' \<and>
      (reply_status rep = 200 \<longrightarrow> reply_field rep ''project_id'' = Some (persisted w ''project_id''))) \<and>
   (run_setup e rj w = (rep, w') \<and> truthy (persisted w ''password'') \<longrightarrow>
      persisted w' ''password'' = persisted w ''password'' \<and>
      (reply_status rep = 200 \<longrightarrow> reply_field rep ''password'' = Some (persisted w ''password''))) \<and>
   (run_setup e rj w = (rep, w') \<and> truthy (persisted w ''project_id'') \<and>
      truthy (persisted w ''password'') \<longrightarrow> drawn w' = drawn w) \<and>
   (run_setup e1 rj1 v = (rep1, v1) \<and> truthy (get_token v) \<and> rj1 = Some (JObj b) \<and>
      run_setup e2 rj2 v1 = (rep2, v2) \<longrightarrow>
      persisted v2 ''project_id'' = persisted v1 ''project_id'' \<and>
      persisted v2 ''password'' = persisted v1 ''password'' \<and>
      drawn v2 = drawn v1 \<and>
      (reply_status rep2 = 200 \<longrightarrow>
         reply_field rep2 ''project_id'' = Some (persisted v1 ''project_id'') \<and>
         reply_field rep2 ''password'' = Some (persisted v1 ''password'')) \<and>
      (reply_status rep1 = 200 \<and> reply_status rep2 = 200 \<longrightarrow>
         reply_field rep2 ''project_id'' = reply_field rep1 ''project_id'' \<and>
         reply_field rep2 ''password'' = reply_field rep1 ''password''))"
proof -
  have reported: "reply_field r ''project_id'' = Some (persisted u' ''project_id'') \<and>
                  reply_field r ''password'' = Some (persisted u' ''password'')"
    if "run_setup x y u = (r, u')" "reply_status r = 200" for x y u r u'
  proof -
    have "r = success_reply (persisted u' ''project_id'')
                 (dict_get_default (get_setup_state u') ''server_url'' (JStr []))
                 (persisted u' ''password'')"
      using run_setup_success[OF that] by simp
    then show ?thesis by (metis reply_field_success(1,3))
  qed
  have one: "persisted w' ''project_id'' = persisted w ''project_id'' \<and>
      (reply_status rep = 200 \<longrightarrow> reply_field rep ''project_id'' = Some (persisted w ''project_id''))"
    if "run_setup e rj w = (rep, w')" "truthy (persisted w ''project_id'')"
    using run_setup_ids[OF that(1)] reported[OF that(1)] that(2) by simp
  have two: "persisted w' ''password'' = persisted w ''password'' \<and>
      (reply_status rep = 200 \<longrightarrow> reply_field rep ''password'' = Some (persisted w ''password''))"
    if "run_setup e rj w = (rep, w')" "truthy (persisted w ''password'')"
    using run_setup_ids[OF that(1)] reported[OF that(1)] that(2) by simp
  have three: "drawn w' = drawn w"
    if "run_setup e rj w = (rep, w')" "truthy (persisted w ''project_id'')" "truthy (persisted w ''password'')"
    using run_setup_ids[OF that(1)] that(2,3) by simp
  have four: "persisted v2 ''project_id'' = persisted v1 ''project_id'' \<and>
      persisted v2 ''password'' = persisted v1 ''password'' \<and>
      drawn v2 = drawn v1 \<and>
      (reply_status rep2 = 200 \<longrightarrow>
         reply_field rep2 ''project_id'' = Some (persisted v1 ''project_id'') \<and>
         reply_field rep2 ''password'' = Some (persisted v1 ''password'')) \<and>
      (reply_status rep1 = 200 \<and> reply_status rep2 = 200 \<longrightarrow>
         reply_field rep2 ''project_id'' = reply_field rep1 ''project_id'' \<and>
         reply_field rep2 ''password'' = reply_field rep1 ''password'')"
    if a: "run_setup e1 rj1 v = (rep1, v1)" "truthy (get_token v)" "rj1 = Some (JObj b)"
      "run_setup e2 rj2 v1 = (rep2, v2)"
  proof -
    have set1: "truthy (persisted v1 ''project_id'')" "truthy (persisted v1 ''password'')"
      using run_setup_ids[OF a(1), of b] a(2,3) by simp_all
    have keep: "persisted v2 ''project_id'' = persisted v1 ''project_id''"
      "persisted v2 ''password'' = persisted v1 ''password''" "drawn v2 = drawn v1"
      using run_setup_ids[OF a(4)] set1 by simp_all
    show ?thesis
      using keep reported[OF a(1)] reported[OF a(4)] by simp
  qed
  show ?thesis
    using one two three four by blast
qed

theorem identifiers_are_reused_witness:
  "truthy (persisted completed_world ''project_id'') \<and>
   truthy (persisted completed_world ''password'') \<and>
   truthy (get_token completed_world) \<and>
   persisted (snd (run_setup example_env (Some (JObj [])) completed_world)) ''project_id'' =
     JStr ''ha-tunnel-0a1b2c'' \<and>
   drawn (snd (run_setup example_env (Some (JObj [])) completed_world)) = 91 \<and>
   persisted (snd (run_setup refusing_env (Some (JObj []))
      (snd (run_setup example_env (Some (JObj [])) completed_world)))) ''password'' =
     persisted (snd (run_setup example_env (Some (JObj [])) completed_world)) ''password''"
proof -
  let ?r1 = "run_setup example_env (Some (JObj [])) completed_world"
  let ?r2 = "run_setup refusing_env (Some (JObj [])) (snd ?r1)"
  have h: "truthy (persisted completed_world ''project_id'')"
    "truthy (persisted completed_world ''password'')" "truthy (get_token completed_world)"
    "persisted completed_world ''project_id'' = JStr ''ha-tunnel-0a1b2c''"
    "drawn completed_world = 91"
    by code_simp+
  have r1: "?r1 = (fst ?r1, snd ?r1)" and r2: "?r2 = (fst ?r2, snd ?r2)"
    by simp_all
  show ?thesis
    using h r1 r2
      identifiers_are_reused[where e = example_env and rj = "Some (JObj [])"
        and w = completed_world and rep = "fst ?r1" and w' = "snd ?r1"
        and ?e1.0 = example_env and ?rj1.0 = "Some (JObj [])" and v = completed_world
        and ?rep1.0 = "fst ?r1" and ?v1.0 = "snd ?r1" and b = "[]"
        and ?e2.0 = refusing_env and ?rj2.0 = "Some (JObj [])"
        and ?rep2.0 = "fst ?r2" and ?v2.0 = "snd ?r2"]
    by simp
qed

lemma gcp_api_responds:
  "subscript t ''access_token'' = Inr a \<Longrightarrow> net e (length (calls w)) = Responds resp \<Longrightarrow>
   gcp_api e m u t b w = (Inr resp, w\<lparr>calls := calls w @ [gcp_request m u a b]\<rparr>)"
  by (simp add: gcp_api_def requests_request_def)

lemma resolve_cong:
  "urandom e' = urandom e \<Longrightarrow> resolve_project_id e' st w = resolve_project_id e st w"
  "urandom e' = urandom e \<Longrightarrow> resolve_password e' st w = resolve_password e st w"
  by (simp_all add: resolve_project_id_def resolve_password_def generate_project_name_def
      generate_password_def token_hex_def token_urlsafe_def token_bytes_def)

lemma resolve_calls:
  "resolve_project_id e st w = (p, w1) \<Longrightarrow> calls w1 = calls w"
  "resolve_password e st w = (pw, w2) \<Longrightarrow> calls w2 = calls w"
  by (auto simp: resolve_project_id_def resolve_password_def generate_project_name_def
      generate_password_def token_hex_def token_urlsafe_def token_bytes_def split: if_splits)

lemma subscript_truthy: "subscript t k = Inr a \<Longrightarrow> truthy t"
  by (cases t) (auto split: option.splits)

text \<open>The create-project step, when the request gets an answer.\<close>

lemma setup_create_project_answered:
  assumes "subscript t ''access_token'' = Inr a" and "net e (length (calls w)) = Responds resp"
  shows "setup_create_project e t p pw ba st w =
     (if status_code resp \<notin> {200, 409}
      then (Inr (project_failed resp),
            w\<lparr>calls := calls w @ [gcp_request ''POST'' projects_url a
                (JsonBody (JObj [(''projectId'', p), (''name'', JStr ''HA Tunnel'')]))]\<rparr>)
      else setup_link_billing e t p pw ba st
            (w\<lparr>calls := calls w @ [gcp_request ''POST'' projects_url a
                (JsonBody (JObj [(''projectId'', p), (''name'', JStr ''HA Tunnel'')]))]\<rparr>))"
  unfolding setup_create_project_def gcp_api_responds[OF assms] by simp

lemma setup_create_project_conflict:
  assumes "subscript t ''access_token'' = Inr a" and "net e (length (calls w)) = Responds resp"
    and "status_code resp = 409"
  shows "setup_create_project
           (e\<lparr>net := (net e)(length (calls w) := Responds (resp\<lparr>status_code := 200\<rparr>))\<rparr>)
           t p pw ba st w = setup_create_project e t p pw ba st w"
proof -
  let ?e' = "e\<lparr>net := (net e)(length (calls w) := Responds (resp\<lparr>status_code := 200\<rparr>))\<rparr>"
  let ?w1 = "w\<lparr>calls := calls w @ [gcp_request ''POST'' projects_url a
                (JsonBody (JObj [(''projectId'', p), (''name'', JStr ''HA Tunnel'')]))]\<rparr>"
  have n': "net ?e' (length (calls w)) = Responds (resp\<lparr>status_code := 200\<rparr>)"
    by simp
  have ag: "agree_from (length (calls ?w1)) e ?e'"
    by (simp add: agree_from_def)
  have "setup_create_project ?e' t p pw ba st w = setup_link_billing ?e' t p pw ba st ?w1"
    by (simp add: setup_create_project_answered[OF assms(1) n'])
  also have "\<dots> = setup_link_billing e t p pw ba st ?w1"
    using ag by (rule setup_link_billing_cong)
  also have "\<dots> = setup_create_project e t p pw ba st w"
    by (simp add: setup_create_project_answered[OF assms(1,2)] assms(3))
  finally show ?thesis .
qed

lemma run_setup_body:
  assumes "truthy (get_token w)" and "rj = Some (JObj b)"
    and "resolve_project_id e (get_setup_state w) w = (p, w1)"
    and "resolve_password e (get_setup_state w) w1 = (pw, w2)"
  shows "run_setup e rj w =
     (case setup_create_project e (get_token w) p pw (dict_get b ''billing_account'')
             (entry_state (get_setup_state w) p pw)
             (save_setup_state (entry_state (get_setup_state w) p pw) w2) of
        (Inl ex, w4) \<Rightarrow> (Jsonify [(''error'', JStr (exn_str ex))] 500, w4)
      | (Inr r, w4) \<Rightarrow> (r, w4))"
  unfolding run_setup_def Let_def entry_state_def
  by (simp add: assms dict_get_def)

lemma entry_state_get [simp]:
  "dict_get (entry_state st p pw) ''project_id'' = p"
  "dict_get (entry_state st p pw) ''password'' = pw"
  "dict_get (entry_state st p pw) ''step'' = JStr ''creating_project''"
  by (simp_all add: entry_state_def dict_get_set)

section \<open>The create-project step\<close>

text \<open>
  Claim C3, for a run of \<^verbatim>\<open>run_setup\<close> whose token has an access token, whose request
  body is a JSON object, and whose first request (the project creation) gets the answer
  \<open>resp\<close>. If the status of \<open>resp\<close> is 409, the run is the same, reply and final world, as
  the run in which that answer has status 200 and everything else is equal, and it
  persists a step from linking_billing on. If the status is neither 200 nor 409, the reply
  is the error "Failed to create project:" followed by the text of \<open>resp\<close>, with status 500,
  the persisted step is creating_project, and the project creation is the only request
  the run has issued.
\<close>

theorem create_project_conflict:
  "(subscript (get_token w) ''access_token'' = Inr a \<and> rj = Some (JObj b) \<and>
      net e (length (calls w)) = Responds resp \<and> status_code resp = 409 \<longrightarrow>
      run_setup e rj w =
        run_setup (e\<lparr>net := (net e)(length (calls w) := Responds (resp\<lparr>status_code := 200\<rparr>))\<rparr>) rj w \<and>
      step_le (JStr ''linking_billing'') (persisted (snd (run_setup e rj w)) ''step'')) \<and>
   (subscript (get_token w) ''access_token'' = Inr a \<and> rj = Some (JObj b) \<and>
      net e (length (calls w)) = Responds resp \<and> status_code resp \<notin> {200, 409} \<longrightarrow>
      fst (run_setup e rj w) =
        Jsonify [(''error'', JStr (''Failed to create project: '' @ resp_text resp))] 500 \<and>
      persisted (snd (run_setup e rj w)) ''step'' = JStr ''creating_project'' \<and>
      calls (snd (run_setup e rj w)) =
        calls w @ [create_request a (persisted (snd (run_setup e rj w)) ''project_id'')])"
proof -
  let ?e' = "e\<lparr>net := (net e)(length (calls w) := Responds (resp\<lparr>status_code := 200\<rparr>))\<rparr>"
  let ?st = "get_setup_state w"
  obtain p w1 where r1: "resolve_project_id e ?st w = (p, w1)"
    by (cases "resolve_project_id e ?st w")
  obtain pw w2 where r2: "resolve_password e ?st w1 = (pw, w2)"
    by (cases "resolve_password e ?st w1")
  let ?w3 = "save_setup_state (entry_state ?st p pw) w2"
  let ?ba = "dict_get b ''billing_account''"
  have len: "length (calls ?w3) = length (calls w)"
    using resolve_calls(1)[OF r1] resolve_calls(2)[OF r2] by simp
  have r1': "resolve_project_id ?e' ?st w = (p, w1)" and r2': "resolve_password ?e' ?st w1 = (pw, w2)"
    using r1 r2 resolve_cong[of ?e' e ?st] by simp_all
  have body: "run_setup e rj w =
       (case setup_create_project e (get_token w) p pw ?ba (entry_state ?st p pw) ?w3 of
          (Inl ex, w4) \<Rightarrow> (Jsonify [(''error'', JStr (exn_str ex))] 500, w4)
        | (Inr r, w4) \<Rightarrow> (r, w4))"
    if "subscript (get_token w) ''access_token'' = Inr a" "rj = Some (JObj b)"
    using run_setup_body[OF subscript_truthy[OF that(1)] that(2) r1 r2] .
  have body': "run_setup ?e' rj w =
       (case setup_create_project ?e' (get_token w) p pw ?ba (entry_state ?st p pw) ?w3 of
          (Inl ex, w4) \<Rightarrow> (Jsonify [(''error'', JStr (exn_str ex))] 500, w4)
        | (Inr r, w4) \<Rightarrow> (r, w4))"
    if "subscript (get_token w) ''access_token'' = Inr a" "rj = Some (JObj b)"
    using run_setup_body[OF subscript_truthy[OF that(1)] that(2) r1' r2'] .
  have conflict: "run_setup e rj w = run_setup ?e' rj w \<and>
      step_le (JStr ''linking_billing'') (persisted (snd (run_setup e rj w)) ''step'')"
    if h: "subscript (get_token w) ''access_token'' = Inr a" "rj = Some (JObj b)"
      "net e (length (calls w)) = Responds resp" "status_code resp = 409"
  proof -
    have n: "net e (length (calls ?w3)) = Responds resp"
      using h(3) len by simp
    have same: "setup_create_project ?e' (get_token w) p pw ?ba (entry_state ?st p pw) ?w3 =
          setup_create_project e (get_token w) p pw ?ba (entry_state ?st p pw) ?w3"
      using setup_create_project_conflict[OF h(1) n h(4), of p pw ?ba "entry_state ?st p pw"] len
      by simp
    obtain res w' where c: "setup_create_project e (get_token w) p pw ?ba (entry_state ?st p pw) ?w3 = (res, w')"
      by (cases "setup_create_project e (get_token w) p pw ?ba (entry_state ?st p pw) ?w3")
    have "setup_link_billing e (get_token w) p pw ?ba (entry_state ?st p pw)
            (?w3\<lparr>calls := calls ?w3 @ [gcp_request ''POST'' projects_url a
                (JsonBody (JObj [(''projectId'', p), (''name'', JStr ''HA Tunnel'')]))]\<rparr>) = (res, w')"
      using c by (simp add: setup_create_project_answered[OF h(1) n] h(4))
    then have "step_le (JStr ''linking_billing'') (persisted w' ''step'')"
      by (auto dest!: setup_link_billing_file)
    moreover have "snd (run_setup e rj w) = w'"
      by (simp add: body[OF h(1,2)] c split: sum.splits)
    ultimately show ?thesis
      by (simp add: body[OF h(1,2)] body'[OF h(1,2)] same)
  qed
  have refused: "fst (run_setup e rj w) =
        Jsonify [(''error'', JStr (''Failed to create project: '' @ resp_text resp))] 500 \<and>
      persisted (snd (run_setup e rj w)) ''step'' = JStr ''creating_project'' \<and>
      calls (snd (run_setup e rj w)) =
        calls w @ [create_request a (persisted (snd (run_setup e rj w)) ''project_id'')]"
    if h: "subscript (get_token w) ''access_token'' = Inr a" "rj = Some (JObj b)"
      "net e (length (calls w)) = Responds resp" "status_code resp \<notin> {200, 409}"
  proof -
    have n: "net e (length (calls ?w3)) = Responds resp"
      using h(3) len by simp
    have cw: "calls w2 = calls w"
      using resolve_calls(1)[OF r1] resolve_calls(2)[OF r2] by simp
    have c: "setup_create_project e (get_token w) p pw ?ba (entry_state ?st p pw) ?w3 =
        (Inr (project_failed resp),
         ?w3\<lparr>calls := calls ?w3 @ [gcp_request ''POST'' projects_url a
                (JsonBody (JObj [(''projectId'', p), (''name'', JStr ''HA Tunnel'')]))]\<rparr>)"
      using h(4) by (simp add: setup_create_project_answered[OF h(1) n])
    show ?thesis
      unfolding body[OF h(1,2)] c
      by (simp add: project_failed_def create_request_def cw persisted_def get_setup_state_def
          save_setup_state_def)
  qed
  show ?thesis
  proof (rule conjI; rule impI)
    assume "subscript (get_token w) ''access_token'' = Inr a \<and> rj = Some (JObj b) \<and>
      net e (length (calls w)) = Responds resp \<and> status_code resp = 409"
    then show "run_setup e rj w = run_setup ?e' rj w \<and>
      step_le (JStr ''linking_billing'') (persisted (snd (run_setup e rj w)) ''step'')"
      by (elim conjE) (rule conflict)
  next
    assume "subscript (get_token w) ''access_token'' = Inr a \<and> rj = Some (JObj b) \<and>
      net e (length (calls w)) = Responds resp \<and> status_code resp \<notin> {200, 409}"
    then show "fst (run_setup e rj w) =
        Jsonify [(''error'', JStr (''Failed to create project: '' @ resp_text resp))] 500 \<and>
      persisted (snd (run_setup e rj w)) ''step'' = JStr ''creating_project'' \<and>
      calls (snd (run_setup e rj w)) =
        calls w @ [create_request a (persisted (snd (run_setup e rj w)) ''project_id'')]"
      by (elim conjE) (rule refused)
  qed
qed

theorem create_project_conflict_witness:
  "run_setup conflict_env (Some (JObj [])) completed_world =
     run_setup (conflict_env\<lparr>net := (net conflict_env)(0 :=
                  Responds (conflict_response\<lparr>status_code := 200\<rparr>))\<rparr>)
       (Some (JObj [])) completed_world \<and>
   step_le (JStr ''linking_billing'')
     (persisted (snd (run_setup conflict_env (Some (JObj [])) completed_world)) ''step'') \<and>
   fst (run_setup refusing_env (Some (JObj [])) completed_world) =
     Jsonify [(''error'', JStr ''Failed to create project: forbidden'')] 500 \<and>
   persisted (snd (run_setup refusing_env (Some (JObj [])) completed_world)) ''step'' =
     JStr ''creating_project''"
proof -
  have tok: "subscript (get_token completed_world) ''access_token'' = Inr (JStr ''ya29.a0'')"
    by code_simp
  have len: "length (calls completed_world) = 0"
    by (simp add: completed_world_def)
  have n1: "net conflict_env (length (calls completed_world)) = Responds conflict_response"
    "status_code conflict_response = 409"
    by (simp_all add: conflict_env_def completed_world_def conflict_response_def)
  have n2: "net refusing_env (length (calls completed_world)) =
      Responds \<lparr>status_code = 403, resp_text = ''forbidden'', body_json = Inr (JObj [])\<rparr>"
    by (simp add: refusing_env_def completed_world_def)
  have c1: "run_setup conflict_env (Some (JObj [])) completed_world =
     run_setup (conflict_env\<lparr>net := (net conflict_env)(0 :=
                  Responds (conflict_response\<lparr>status_code := 200\<rparr>))\<rparr>)
       (Some (JObj [])) completed_world \<and>
   step_le (JStr ''linking_billing'')
     (persisted (snd (run_setup conflict_env (Some (JObj [])) completed_world)) ''step'')"
    using tok n1
      create_project_conflict[where w = completed_world and a = "JStr ''ya29.a0''"
        and rj = "Some (JObj [])" and b = "[]" and e = conflict_env and resp = conflict_response]
    unfolding len by blast
  have c2: "fst (run_setup refusing_env (Some (JObj [])) completed_world) =
     Jsonify [(''error'', JStr ''Failed to create project: forbidden'')] 500 \<and>
   persisted (snd (run_setup refusing_env (Some (JObj [])) completed_world)) ''step'' =
     JStr ''creating_project''"
    using tok n2
      create_project_conflict[where w = completed_world and a = "JStr ''ya29.a0''"
        and rj = "Some (JObj [])" and b = "[]" and e = refusing_env
        and resp = "\<lparr>status_code = 403, resp_text = ''forbidden'', body_json = Inr (JObj [])\<rparr>"]
    by simp
  show ?thesis
    using c1 c2 by blast
qed

lemma new_calls_billing:
  assumes "prefix (calls w) (calls w')" and "billing_calls w' = billing_calls w"
  shows "\<forall>r\<in>set (new_calls w w'). \<not> is_billing_call r"
proof -
  from assms(1) obtain zs where zs: "calls w' = calls w @ zs"
    by (auto simp: prefix_def)
  then have "new_calls w w' = zs"
    by (simp add: new_calls_def)
  moreover have "filter is_billing_call zs = []"
    using assms(2) zs by (simp add: billing_calls_def)
  ultimately show ?thesis
    by (simp add: filter_empty_conv)
qed

lemma new_calls_drawn [simp]: "new_calls w (w\<lparr>drawn := n\<rparr>) = []"
  by (simp add: new_calls_def)

lemma not_billing_required_error [simp]:
  "\<not> billing_required (Jsonify [(''error'', x)] c)"
  "\<not> billing_required (Unhandled ex)"
  by (simp_all add: billing_required_def)

text \<open>The link-billing step, when an account was given and the request gets an answer.\<close>

lemma setup_link_billing_answered:
  assumes "subscript t ''access_token'' = Inr a" and "net e (length (calls w)) = Responds resp"
    and "truthy ba"
  shows "setup_link_billing e t p pw ba st w =
     (if status_code resp \<noteq> 200
      then (Inr (billing_failed resp),
            (save_setup_state (dict_set st ''step'' (JStr ''linking_billing'')) w)
              \<lparr>calls := calls w @ [billing_request a p ba]\<rparr>)
      else setup_enable_apis e t p pw (dict_set st ''step'' (JStr ''linking_billing''))
            ((save_setup_state (dict_set st ''step'' (JStr ''linking_billing'')) w)
              \<lparr>calls := calls w @ [billing_request a p ba]\<rparr>))"
proof -
  let ?w1 = "save_setup_state (dict_set st ''step'' (JStr ''linking_billing'')) w"
  have n: "net e (length (calls ?w1)) = Responds resp"
    using assms(2) by simp
  show ?thesis
    unfolding setup_link_billing_def Let_def gcp_api_responds[OF assms(1) n]
    using assms(3) by (simp add: billing_request_def)
qed

lemma run_setup_no_billing_call:
  assumes "run_setup e rj w = (rep, w')" and "\<exists>r\<in>set (new_calls w w'). is_billing_call r"
  shows "\<exists>b. rj = Some (JObj b) \<and> truthy (dict_get b ''billing_account'')"
  using assms(1)
proof (cases rule: run_setup_cases)
  case unauthenticated
  with assms(2) show ?thesis by (simp add: new_calls_def)
next
  case no_body
  with assms(2) show ?thesis by (metis empty_iff list.set(1) new_calls_drawn)
next
  case (bad_body j ex)
  with assms(2) show ?thesis by (metis empty_iff list.set(1) new_calls_drawn)
next
  case (ran j ba p w1 pw w2 res)
  have cw: "calls w2 = calls w"
    using resolve_calls(1)[OF ran(4)] resolve_calls(2)[OF ran(5)] by simp
  have pre: "prefix (calls w) (calls w')"
    using run_setup_ran_props[OF ran(4,5,6)] by (simp add: dict_get_set)
  have "truthy ba"
  proof (rule ccontr)
    assume "\<not> truthy ba"
    then have "billing_calls w' = billing_calls w"
      using setup_create_project_billing[OF ran(6)] cw by (simp add: billing_calls_def)
    with pre assms(2) show False
      using new_calls_billing by blast
  qed
  moreover obtain b where "j = JObj b" "ba = dict_get b ''billing_account''"
    using ran(3) by (cases j) (auto simp: dict_get_def)
  ultimately show ?thesis using ran(2) by simp
qed

lemma run_setup_billing_required:
  assumes "run_setup e rj w = (rep, w')" and "billing_required rep"
  shows "persisted w' ''step'' = JStr ''linking_billing'' \<and>
         (\<exists>resp. rep = billing_failed resp \<and> status_code resp \<noteq> 200 \<and>
                 net e (Suc (length (calls w))) = Responds resp) \<and>
         (\<exists>a p ba. truthy ba \<and> calls w' = calls w @ [create_request a p, billing_request a p ba])"
  using assms(1)
proof (cases rule: run_setup_cases)
  case unauthenticated
  with assms(2) show ?thesis by simp
next
  case no_body
  with assms(2) show ?thesis by simp
next
  case (bad_body j ex)
  with assms(2) show ?thesis by simp
next
  case (ran j ba p w1 pw w2 res)
  have cw: "calls w2 = calls w"
    using resolve_calls(1)[OF ran(4)] resolve_calls(2)[OF ran(5)] by simp
  show ?thesis
  proof (cases res)
    case (Inl ex)
    with ran(7) assms(2) show ?thesis by simp
  next
    case (Inr r)
    with ran(7) have "r = rep" by simp
    with ran(6) Inr have c: "setup_create_project e (get_token w) p pw ba
               (dict_set (dict_set (dict_set (get_setup_state w) ''project_id'' p) ''password'' pw)
                  ''step'' (JStr ''creating_project''))
               (save_setup_state
                  (dict_set (dict_set (dict_set (get_setup_state w) ''project_id'' p) ''password'' pw)
                     ''step'' (JStr ''creating_project'')) w2) = (Inr rep, w')"
      by simp
    from setup_create_project_reply[OF c] assms(2) cw
    obtain a resp where f: "truthy ba" "persisted w' ''step'' = JStr ''linking_billing''"
      "calls w' = calls w @ [create_request a p, billing_request a p ba]"
      "net e (Suc (length (calls w))) = Responds resp" "status_code resp \<noteq> 200"
      "rep = billing_failed resp"
      by (auto simp: create_request_def billing_request_def)
    from f(1,3) have "\<exists>a p ba. truthy ba \<and> calls w' = calls w @ [create_request a p, billing_request a p ba]"
      by blast
    with f(2,4,5,6) show ?thesis by blast
  qed
qed


section \<open>The link-billing step\<close>

text \<open>
  Claim C6. A run of \<^verbatim>\<open>run_setup\<close> issues a request to the billing service only when
  the request body is a JSON object with a non-empty \<^verbatim>\<open>billing_account\<close>. A reply that
  carries the flag \<^verbatim>\<open>billing_required\<close> is produced by the billing step only: it is the
  reply "Failed to link billing" with status 400 for the answer, of a status other than
  200, that the billing request received (the second request of the run, after the
  project creation), and the persisted step is then linking_billing; every other error
  reply of \<^verbatim>\<open>run_setup\<close> lacks the flag. Conversely, when the project creation is answered
  with 200 or 409 and the billing request with any status but 200, the run ends with
  exactly that reply.
\<close>

theorem billing_step:
  "(run_setup e rj w = (rep, w') \<and> (\<exists>r\<in>set (new_calls w w'). is_billing_call r) \<longrightarrow>
      (\<exists>b. rj = Some (JObj b) \<and> truthy (dict_get b ''billing_account''))) \<and>
   (run_setup e rj w = (rep, w') \<and> billing_required rep \<longrightarrow>
      persisted w' ''step'' = JStr ''linking_billing'' \<and>
      (\<exists>resp. rep = billing_failed resp \<and> status_code resp \<noteq> 200 \<and>
              net e (Suc (length (calls w))) = Responds resp) \<and>
      (\<exists>a p ba. truthy ba \<and> calls w' = calls w @ [create_request a p, billing_request a p ba])) \<and>
   (subscript (get_token v) ''access_token'' = Inr a \<and> truthy (dict_get b ''billing_account'') \<and>
      net x (length (calls v)) = Responds r1 \<and> status_code r1 \<in> {200, 409} \<and>
      net x (Suc (length (calls v))) = Responds r2 \<and> status_code r2 \<noteq> 200 \<longrightarrow>
      fst (run_setup x (Some (JObj b)) v) =
        Jsonify [(''error'', JStr (''Failed to link billing: '' @ resp_text r2)),
                 (''billing_required'', JBool True)] 400 \<and>
      billing_required (fst (run_setup x (Some (JObj b)) v)) \<and>
      persisted (snd (run_setup x (Some (JObj b)) v)) ''step'' = JStr ''linking_billing'')"
proof (intro conjI)
  show "run_setup e rj w = (rep, w') \<and> (\<exists>r\<in>set (new_calls w w'). is_billing_call r) \<longrightarrow>
      (\<exists>b. rj = Some (JObj b) \<and> truthy (dict_get b ''billing_account''))"
    using run_setup_no_billing_call[of e rj w rep w'] by blast
next
  show "run_setup e rj w = (rep, w') \<and> billing_required rep \<longrightarrow>
      persisted w' ''step'' = JStr ''linking_billing'' \<and>
      (\<exists>resp. rep = billing_failed resp \<and> status_code resp \<noteq> 200 \<and>
              net e (Suc (length (calls w))) = Responds resp) \<and>
      (\<exists>a p ba. truthy ba \<and> calls w' = calls w @ [create_request a p, billing_request a p ba])"
    using run_setup_billing_required[of e rj w rep w'] by blast
next
  show "subscript (get_token v) ''access_token'' = Inr a \<and> truthy (dict_get b ''billing_account'') \<and>
      net x (length (calls v)) = Responds r1 \<and> status_code r1 \<in> {200, 409} \<and>
      net x (Suc (length (calls v))) = Responds r2 \<and> status_code r2 \<noteq> 200 \<longrightarrow>
      fst (run_setup x (Some (JObj b)) v) =
        Jsonify [(''error'', JStr (''Failed to link billing: '' @ resp_text r2)),
                 (''billing_required'', JBool True)] 400 \<and>
      billing_required (fst (run_setup x (Some (JObj b)) v)) \<and>
      persisted (snd (run_setup x (Some (JObj b)) v)) ''step'' = JStr ''linking_billing''"
  proof (rule impI, elim conjE)
    assume h: "subscript (get_token v) ''access_token'' = Inr a"
      "truthy (dict_get b ''billing_account'')"
      "net x (length (calls v)) = Responds r1" "status_code r1 \<in> {200, 409}"
      "net x (Suc (length (calls v))) = Responds r2" "status_code r2 \<noteq> 200"
    let ?st = "get_setup_state v"
    let ?ba = "dict_get b ''billing_account''"
    obtain p w1 where q1: "resolve_project_id x ?st v = (p, w1)"
      by (cases "resolve_project_id x ?st v")
    obtain pw w2 where q2: "resolve_password x ?st w1 = (pw, w2)"
      by (cases "resolve_password x ?st w1")
    let ?w3 = "save_setup_state (entry_state ?st p pw) w2"
    let ?w4 = "?w3\<lparr>calls := calls ?w3 @ [gcp_request ''POST'' projects_url a
                (JsonBody (JObj [(''projectId'', p), (''name'', JStr ''HA Tunnel'')]))]\<rparr>"
    have cw: "calls w2 = calls v"
      using resolve_calls(1)[OF q1] resolve_calls(2)[OF q2] by simp
    have n1: "net x (length (calls ?w3)) = Responds r1"
      using h(3) cw by simp
    have n2: "net x (length (calls ?w4)) = Responds r2"
      using h(5) cw by simp
    have c: "setup_create_project x (get_token v) p pw ?ba (entry_state ?st p pw) ?w3 =
        setup_link_billing x (get_token v) p pw ?ba (entry_state ?st p pw) ?w4"
      using h(4) by (simp add: setup_create_project_answered[OF h(1) n1])
    have l: "setup_link_billing x (get_token v) p pw ?ba (entry_state ?st p pw) ?w4 =
        (Inr (billing_failed r2),
          (save_setup_state (dict_set (entry_state ?st p pw) ''step'' (JStr ''linking_billing'')) ?w4)
              \<lparr>calls := calls ?w4 @ [billing_request a p ?ba]\<rparr>)"
      unfolding setup_link_billing_answered[OF h(1) n2 h(2)] using h(6) by simp
    have run: "run_setup x (Some (JObj b)) v =
        (billing_failed r2,
          (save_setup_state (dict_set (entry_state ?st p pw) ''step'' (JStr ''linking_billing'')) ?w4)
              \<lparr>calls := calls ?w4 @ [billing_request a p ?ba]\<rparr>)"
      unfolding run_setup_body[OF subscript_truthy[OF h(1)] refl q1 q2] c l by simp
    show "fst (run_setup x (Some (JObj b)) v) =
        Jsonify [(''error'', JStr (''Failed to link billing: '' @ resp_text r2)),
                 (''billing_required'', JBool True)] 400 \<and>
      billing_required (fst (run_setup x (Some (JObj b)) v)) \<and>
      persisted (snd (run_setup x (Some (JObj b)) v)) ''step'' = JStr ''linking_billing''"
      unfolding run
      by (simp add: billing_failed_def billing_required_def persisted_def get_setup_state_def
          save_setup_state_def dict_get_set)
  qed
qed

theorem billing_step_witness:
  "(\<exists>r\<in>set (new_calls completed_world
        (snd (run_setup unbilled_env
           (Some (JObj [(''billing_account'', JStr ''billingAccounts/ABC123'')])) completed_world))).
      is_billing_call r) \<and>
   truthy (dict_get [(''billing_account'', JStr ''billingAccounts/ABC123'')] ''billing_account'') \<and>
   billing_required (fst (run_setup unbilled_env
      (Some (JObj [(''billing_account'', JStr ''billingAccounts/ABC123'')])) completed_world)) \<and>
   fst (run_setup unbilled_env
      (Some (JObj [(''billing_account'', JStr ''billingAccounts/ABC123'')])) completed_world) =
     Jsonify [(''error'', JStr ''Failed to link billing: billing account is closed''),
              (''billing_required'', JBool True)] 400 \<and>
   persisted (snd (run_setup unbilled_env
      (Some (JObj [(''billing_account'', JStr ''billingAccounts/ABC123'')])) completed_world))
     ''step'' = JStr ''linking_billing''"
proof -
  let ?b = "[(''billing_account'', JStr ''billingAccounts/ABC123'')]"
  let ?run = "run_setup unbilled_env (Some (JObj ?b)) completed_world"
  have run: "?run = (fst ?run, snd ?run)"
    by simp
  have h1: "\<exists>r\<in>set (new_calls completed_world (snd ?run)). is_billing_call r"
    by code_simp
  have h2: "billing_required (fst ?run)"
    by code_simp
  have tok: "subscript (get_token completed_world) ''access_token'' = Inr (JStr ''ya29.a0'')"
    by code_simp
  have tr: "truthy (dict_get ?b ''billing_account'')"
    by code_simp
  have n: "net unbilled_env (length (calls completed_world)) = Responds ok_response"
    "status_code ok_response \<in> {200, 409}"
    "net unbilled_env (Suc (length (calls completed_world))) = Responds billing_refusal"
    "status_code billing_refusal \<noteq> 200"
    "resp_text billing_refusal = ''billing account is closed''"
    by (simp_all add: unbilled_env_def example_env_def completed_world_def ok_response_def
        billing_refusal_def)
  have t: "fst ?run =
        Jsonify [(''error'', JStr (''Failed to link billing: '' @ resp_text billing_refusal)),
                 (''billing_required'', JBool True)] 400 \<and>
      billing_required (fst ?run) \<and> persisted (snd ?run) ''step'' = JStr ''linking_billing''"
    using run h1 h2 tok tr n(1-4)
      billing_step[where e = unbilled_env and rj = "Some (JObj ?b)" and w = completed_world
        and rep = "fst ?run" and w' = "snd ?run" and v = completed_world
        and a = "JStr ''ya29.a0''" and b = ?b and x = unbilled_env and ?r1.0 = ok_response
        and ?r2.0 = billing_refusal]
    by blast
  have t1: "fst ?run =
        Jsonify [(''error'', JStr ''Failed to link billing: billing account is closed''),
                 (''billing_required'', JBool True)] 400"
    using t n(5) by simp
  have t2: "persisted (snd ?run) ''step'' = JStr ''linking_billing''"
    using t by blast
  show ?thesis
    using h1 tr h2 t1 t2 by blast
qed

lemma prefix_take_new:
  "prefix (calls w @ ys) (calls w') \<Longrightarrow> take (length ys) (new_calls w w') = ys"
  by (auto simp: prefix_def new_calls_def)

text \<open>The deploy step, when the creation of the service is refused.\<close>

lemma setup_deploy_update:
  assumes "subscript t ''access_token'' = Inr a" and "net e (length (calls w)) = Responds resp"
    and "\<not> deploy_ok resp" and "setup_deploy e t p pw st w = (res, w')"
  shows "take 2 (new_calls w w') = [service_post a p pw, service_put a p pw]"
proof -
  let ?st1 = "dict_set st ''step'' (JStr ''deploying'')"
  let ?w1 = "save_setup_state ?st1 w"
  let ?w2 = "?w1\<lparr>calls := calls w @ [service_post a p pw]\<rparr>"
  have n: "net e (length (calls ?w1)) = Responds resp"
    using assms(2) by simp
  have first: "gcp_api e ''POST'' (services_url p) t (JsonBody (service_config pw)) ?w1 = (Inr resp, ?w2)"
    using gcp_api_responds[OF assms(1) n, of "''POST''" "services_url p" "JsonBody (service_config pw)"]
    by (simp add: service_post_def)
  obtain r3 w3 where second:
    "gcp_api e ''PUT'' (service_put_url p) t (JsonBody (service_config pw)) ?w2 = (r3, w3)"
    by (cases "gcp_api e ''PUT'' (service_put_url p) t (JsonBody (service_config pw)) ?w2")
  have w3: "calls w3 = calls w @ [service_post a p pw, service_put a p pw]"
    using second assms(1) by (auto elim!: gcp_api_cases simp: service_put_def)
  have run: "(case r3 of
        Inl ex \<Rightarrow> (Inl ex, w3)
      | Inr resp2 \<Rightarrow>
          if \<not> deploy_ok resp2 then (Inr (deploy_failed resp2), w3)
          else setup_make_public e t p pw ?st1 w3) = (res, w')"
    using assms(4) assms(3) unfolding setup_deploy_def Let_def
    by (simp add: first second)
  have "prefix (calls w3) (calls w')"
  proof (cases r3)
    case (Inl ex)
    with run show ?thesis by simp
  next
    case (Inr resp2)
    show ?thesis
    proof (cases "deploy_ok resp2")
      case True
      with run Inr have "setup_make_public e t p pw ?st1 w3 = (res, w')" by simp
      then show ?thesis by (auto dest!: setup_make_public_frame simp: frame_def)
    next
      case False
      with run Inr show ?thesis by simp
    qed
  qed
  then show ?thesis
    unfolding w3 using prefix_take_new[of w "[service_post a p pw, service_put a p pw]" w']
    by (simp add: numeral_2_eq_2)
qed

lemma read_service_url_url:
  assumes "read_service_url resp st = Inr st'"
  shows "(status_code resp \<noteq> 200 \<longrightarrow> st' = st) \<and>
         (status_code resp = 200 \<longrightarrow>
            (\<exists>sd s. body_json resp = Inr sd \<and> attr_get sd ''status'' (JObj []) = Inr s \<and>
               attr_get s ''url'' (JStr []) = Inr (dict_get_default st' ''server_url'' (JStr []))))"
  using assms unfolding read_service_url_def
  by (auto split: if_splits sum.splits simp: dict_get_default_set)

text \<open>The end of a run, when the reading of the service gets an answer.\<close>

lemma setup_finish_url:
  assumes "subscript t ''access_token'' = Inr a" and "net e (length (calls w)) = Responds resp"
    and "setup_finish e t p pw st w = (Inr rep, w')"
  shows "(status_code resp \<noteq> 200 \<longrightarrow>
            reply_field rep ''server_url'' = Some (dict_get_default st ''server_url'' (JStr []))) \<and>
         (status_code resp = 200 \<longrightarrow>
            (\<exists>sd s u. body_json resp = Inr sd \<and> attr_get sd ''status'' (JObj []) = Inr s \<and>
               attr_get s ''url'' (JStr []) = Inr u \<and> reply_field rep ''server_url'' = Some u))"
proof -
  let ?w1 = "w\<lparr>calls := calls w @ [gcp_request ''GET'' (service_get_url p) a NoBody]\<rparr>"
  have first: "gcp_api e ''GET'' (service_get_url p) t NoBody w = (Inr resp, ?w1)"
    by (rule gcp_api_responds[OF assms(1,2)])
  from assms(3) obtain st1 where rd: "read_service_url resp st = Inr st1"
    and rep: "rep = success_reply p
         (dict_get_default (dict_set st1 ''step'' (JStr ''complete'')) ''server_url'' (JStr [])) pw"
    unfolding setup_finish_def Let_def first
    by (auto split: sum.splits prod.splits)
  have u: "reply_field rep ''server_url'' = Some (dict_get_default st1 ''server_url'' (JStr []))"
    unfolding rep by (simp add: dict_get_default_set)
  show ?thesis
    using read_service_url_url[OF rd] u by auto
qed


section \<open>A successful run without a server URL\<close>

text \<open>
  The run of the claim: the service exists already, the update is accepted, the reading
  of the service is answered with 404. The run succeeds, the fifth request is the update,
  and the reported \<^verbatim>\<open>server_url\<close> is the empty string.
\<close>

theorem success_with_empty_server_url:
  "reply_status (fst (run_setup redeploy_env (Some (JObj [])) interrupted_world)) = 200 \<and>
   calls (snd (run_setup redeploy_env (Some (JObj [])) interrupted_world)) ! 4 =
     service_put (JStr ''ya29.a0'') (JStr ''ha-tunnel-0a1b2c'') (JStr ''s3cr3t'') \<and>
   reply_field (fst (run_setup redeploy_env (Some (JObj [])) interrupted_world)) ''server_url'' =
     Some (JStr [])"
  by code_simp

text \<open>A run that got past its checks and left the step complete.\<close>

lemma run_setup_complete:
  assumes "run_setup e rj w = (rep, w')" and "truthy (get_token w)" and "rj = Some (JObj b)"
    and "persisted w' ''step'' = JStr ''complete''"
  shows "rep = success_reply (persisted w' ''project_id'')
                 (dict_get_default (get_setup_state w') ''server_url'' (JStr []))
                 (persisted w' ''password'') \<or>
         (\<exists>ex. rep = Jsonify [(''error'', JStr (exn_str ex))] 500 \<and> publisher_raised e w' ex)"
  using assms(1)
proof (cases rule: run_setup_cases)
  case unauthenticated
  with assms(2) show ?thesis by simp
next
  case no_body
  with assms(3) show ?thesis by simp
next
  case (bad_body j ex)
  with assms(3) show ?thesis by simp
next
  case (ran j ba p w1 pw w2 res)
  have props: "persisted w' ''project_id'' = p" "persisted w' ''password'' = pw"
    using run_setup_ran_props[OF ran(4,5,6)] by (simp_all add: dict_get_set)
  have entry: "persisted (save_setup_state
                  (dict_set (dict_set (dict_set (get_setup_state w) ''project_id'' p) ''password'' pw)
                     ''step'' (JStr ''creating_project'')) w2) ''step'' \<noteq> JStr ''complete''"
    by (simp add: persisted_def get_setup_state_def save_setup_state_def dict_get_set)
  from setup_create_project_complete[OF ran(6) entry assms(4)]
  show ?thesis
  proof
    assume "\<exists>r. res = Inr r \<and> succeeded p pw r w'"
    then obtain r where "res = Inr r" "succeeded p pw r w'" by blast
    with ran(7) props show ?thesis
      by (simp add: succeeded_def)
  next
    assume "\<exists>ex. res = Inl ex \<and> publisher_raised e w' ex"
    then obtain ex where "res = Inl ex" "publisher_raised e w' ex" by blast
    with ran(7) show ?thesis by auto
  qed
qed

section \<open>A run that fails in the publisher\<close>

text \<open>
  With a supervisor that cannot be reached, the run leaves the step complete and answers
  with the error of the connection, status 500, instead of the success result.
\<close>

theorem publisher_exception_fails_run:
  "persisted (snd (run_setup unreachable_env (Some (JObj [])) interrupted_world)) ''step'' =
     JStr ''complete'' \<and>
   is_supervisor_call
     (last (calls (snd (run_setup unreachable_env (Some (JObj [])) interrupted_world)))) \<and>
   fst (run_setup unreachable_env (Some (JObj [])) interrupted_world) =
     Jsonify [(''error'', JStr ''Connection refused'')] 500"
  by code_simp

lemma not_supervisor_call [simp]:
  "\<not> is_supervisor_call (gcp_request m projects_url a b)"
  "\<not> is_supervisor_call (gcp_request m (billing_url p) a b)"
  "\<not> is_supervisor_call (gcp_request m (enable_url p api) a b)"
  "\<not> is_supervisor_call (gcp_request m (services_url p) a b)"
  "\<not> is_supervisor_call (gcp_request m (service_put_url p) a b)"
  "\<not> is_supervisor_call (gcp_request m (set_iam_url p) a b)"
  "\<not> is_supervisor_call (gcp_request m (service_get_url p) a b)"
  by (simp_all add: is_supervisor_call_def gcp_request_def projects_url_def enable_url_def
      services_url_def service_put_url_def set_iam_url_def service_get_url_def billing_url_def)

lemma update_addon_config_end:
  assumes "update_addon_config e st w = (res, w')"
  shows "setup_file w' = setup_file w \<and>
         (calls w' = calls w \<and> res = Inr () \<or>
          calls w' \<noteq> [] \<and> is_supervisor_call (last (calls w')) \<and>
          (case net e (length (calls w') - 1) of
             Raises ex \<Rightarrow> res = Inl ex | Responds r \<Rightarrow> res = Inr ()))"
  using assms unfolding update_addon_config_def Let_def
  by (auto split: if_splits prod.splits elim!: requests_request_cases
      simp: is_supervisor_call_def options_request_def restart_request_def)

lemma setup_finish_end:
  assumes "setup_finish e t p pw st w = (res, w')"
  shows "ended_before_publisher w w' \<or> ended_in_publisher e p pw res w'"
  using assms unfolding setup_finish_def Let_def ended_before_publisher_def ended_in_publisher_def
    succeeded_def
  by (auto split: prod.splits sum.splits outcome.splits elim!: gcp_api_cases
      dest!: update_addon_config_end simp: file_defs dict_get_set)


lemma setup_make_public_end:
  assumes "setup_make_public e t p pw st w = (res, w')"
  shows "ended_before_publisher w w' \<or> ended_in_publisher e p pw res w'"
  using assms unfolding setup_make_public_def
  by (auto split: prod.splits sum.splits elim!: gcp_api_cases dest!: setup_finish_end
      simp: ended_before_publisher_def)

lemma setup_deploy_end:
  assumes "setup_deploy e t p pw st w = (res, w')"
  shows "ended_before_publisher w w' \<or> ended_in_publisher e p pw res w'"
  using assms unfolding setup_deploy_def Let_def
  by (auto split: prod.splits sum.splits if_splits elim!: gcp_api_cases dest!: setup_make_public_end
      simp: ended_before_publisher_def)

lemma enable_apis_end:
  "enable_apis e t p as w = (res, w') \<Longrightarrow> ended_before_publisher w w'"
proof (induction as arbitrary: w)
  case Nil
  then show ?case by (simp add: ended_before_publisher_def)
next
  case (Cons a as)
  then show ?case
    by (auto split: prod.splits sum.splits elim!: gcp_api_cases dest!: Cons.IH
        simp: ended_before_publisher_def)
qed

lemma setup_enable_apis_end:
  assumes "setup_enable_apis e t p pw st w = (res, w')"
  shows "ended_before_publisher w w' \<or> ended_in_publisher e p pw res w'"
  using assms unfolding setup_enable_apis_def Let_def
  by (auto split: prod.splits sum.splits dest!: enable_apis_end setup_deploy_end
      simp: ended_before_publisher_def)

lemma setup_link_billing_end:
  assumes "setup_link_billing e t p pw ba st w = (res, w')"
  shows "ended_before_publisher w w' \<or> ended_in_publisher e p pw res w'"
  using assms unfolding setup_link_billing_def Let_def
  by (auto split: prod.splits sum.splits if_splits elim!: gcp_api_cases dest!: setup_enable_apis_end
      simp: ended_before_publisher_def)

lemma setup_create_project_end:
  assumes "setup_create_project e t p pw ba st w = (res, w')"
  shows "ended_before_publisher w w' \<or> ended_in_publisher e p pw res w'"
  using assms unfolding setup_create_project_def
  by (auto split: prod.splits sum.splits if_splits elim!: gcp_api_cases dest!: setup_link_billing_end
      simp: ended_before_publisher_def)

text \<open>A run whose last request is new and went to the supervisor.\<close>

lemma run_setup_publisher:
  assumes "run_setup e rj w = (rep, w')" and "length (calls w) < length (calls w')"
    and "is_supervisor_call (last (calls w'))"
  shows "persisted w' ''step'' = JStr ''complete'' \<and>
         (case net e (length (calls w') - 1) of
            Raises ex \<Rightarrow> rep = Jsonify [(''error'', JStr (exn_str ex))] 500
          | Responds r \<Rightarrow>
              rep = success_reply (persisted w' ''project_id'')
                      (dict_get_default (get_setup_state w') ''server_url'' (JStr []))
                      (persisted w' ''password''))"
  using assms(1)
proof (cases rule: run_setup_cases)
  case unauthenticated
  with assms(2) show ?thesis by simp
next
  case no_body
  then have "calls w' = calls w"
    by (metis world.select_convs(4) world.surjective world.update_convs(5))
  with assms(2) show ?thesis by simp
next
  case (bad_body j ex)
  then have "calls w' = calls w"
    by (metis world.select_convs(4) world.surjective world.update_convs(5))
  with assms(2) show ?thesis by simp
next
  case (ran j ba p w1 pw w2 res)
  have cw: "calls w2 = calls w"
    using resolve_calls(1)[OF ran(4)] resolve_calls(2)[OF ran(5)] by simp
  have props: "persisted w' ''project_id'' = p" "persisted w' ''password'' = pw"
    using run_setup_ran_props[OF ran(4,5,6)] by (simp_all add: dict_get_set)
  from setup_create_project_end[OF ran(6)] assms(2,3) cw
  have "ended_in_publisher e p pw res w'"
    by (auto simp: ended_before_publisher_def)
  then show ?thesis
    using ran(7) props
    by (auto simp: ended_in_publisher_def succeeded_def split: outcome.splits sum.splits)
qed

lemma update_addon_config_failed:
  assumes "update_addon_config e st w = (res, w')"
  shows "setup_file w' = setup_file w \<and> (\<forall>ex. res = Inl ex \<longrightarrow> publisher_failed e w w' ex)"
  using assms unfolding update_addon_config_def Let_def publisher_failed_def publisher_raised_def
  by (auto split: if_splits prod.splits elim!: requests_request_cases
      simp: is_supervisor_call_def options_request_def restart_request_def)

lemma setup_finish_reached:
  assumes "setup_finish e t p pw st w = (res, w')"
    and "persisted w ''step'' \<noteq> JStr ''complete''" and "persisted w' ''step'' = JStr ''complete''"
  shows "(\<exists>rep. res = Inr rep \<and> succeeded p pw rep w') \<or> (\<exists>ex. res = Inl ex \<and> publisher_failed e w w' ex)"
  using assms unfolding setup_finish_def Let_def succeeded_def
  by (auto split: prod.splits sum.splits elim!: gcp_api_cases
      dest!: update_addon_config_failed
      simp: file_defs dict_get_set publisher_failed_def)

lemma setup_make_public_reached:
  assumes "setup_make_public e t p pw st w = (res, w')"
    and "persisted w ''step'' \<noteq> JStr ''complete''" and "persisted w' ''step'' = JStr ''complete''"
  shows "(\<exists>rep. res = Inr rep \<and> succeeded p pw rep w') \<or> (\<exists>ex. res = Inl ex \<and> publisher_failed e w w' ex)"
  using assms unfolding setup_make_public_def
  by (auto split: prod.splits sum.splits elim!: gcp_api_cases
      dest!: setup_finish_reached simp: file_defs publisher_failed_def)

lemma setup_deploy_reached:
  assumes "setup_deploy e t p pw st w = (res, w')"
    and "persisted w' ''step'' = JStr ''complete''"
  shows "(\<exists>rep. res = Inr rep \<and> succeeded p pw rep w') \<or> (\<exists>ex. res = Inl ex \<and> publisher_failed e w w' ex)"
  using assms unfolding setup_deploy_def Let_def
  by (auto split: prod.splits sum.splits if_splits elim!: gcp_api_cases
      dest!: setup_make_public_reached
      simp: file_defs dict_get_set publisher_failed_def)


lemma setup_enable_apis_reached:
  assumes "setup_enable_apis e t p pw st w = (res, w')"
    and "persisted w' ''step'' = JStr ''complete''"
  shows "(\<exists>rep. res = Inr rep \<and> succeeded p pw rep w') \<or> (\<exists>ex. res = Inl ex \<and> publisher_failed e w w' ex)"
  using assms unfolding setup_enable_apis_def Let_def
  by (auto split: prod.splits sum.splits if_splits
      dest!: enable_apis_fields setup_deploy_reached dest: prefix_length_le
      simp: file_defs dict_get_set publisher_failed_def)

lemma setup_link_billing_reached:
  assumes "setup_link_billing e t p pw ba st w = (res, w')"
    and "persisted w' ''step'' = JStr ''complete''"
  shows "(\<exists>rep. res = Inr rep \<and> succeeded p pw rep w') \<or> (\<exists>ex. res = Inl ex \<and> publisher_failed e w w' ex)"
  using assms unfolding setup_link_billing_def Let_def
  by (auto split: prod.splits sum.splits if_splits elim!: gcp_api_cases
      dest!: setup_enable_apis_reached simp: file_defs dict_get_set publisher_failed_def)

lemma setup_create_project_reached:
  assumes "setup_create_project e t p pw ba st w = (res, w')"
    and "persisted w ''step'' \<noteq> JStr ''complete''" and "persisted w' ''step'' = JStr ''complete''"
  shows "(\<exists>rep. res = Inr rep \<and> succeeded p pw rep w') \<or> (\<exists>ex. res = Inl ex \<and> publisher_failed e w w' ex)"
  using assms unfolding setup_create_project_def
  by (auto split: prod.splits sum.splits if_splits elim!: gcp_api_cases
      dest!: setup_link_billing_reached simp: file_defs publisher_failed_def)

text \<open>A run that got past its checks and left the step complete.\<close>

lemma run_setup_reached:
  assumes "run_setup e rj w = (rep, w')" and "truthy (get_token w)" and "rj = Some (JObj b)"
    and "persisted w' ''step'' = JStr ''complete''"
  shows "rep = success_reply (persisted w' ''project_id'')
                 (dict_get_default (get_setup_state w') ''server_url'' (JStr []))
                 (persisted w' ''password'') \<or>
         (\<exists>ex. rep = Jsonify [(''error'', JStr (exn_str ex))] 500 \<and> publisher_failed e w w' ex)"
  using assms(1)
proof (cases rule: run_setup_cases)
  case unauthenticated
  with assms(2) show ?thesis by simp
next
  case no_body
  with assms(3) show ?thesis by simp
next
  case (bad_body j ex)
  with assms(3) show ?thesis by simp
next
  case (ran j ba p w1 pw w2 res)
  have cw: "calls w2 = calls w"
    using resolve_calls(1)[OF ran(4)] resolve_calls(2)[OF ran(5)] by simp
  have props: "persisted w' ''project_id'' = p" "persisted w' ''password'' = pw"
    using run_setup_ran_props[OF ran(4,5,6)] by (simp_all add: dict_get_set)
  have entry: "persisted (save_setup_state
                  (dict_set (dict_set (dict_set (get_setup_state w) ''project_id'' p) ''password'' pw)
                     ''step'' (JStr ''creating_project'')) w2) ''step'' \<noteq> JStr ''complete''"
    by (simp add: persisted_def get_setup_state_def save_setup_state_def dict_get_set)
  from setup_create_project_reached[OF ran(6) entry assms(4)]
  show ?thesis
  proof
    assume "\<exists>r. res = Inr r \<and> succeeded p pw r w'"
    then obtain r where "res = Inr r" "succeeded p pw r w'" by blast
    with ran(7) props show ?thesis
      by (simp add: succeeded_def)
  next
    assume "\<exists>ex. res = Inl ex \<and> publisher_failed e
        (save_setup_state
                  (dict_set (dict_set (dict_set (get_setup_state w) ''project_id'' p) ''password'' pw)
                     ''step'' (JStr ''creating_project'')) w2) w' ex"
    then obtain ex where "res = Inl ex" "publisher_failed e w w' ex"
      using cw by (auto simp: publisher_failed_def)
    with ran(7) show ?thesis by auto
  qed
qed

section \<open>The configuration publisher\<close>

text \<open>
  Claim C8 says that no failure of the publisher, a connection error included, changes
  the success result of \<^verbatim>\<open>run_setup\<close>. The call of \<^verbatim>\<open>update_addon_config\<close> stands inside
  the \<^verbatim>\<open>try\<close> block and catches nothing itself, so an exception of its requests reaches
  the handler of \<^verbatim>\<open>run_setup\<close>. What holds (C8 as amended), in six parts.
  \<^enum> A run that got past its checks and left the persisted step complete answers with the
    success reply (the persisted project id, server URL and password), or else with the
    error reply of status 500 for an exception that the last request of the run, sent to
    the supervisor under a configured supervisor token, has raised.
  \<^enum> Such a run answers with the success reply whenever its last request was answered,
    whatever the status of the answer.
  \<^enum> \<^verbatim>\<open>update_addon_config\<close> never changes the setup file or the token file, so the
    persisted step stays complete whatever the publisher does.
  \<^enum> Every run whose last request is a request of this run to the supervisor that raised
    an exception answers with the error reply of status 500 carrying the text of that
    exception, and has persisted the step complete.
  \<^enum> Every run whose last request is a request of this run to the supervisor that was
    answered, with any status, answers with the success reply and has persisted the step
    complete.
  \<^enum> A run that got past its checks and left the persisted step complete answers with the
    success reply when no supervisor token is configured and the publisher is skipped.
\<close>

theorem publisher_step:
  "(run_setup e rj w = (rep, w') \<and> truthy (get_token w) \<and> rj = Some (JObj b) \<and>
      persisted w' ''step'' = JStr ''complete'' \<longrightarrow>
      rep = success_reply (persisted w' ''project_id'')
              (dict_get_default (get_setup_state w') ''server_url'' (JStr []))
              (persisted w' ''password'') \<or>
      (\<exists>ex. rep = Jsonify [(''error'', JStr (exn_str ex))] 500 \<and> publisher_failed e w w' ex)) \<and>
   (run_setup e rj w = (rep, w') \<and> truthy (get_token w) \<and> rj = Some (JObj b) \<and>
      persisted w' ''step'' = JStr ''complete'' \<and>
      net e (length (calls w') - 1) = Responds resp \<longrightarrow>
      rep = success_reply (persisted w' ''project_id'')
              (dict_get_default (get_setup_state w') ''server_url'' (JStr []))
              (persisted w' ''password'')) \<and>
   (update_addon_config x st u = (res, u') \<longrightarrow>
      setup_file u' = setup_file u \<and> token_file u' = token_file u) \<and>
   (run_setup e rj w = (rep, w') \<and> length (calls w) < length (calls w') \<and>
      publisher_raised e w' exc \<longrightarrow>
      rep = Jsonify [(''error'', JStr (exn_str exc))] 500 \<and>
      persisted w' ''step'' = JStr ''complete'') \<and>
   (run_setup e rj w = (rep, w') \<and> length (calls w) < length (calls w') \<and>
      is_supervisor_call (last (calls w')) \<and> net e (length (calls w') - 1) = Responds resp \<longrightarrow>
      rep = success_reply (persisted w' ''project_id'')
              (dict_get_default (get_setup_state w') ''server_url'' (JStr []))
              (persisted w' ''password'') \<and>
      persisted w' ''step'' = JStr ''complete'') \<and>
   (run_setup e rj w = (rep, w') \<and> truthy (get_token w) \<and> rj = Some (JObj b) \<and>
      persisted w' ''step'' = JStr ''complete'' \<and>
      \<not> truthy (opt_json (map_of (environ e) ''SUPERVISOR_TOKEN'')) \<longrightarrow>
      rep = success_reply (persisted w' ''project_id'')
              (dict_get_default (get_setup_state w') ''server_url'' (JStr []))
              (persisted w' ''password''))"
proof -
  let ?ok = "rep = success_reply (persisted w' ''project_id'')
              (dict_get_default (get_setup_state w') ''server_url'' (JStr []))
              (persisted w' ''password'')"
  have reached: "?ok \<or>
      (\<exists>ex. rep = Jsonify [(''error'', JStr (exn_str ex))] 500 \<and> publisher_failed e w w' ex)"
    if "run_setup e rj w = (rep, w')" "truthy (get_token w)" "rj = Some (JObj b)"
      "persisted w' ''step'' = JStr ''complete''"
    using run_setup_reached[OF that] .
  have answered: ?ok
    if "run_setup e rj w = (rep, w')" "truthy (get_token w)" "rj = Some (JObj b)"
      "persisted w' ''step'' = JStr ''complete''" "net e (length (calls w') - 1) = Responds resp"
    using reached[OF that(1-4)] that(5)
    by (auto simp: publisher_failed_def publisher_raised_def)
  have files: "setup_file u' = setup_file u \<and> token_file u' = token_file u"
    if "update_addon_config x st u = (res, u')"
    using update_addon_config_fields[OF that] by simp
  have raised: "rep = Jsonify [(''error'', JStr (exn_str exc))] 500 \<and>
      persisted w' ''step'' = JStr ''complete''"
    if "run_setup e rj w = (rep, w')" "length (calls w) < length (calls w')"
      "publisher_raised e w' exc"
    using run_setup_publisher[OF that(1,2)] that(3)
    by (simp add: publisher_raised_def)
  have served: "?ok \<and> persisted w' ''step'' = JStr ''complete''"
    if "run_setup e rj w = (rep, w')" "length (calls w) < length (calls w')"
      "is_supervisor_call (last (calls w'))" "net e (length (calls w') - 1) = Responds resp"
    using run_setup_publisher[OF that(1,2,3)] that(4) by simp
  have skipped: ?ok
    if "run_setup e rj w = (rep, w')" "truthy (get_token w)" "rj = Some (JObj b)"
      "persisted w' ''step'' = JStr ''complete''"
      "\<not> truthy (opt_json (map_of (environ e) ''SUPERVISOR_TOKEN''))"
    using reached[OF that(1-4)] that(5)
    by (auto simp: publisher_failed_def)
  show ?thesis
    using reached answered files raised served skipped by blast
qed


theorem publisher_step_witness:
  "persisted (snd (run_setup unwilling_env (Some (JObj [])) interrupted_world)) ''step'' =
     JStr ''complete'' \<and>
   net unwilling_env
     (length (calls (snd (run_setup unwilling_env (Some (JObj [])) interrupted_world))) - 1) =
     Responds not_found \<and>
   is_supervisor_call
     (last (calls (snd (run_setup unwilling_env (Some (JObj [])) interrupted_world)))) \<and>
   fst (run_setup unwilling_env (Some (JObj [])) interrupted_world) =
     success_reply
       (persisted (snd (run_setup unwilling_env (Some (JObj [])) interrupted_world)) ''project_id'')
       (dict_get_default
          (get_setup_state (snd (run_setup unwilling_env (Some (JObj [])) interrupted_world)))
          ''server_url'' (JStr []))
       (persisted (snd (run_setup unwilling_env (Some (JObj [])) interrupted_world)) ''password'') \<and>
   setup_file (snd (update_addon_config unwilling_env (get_setup_state interrupted_world)
      interrupted_world)) = setup_file interrupted_world \<and>
   publisher_raised unreachable_env
     (snd (run_setup unreachable_env (Some (JObj [])) interrupted_world))
     (RequestException ''Connection refused'') \<and>
   fst (run_setup unreachable_env (Some (JObj [])) interrupted_world) =
     Jsonify [(''error'', JStr (exn_str (RequestException ''Connection refused'')))] 500 \<and>
   persisted (snd (run_setup unreachable_env (Some (JObj [])) interrupted_world)) ''step'' =
     JStr ''complete'' \<and>
   \<not> truthy (opt_json (map_of (environ example_env) ''SUPERVISOR_TOKEN'')) \<and>
   fst (run_setup example_env (Some (JObj [])) interrupted_world) =
     success_reply
       (persisted (snd (run_setup example_env (Some (JObj [])) interrupted_world)) ''project_id'')
       (dict_get_default
          (get_setup_state (snd (run_setup example_env (Some (JObj [])) interrupted_world)))
          ''server_url'' (JStr []))
       (persisted (snd (run_setup example_env (Some (JObj [])) interrupted_world)) ''password'')"
proof -
  let ?run = "run_setup unwilling_env (Some (JObj [])) interrupted_world"
  let ?bad = "run_setup unreachable_env (Some (JObj [])) interrupted_world"
  let ?skp = "run_setup example_env (Some (JObj [])) interrupted_world"
  let ?upd = "update_addon_config unwilling_env (get_setup_state interrupted_world) interrupted_world"
  let ?exc = "RequestException ''Connection refused''"
  have run: "?run = (fst ?run, snd ?run)" and bad: "?bad = (fst ?bad, snd ?bad)"
    and skp: "?skp = (fst ?skp, snd ?skp)" and upd: "?upd = (fst ?upd, snd ?upd)"
    by simp_all
  have tok: "truthy (get_token interrupted_world)"
    by code_simp
  have fin: "persisted (snd ?run) ''step'' = JStr ''complete''"
    by code_simp
  have lst: "net unwilling_env (length (calls (snd ?run)) - 1) = Responds not_found"
    by code_simp
  have new: "length (calls interrupted_world) < length (calls (snd ?run))"
    by code_simp
  have sup: "is_supervisor_call (last (calls (snd ?run)))"
    by code_simp
  have new': "length (calls interrupted_world) < length (calls (snd ?bad))"
    by code_simp
  have rsd: "publisher_raised unreachable_env (snd ?bad) ?exc"
    by code_simp
  have fin'': "persisted (snd ?skp) ''step'' = JStr ''complete''"
    by code_simp
  have nosup: "\<not> truthy (opt_json (map_of (environ example_env) ''SUPERVISOR_TOKEN''))"
    by code_simp
  note T1 = publisher_step[where e = unwilling_env and rj = "Some (JObj [])"
      and w = interrupted_world and rep = "fst ?run" and w' = "snd ?run" and b = "[]"
      and resp = not_found and x = unwilling_env and st = "get_setup_state interrupted_world"
      and u = interrupted_world and res = "fst ?upd" and u' = "snd ?upd"]
  note T2 = publisher_step[where e = unreachable_env and rj = "Some (JObj [])"
      and w = interrupted_world and rep = "fst ?bad" and w' = "snd ?bad" and exc = ?exc]
  note T3 = publisher_step[where e = example_env and rj = "Some (JObj [])"
      and w = interrupted_world and rep = "fst ?skp" and w' = "snd ?skp" and b = "[]"]
  have c1: "fst ?run = success_reply (persisted (snd ?run) ''project_id'')
       (dict_get_default (get_setup_state (snd ?run)) ''server_url'' (JStr []))
       (persisted (snd ?run) ''password'')"
    using T1 run tok fin lst new sup by blast
  have c2: "setup_file (snd ?upd) = setup_file interrupted_world"
    using T1 upd by blast
  have c3: "fst ?bad = Jsonify [(''error'', JStr (exn_str ?exc))] 500 \<and>
      persisted (snd ?bad) ''step'' = JStr ''complete''"
    using T2 bad new' rsd by blast
  have c4: "fst ?skp = success_reply (persisted (snd ?skp) ''project_id'')
       (dict_get_default (get_setup_state (snd ?skp)) ''server_url'' (JStr []))
       (persisted (snd ?skp) ''password'')"
    using T3 skp tok fin'' nosup by blast
  show ?thesis
    using fin lst sup c1 c2 rsd c3 nosup c4 by blast
qed

lemma prefix_nth: "prefix xs ys \<Longrightarrow> i < length xs \<Longrightarrow> ys ! i = xs ! i"
  by (auto simp: prefix_def nth_append)

lemma service_read_mono:
  "service_read e p st rep k' w' \<Longrightarrow> k \<le> k' \<Longrightarrow> service_read e p st rep k w'"
  unfolding service_read_def by (meson le_trans)

lemma service_read_Suc: "service_read e p st rep (Suc k) w' \<Longrightarrow> service_read e p st rep k w'"
  by (erule service_read_mono) simp

lemma service_read_Suc2:
  "service_read e p st rep (Suc (Suc k)) w' \<Longrightarrow> service_read e p st rep k w'"
  by (erule service_read_mono) simp

lemma service_read_step [simp]:
  "service_read e p (dict_set st ''step'' x) rep k w' = service_read e p st rep k w'"
  by (simp add: service_read_def url_reported_def dict_get_default_set)

lemma setup_finish_read:
  assumes "setup_finish e t p pw st w = (Inr rep, w')"
  shows "service_read e p st rep (length (calls w)) w'"
proof -
  obtain r1 w1 where g: "gcp_api e ''GET'' (service_get_url p) t NoBody w = (r1, w1)"
    by (cases "gcp_api e ''GET'' (service_get_url p) t NoBody w")
  from assms obtain resp where r1: "r1 = Inr resp"
    unfolding setup_finish_def Let_def g by (cases r1) auto
  from g r1 obtain a where a: "subscript t ''access_token'' = Inr a"
    and n: "net e (length (calls w)) = Responds resp"
    and w1: "w1 = w\<lparr>calls := calls w @ [service_get a p]\<rparr>"
    by (auto elim!: gcp_api_cases simp: service_get_def)
  have url: "url_reported resp st rep"
    using setup_finish_url[OF a n assms] by (simp add: url_reported_def)
  from assms obtain st1 u where
    "update_addon_config e (dict_set st1 ''step'' (JStr ''complete''))
       (save_setup_state (dict_set st1 ''step'' (JStr ''complete'')) w1) = (Inr u, w')"
    unfolding setup_finish_def Let_def g r1
    by (auto split: sum.splits prod.splits)
  then have "prefix (calls w1) (calls w')"
    by (auto dest!: update_addon_config_fields)
  then have pre: "prefix (calls w @ [service_get a p]) (calls w')"
    by (simp add: w1)
  have "length (calls w) < length (calls w')"
    using prefix_length_le[OF pre] by simp
  moreover have "calls w' ! length (calls w) = service_get a p"
    using prefix_nth[OF pre, of "length (calls w)"] by simp
  ultimately show ?thesis
    unfolding service_read_def using n url by blast
qed

lemma setup_make_public_read:
  assumes "setup_make_public e t p pw st w = (Inr rep, w')"
  shows "service_read e p st rep (length (calls w)) w'"
  using assms unfolding setup_make_public_def
  by (auto split: prod.splits sum.splits elim!: gcp_api_cases dest!: setup_finish_read
      dest: service_read_Suc)

lemma setup_deploy_read:
  assumes "setup_deploy e t p pw st w = (Inr rep, w')" and "reply_status rep = 200"
  shows "service_read e p st rep (length (calls w)) w'"
  using assms unfolding setup_deploy_def Let_def
  by (auto split: prod.splits sum.splits if_splits elim!: gcp_api_cases
      dest!: setup_make_public_read dest: service_read_Suc service_read_Suc2)


lemma setup_enable_apis_read:
  assumes "setup_enable_apis e t p pw st w = (Inr rep, w')" and "reply_status rep = 200"
  shows "service_read e p st rep (length (calls w)) w'"
proof -
  let ?st1 = "dict_set st ''step'' (JStr ''enabling_apis'')"
  obtain r2 w2 where en: "enable_apis e t p apis (save_setup_state ?st1 w) = (r2, w2)"
    by (cases "enable_apis e t p apis (save_setup_state ?st1 w)")
  have len: "length (calls w) \<le> length (calls w2)"
    using enable_apis_length[OF en] by simp
  from assms(1) have "setup_deploy e t p pw ?st1 (w2\<lparr>slept := slept w2 + 5\<rparr>) = (Inr rep, w')"
    unfolding setup_enable_apis_def Let_def en by (cases r2) auto
  then have "service_read e p ?st1 rep (length (calls (w2\<lparr>slept := slept w2 + 5\<rparr>))) w'"
    using assms(2) by (rule setup_deploy_read)
  then have "service_read e p st rep (length (calls w2)) w'"
    by simp
  then show ?thesis
    using len by (rule service_read_mono)
qed

lemma setup_link_billing_read:
  assumes "setup_link_billing e t p pw ba st w = (Inr rep, w')" and "reply_status rep = 200"
  shows "service_read e p st rep (length (calls w)) w'"
  using assms unfolding setup_link_billing_def Let_def
  by (auto split: prod.splits sum.splits if_splits elim!: gcp_api_cases
      dest!: setup_enable_apis_read dest: service_read_Suc)

lemma setup_create_project_read:
  assumes "setup_create_project e t p pw ba st w = (Inr rep, w')" and "reply_status rep = 200"
  shows "service_read e p st rep (length (calls w)) w'"
  using assms unfolding setup_create_project_def
  by (auto split: prod.splits sum.splits if_splits elim!: gcp_api_cases
      dest!: setup_link_billing_read dest: service_read_Suc)

text \<open>A successful run has read the service, and reports what the answer determines.\<close>

lemma run_setup_read:
  assumes "run_setup e rj w = (rep, w')" and "reply_status rep = 200"
  shows "service_read e (persisted w' ''project_id'') (get_setup_state w) rep (length (calls w)) w'"
  using assms(1)
proof (cases rule: run_setup_cases)
  case unauthenticated
  with assms(2) show ?thesis by (simp add: reply_status_def)
next
  case no_body
  with assms(2) show ?thesis by (simp add: reply_status_def)
next
  case (bad_body j ex)
  with assms(2) show ?thesis by (simp add: reply_status_def)
next
  case (ran j ba p w1 pw w2 res)
  let ?st = "dict_set (dict_set (dict_set (get_setup_state w) ''project_id'' p) ''password'' pw)
                  ''step'' (JStr ''creating_project'')"
  have cw: "calls w2 = calls w"
    using resolve_calls(1)[OF ran(4)] resolve_calls(2)[OF ran(5)] by simp
  have props: "persisted w' ''project_id'' = p"
    using run_setup_ran_props[OF ran(4,5,6)] by (simp add: dict_get_set)
  from ran(7) assms(2) obtain r where res: "res = Inr r" and r: "r = rep"
    by (cases res) (auto simp: reply_status_def)
  have "service_read e p ?st rep (length (calls (save_setup_state ?st w2))) w'"
    using setup_create_project_read[of e "get_token w" p pw ba ?st "save_setup_state ?st w2" rep w']
      ran(6) res r assms(2) by simp
  then have "service_read e p (get_setup_state w) rep (length (calls w)) w'"
    by (simp add: cw service_read_def url_reported_def dict_get_default_set)
  with props show ?thesis by simp
qed

lemma service_put_update: "service_put a p pw = update_of (service_post a p pw)"
  by (simp add: service_put_def service_post_def update_of_def gcp_request_def
      service_put_url_def services_url_def)

lemma not_service_post [simp]:
  "\<not> is_service_post (gcp_request m projects_url a b)"
  "\<not> is_service_post (gcp_request m (billing_url p) a b)"
  "\<not> is_service_post (gcp_request m (enable_url p api) a b)"
  "\<not> is_service_post (gcp_request m (set_iam_url p) a b)"
  "\<not> is_service_post (gcp_request m (service_get_url p) a b)"
  "\<not> is_service_post (service_put a p pw)"
  "\<not> is_service_post (options_request tok cfg)"
  "\<not> is_service_post (restart_request tok)"
  by (simp_all add: is_service_post_def gcp_request_def projects_url_def enable_url_def
      set_iam_url_def service_get_url_def billing_url_def service_put_def options_request_def
      restart_request_def)

lemma update_follows_none [simp]: "update_follows e (length cs) cs"
  by (auto simp: update_follows_def)

lemma update_follows_snoc [simp]:
  "update_follows e (length cs) (cs @ [r]) \<longleftrightarrow> \<not> (is_service_post r \<and> refused e (length cs))"
  by (auto simp: update_follows_def nth_append le_less_Suc_eq)

lemma update_follows_after:
  assumes "prefix (cs @ [r]) cs'" and "update_follows e (Suc (length cs)) cs'"
    and "\<not> (is_service_post r \<and> refused e (length cs))"
  shows "update_follows e (length cs) cs'"
  unfolding update_follows_def
proof (intro allI impI)
  fix i
  assume h: "length cs \<le> i \<and> i < length cs' \<and> is_service_post (cs' ! i) \<and> refused e i"
  have r: "cs' ! length cs = r"
    using prefix_nth[OF assms(1), of "length cs"] by simp
  show "Suc i < length cs' \<and> cs' ! Suc i = update_of (cs' ! i)"
  proof (cases "i = length cs")
    case True
    with h r assms(3) show ?thesis by simp
  next
    case False
    with h have "Suc (length cs) \<le> i" by simp
    with h assms(2) show ?thesis by (simp add: update_follows_def)
  qed
qed

lemma update_follows_updated:
  assumes "prefix (cs @ [r, update_of r]) cs'" and "update_follows e (Suc (Suc (length cs))) cs'"
    and "\<not> is_service_post (update_of r)"
  shows "update_follows e (length cs) cs'"
  unfolding update_follows_def
proof (intro allI impI)
  fix i
  assume h: "length cs \<le> i \<and> i < length cs' \<and> is_service_post (cs' ! i) \<and> refused e i"
  have r: "cs' ! length cs = r" "cs' ! Suc (length cs) = update_of r"
    using prefix_nth[OF assms(1), of "length cs"] prefix_nth[OF assms(1), of "Suc (length cs)"]
    by (simp_all add: nth_append)
  have len: "Suc (length cs) < length cs'"
    using prefix_length_le[OF assms(1)] by simp
  consider "i = length cs" | "i = Suc (length cs)" | "Suc (Suc (length cs)) \<le> i"
    using h by linarith
  then show "Suc i < length cs' \<and> cs' ! Suc i = update_of (cs' ! i)"
  proof cases
    case 1
    with r len show ?thesis by simp
  next
    case 2
    with h r assms(3) show ?thesis by simp
  next
    case 3
    with h assms(2) show ?thesis by (simp add: update_follows_def)
  qed
qed

lemma update_follows_two:
  assumes "\<not> is_service_post r" and "\<not> is_service_post r'"
  shows "update_follows e (length cs) (cs @ [r, r'])"
proof -
  have "update_follows e (length (cs @ [r])) ((cs @ [r]) @ [r'])"
    using assms(2) by (subst update_follows_snoc) simp
  then have "update_follows e (Suc (length cs)) (cs @ [r, r'])"
    by simp
  moreover have "prefix (cs @ [r]) (cs @ [r, r'])"
    by simp
  ultimately show ?thesis
    using assms(1) by (intro update_follows_after[of cs r]) simp_all
qed

lemma update_addon_config_follows:
  assumes "update_addon_config e st w = (res, w')"
  shows "prefix (calls w) (calls w') \<and> update_follows e (length (calls w)) (calls w')"
  using assms unfolding update_addon_config_def Let_def
  by (auto split: if_splits prod.splits elim!: requests_request_cases
      intro!: update_follows_two)


lemma setup_finish_follows:
  assumes "setup_finish e t p pw st w = (res, w')"
  shows "prefix (calls w) (calls w') \<and> update_follows e (length (calls w)) (calls w')"
  using assms unfolding setup_finish_def Let_def
  by (auto split: prod.splits sum.splits elim!: gcp_api_cases
      dest!: update_addon_config_follows dest: append_prefixD intro: update_follows_after)

lemma setup_make_public_follows:
  assumes "setup_make_public e t p pw st w = (res, w')"
  shows "prefix (calls w) (calls w') \<and> update_follows e (length (calls w)) (calls w')"
  using assms unfolding setup_make_public_def
  by (auto split: prod.splits sum.splits elim!: gcp_api_cases
      dest!: setup_finish_follows dest: append_prefixD intro: update_follows_after)


lemma put_is_update:
  "gcp_request ''PUT'' (service_put_url p) a b = update_of (gcp_request ''POST'' (services_url p) a b)"
  by (simp add: update_of_def gcp_request_def service_put_url_def services_url_def)

lemma update_not_post [simp]: "\<not> is_service_post (update_of r)"
  by (simp add: is_service_post_def update_of_def)

lemma update_follows_pair:
  "update_follows e (length cs) (cs @ [r, update_of r])"
  using update_follows_updated[of cs r "cs @ [r, update_of r]" e]
    update_follows_none[of e "cs @ [r, update_of r]"] by simp

lemma setup_deploy_follows:
  assumes "setup_deploy e t p pw st w = (res, w')"
  shows "prefix (calls w) (calls w') \<and> update_follows e (length (calls w)) (calls w')"
proof -
  let ?st1 = "dict_set st ''step'' (JStr ''deploying'')"
  let ?w1 = "save_setup_state ?st1 w"
  let ?b = "JsonBody (service_config pw)"
  obtain r1 w2 where g1: "gcp_api e ''POST'' (services_url p) t ?b ?w1 = (r1, w2)"
    by (cases "gcp_api e ''POST'' (services_url p) t ?b ?w1")
  from g1 show ?thesis
  proof (cases rule: gcp_api_cases)
    case (no_token ex)
    have "w' = ?w1"
      using assms g1 no_token by (simp add: setup_deploy_def Let_def)
    then show ?thesis by simp
  next
    case (raises a ex)
    have "w' = ?w1\<lparr>calls := calls ?w1 @ [gcp_request ''POST'' (services_url p) a ?b]\<rparr>"
      using assms g1 raises by (simp add: setup_deploy_def Let_def)
    then show ?thesis
      using raises(3) by (simp add: refused_def)
  next
    case (responds a resp)
    let ?post = "gcp_request ''POST'' (services_url p) a ?b"
    have c2: "calls w2 = calls w @ [?post]"
      using responds(4) by simp
    show ?thesis
    proof (cases "deploy_ok resp")
      case True
      with assms g1 responds(1) have "setup_make_public e t p pw ?st1 w2 = (res, w')"
        by (simp add: setup_deploy_def Let_def)
      from setup_make_public_follows[OF this]
      have pre: "prefix (calls w @ [?post]) (calls w')"
        and fol: "update_follows e (Suc (length (calls w))) (calls w')"
        by (simp_all add: c2)
      have "\<not> refused e (length (calls w))"
        using responds(3) True by (simp add: refused_def deploy_ok_def)
      then show ?thesis
        using update_follows_after[OF pre fol] append_prefixD[OF pre] by simp
    next
      case False
      obtain r3 w3 where g2: "gcp_api e ''PUT'' (service_put_url p) t ?b w2 = (r3, w3)"
        by (cases "gcp_api e ''PUT'' (service_put_url p) t ?b w2")
      have c3: "calls w3 = calls w @ [?post, update_of ?post]"
        using g2 responds(2) c2 by (auto elim!: gcp_api_cases simp: put_is_update)
      have run: "(case r3 of
            Inl ex \<Rightarrow> (Inl ex, w3)
          | Inr resp2 \<Rightarrow>
              if \<not> deploy_ok resp2 then (Inr (deploy_failed resp2), w3)
              else setup_make_public e t p pw ?st1 w3) = (res, w')"
        using assms False unfolding setup_deploy_def Let_def
        by (simp add: g1 responds(1) g2)
      have "prefix (calls w3) (calls w') \<and> update_follows e (length (calls w3)) (calls w')"
      proof (cases r3)
        case (Inl ex)
        with run show ?thesis by auto
      next
        case (Inr resp2)
        show ?thesis
        proof (cases "deploy_ok resp2")
          case True
          with run Inr have "setup_make_public e t p pw ?st1 w3 = (res, w')" by simp
          then show ?thesis by (rule setup_make_public_follows)
        next
          case False
          with run Inr show ?thesis by auto
        qed
      qed
      then have pre: "prefix (calls w @ [?post, update_of ?post]) (calls w')"
        and fol: "update_follows e (Suc (Suc (length (calls w)))) (calls w')"
        by (simp_all add: c3)
      have "prefix (calls w) (calls w')"
        using append_prefixD[OF pre] .
      then show ?thesis
        using update_follows_updated[OF pre fol] by simp
    qed
  qed
qed


lemma update_follows_after2:
  assumes "prefix (cs @ [r1, r2]) cs'" and "update_follows e (Suc (Suc (length cs))) cs'"
    and "\<not> is_service_post r1" and "\<not> is_service_post r2"
  shows "update_follows e (length cs) cs'"
proof -
  have p2: "prefix ((cs @ [r1]) @ [r2]) cs'"
    using assms(1) by simp
  have "update_follows e (length (cs @ [r1])) cs'"
    using update_follows_after[OF p2] assms(2,4) by simp
  then have f1: "update_follows e (Suc (length cs)) cs'"
    by simp
  have p1: "prefix (cs @ [r1]) cs'"
    using append_prefixD[OF p2] .
  show ?thesis
    using update_follows_after[OF p1 f1] assms(3) by simp
qed

lemma setup_enable_apis_follows:
  assumes "setup_enable_apis e t p pw st w = (res, w')"
  shows "prefix (calls w) (calls w') \<and> update_follows e (length (calls w)) (calls w')"
  using assms unfolding setup_enable_apis_def Let_def apis_def
  by (auto split: prod.splits sum.splits elim!: gcp_api_cases
      dest!: setup_deploy_follows dest: append_prefixD
      intro!: update_follows_two intro: update_follows_after2)

lemma setup_link_billing_follows:
  assumes "setup_link_billing e t p pw ba st w = (res, w')"
  shows "prefix (calls w) (calls w') \<and> update_follows e (length (calls w)) (calls w')"
  using assms unfolding setup_link_billing_def Let_def
  by (auto split: prod.splits sum.splits if_splits elim!: gcp_api_cases
      dest!: setup_enable_apis_follows dest: append_prefixD intro: update_follows_after)

lemma setup_create_project_follows:
  assumes "setup_create_project e t p pw ba st w = (res, w')"
  shows "prefix (calls w) (calls w') \<and> update_follows e (length (calls w)) (calls w')"
  using assms unfolding setup_create_project_def
  by (auto split: prod.splits sum.splits if_splits elim!: gcp_api_cases
      dest!: setup_link_billing_follows dest: append_prefixD intro: update_follows_after)

text \<open>In every run, a refused creation of the service is followed by its update.\<close>

lemma run_setup_follows:
  assumes "run_setup e rj w = (rep, w')"
  shows "update_follows e (length (calls w)) (calls w')"
  using assms
proof (cases rule: run_setup_cases)
  case unauthenticated
  then show ?thesis by simp
next
  case no_body
  then have "calls w' = calls w"
    by (metis world.select_convs(4) world.surjective world.update_convs(5))
  then show ?thesis by simp
next
  case (bad_body j ex)
  then have "calls w' = calls w"
    by (metis world.select_convs(4) world.surjective world.update_convs(5))
  then show ?thesis by simp
next
  case (ran j ba p w1 pw w2 res)
  have cw: "calls w2 = calls w"
    using resolve_calls(1)[OF ran(4)] resolve_calls(2)[OF ran(5)] by simp
  show ?thesis
    using setup_create_project_follows[OF ran(6)] cw by simp
qed

section \<open>The deploy step\<close>

text \<open>
  Claim C7 says that a run which succeeds after the service was found to exist reports a
  non-empty \<^verbatim>\<open>server_url\<close>. The program writes \<^verbatim>\<open>server_url\<close> only when the reading
  of the service is answered with status 200, and takes the empty string when the answer
  has no URL. What holds (C7 as amended), in five parts.
  \<^enum> In the deploy step, when the creation of the service is answered with any status
    other than 200 and 201 (409 among them), the next two requests of the step are the
    creation and the update, with the same service descriptor.
  \<^enum> In every run of \<^verbatim>\<open>run_setup\<close>, a creation of the service that the run issued and
    that was answered with a status other than 200 and 201 is followed at once by its
    update: the same request, headers and descriptor included, sent with \<^verbatim>\<open>PUT\<close> to the
    service itself.
  \<^enum> Whenever \<^verbatim>\<open>run_setup\<close> succeeds, the persisted step is complete and the reported
    \<^verbatim>\<open>server_url\<close> is the persisted one, the empty string if there is none.
  \<^enum> Whenever \<^verbatim>\<open>run_setup\<close> succeeds, the run has issued the reading of the service of
    the persisted project and got an answer to it; if the status of the answer is not
    200, the reported \<^verbatim>\<open>server_url\<close> is the one persisted before the run (the empty
    string if there was none), and if it is 200, the reported \<^verbatim>\<open>server_url\<close> is the
    \<^verbatim>\<open>url\<close> under \<^verbatim>\<open>status\<close> of the answer (the empty string if the answer has none).
  \<^enum> The same holds of the last part of the run alone, for the state it is given.
\<close>

theorem deploy_step:
  "(subscript t ''access_token'' = Inr a \<and> net e (length (calls w)) = Responds resp \<and>
      status_code resp \<notin> {200, 201} \<and> setup_deploy e t p pw st w = (res, w') \<longrightarrow>
      take 2 (new_calls w w') = [service_post a p pw, service_put a p pw] \<and>
      payload (service_put a p pw) = payload (service_post a p pw)) \<and>
   (run_setup x rj v = (rep, v') \<and> length (calls v) \<le> i \<and> i < length (calls v') \<and>
      is_service_post (calls v' ! i) \<and> net x i = Responds r0 \<and>
      status_code r0 \<notin> {200, 201} \<longrightarrow>
      Suc i < length (calls v') \<and> calls v' ! Suc i = update_of (calls v' ! i) \<and>
      meth (calls v' ! Suc i) = ''PUT'' \<and> headers (calls v' ! Suc i) = headers (calls v' ! i) \<and>
      payload (calls v' ! Suc i) = payload (calls v' ! i)) \<and>
   (run_setup x rj v = (rep, v') \<and> reply_status rep = 200 \<longrightarrow>
      persisted v' ''step'' = JStr ''complete'' \<and>
      reply_field rep ''server_url'' =
        Some (dict_get_default (get_setup_state v') ''server_url'' (JStr []))) \<and>
   (run_setup x rj v = (rep, v') \<and> reply_status rep = 200 \<longrightarrow>
      (\<exists>j tok ans. length (calls v) \<le> j \<and> j < length (calls v') \<and>
         calls v' ! j = service_get tok (persisted v' ''project_id'') \<and>
         net x j = Responds ans \<and>
         (status_code ans \<noteq> 200 \<longrightarrow>
            reply_field rep ''server_url'' =
              Some (dict_get_default (get_setup_state v) ''server_url'' (JStr []))) \<and>
         (status_code ans = 200 \<longrightarrow>
            (\<exists>sd s url. body_json ans = Inr sd \<and> attr_get sd ''status'' (JObj []) = Inr s \<and>
               attr_get s ''url'' (JStr []) = Inr url \<and>
               reply_field rep ''server_url'' = Some url)))) \<and>
   (subscript t2 ''access_token'' = Inr a2 \<and> net e2 (length (calls u)) = Responds r \<and>
      setup_finish e2 t2 p2 pw2 st2 u = (Inr rep2, u') \<longrightarrow>
      (status_code r \<noteq> 200 \<longrightarrow>
         reply_field rep2 ''server_url'' = Some (dict_get_default st2 ''server_url'' (JStr []))) \<and>
      (status_code r = 200 \<longrightarrow>
         (\<exists>sd s url. body_json r = Inr sd \<and> attr_get sd ''status'' (JObj []) = Inr s \<and>
            attr_get s ''url'' (JStr []) = Inr url \<and> reply_field rep2 ''server_url'' = Some url)))"
proof -
  have part1: "take 2 (new_calls w w') = [service_post a p pw, service_put a p pw] \<and>
      payload (service_put a p pw) = payload (service_post a p pw)"
    if "subscript t ''access_token'' = Inr a" "net e (length (calls w)) = Responds resp"
      "status_code resp \<notin> {200, 201}" "setup_deploy e t p pw st w = (res, w')"
  proof -
    have "\<not> deploy_ok resp"
      using that(3) by (simp add: deploy_ok_def)
    from setup_deploy_update[OF that(1,2) this that(4)] show ?thesis
      by (simp add: service_put_def service_post_def gcp_request_def)
  qed
  have part2: "Suc i < length (calls v') \<and> calls v' ! Suc i = update_of (calls v' ! i) \<and>
      meth (calls v' ! Suc i) = ''PUT'' \<and> headers (calls v' ! Suc i) = headers (calls v' ! i) \<and>
      payload (calls v' ! Suc i) = payload (calls v' ! i)"
    if "run_setup x rj v = (rep, v')" "length (calls v) \<le> i" "i < length (calls v')"
      "is_service_post (calls v' ! i)" "net x i = Responds r0" "status_code r0 \<notin> {200, 201}"
  proof -
    have "refused x i"
      using that(5,6) by (simp add: refused_def)
    with run_setup_follows[OF that(1)] that(2,3,4)
    have "Suc i < length (calls v') \<and> calls v' ! Suc i = update_of (calls v' ! i)"
      by (simp add: update_follows_def)
    then show ?thesis
      by (simp add: update_of_def)
  qed
  have part3: "persisted v' ''step'' = JStr ''complete'' \<and>
      reply_field rep ''server_url'' =
        Some (dict_get_default (get_setup_state v') ''server_url'' (JStr []))"
    if "run_setup x rj v = (rep, v')" "reply_status rep = 200"
  proof -
    from run_setup_success[OF that]
    have s: "rep = success_reply (persisted v' ''project_id'')
                 (dict_get_default (get_setup_state v') ''server_url'' (JStr []))
                 (persisted v' ''password'')"
      and c: "persisted v' ''step'' = JStr ''complete''"
      by simp_all
    from s have "reply_field rep ''server_url'' =
        Some (dict_get_default (get_setup_state v') ''server_url'' (JStr []))"
      by (metis reply_field_success(2))
    with c show ?thesis by simp
  qed
  have part4: "\<exists>j tok ans. length (calls v) \<le> j \<and> j < length (calls v') \<and>
         calls v' ! j = service_get tok (persisted v' ''project_id'') \<and>
         net x j = Responds ans \<and>
         (status_code ans \<noteq> 200 \<longrightarrow>
            reply_field rep ''server_url'' =
              Some (dict_get_default (get_setup_state v) ''server_url'' (JStr []))) \<and>
         (status_code ans = 200 \<longrightarrow>
            (\<exists>sd s url. body_json ans = Inr sd \<and> attr_get sd ''status'' (JObj []) = Inr s \<and>
               attr_get s ''url'' (JStr []) = Inr url \<and>
               reply_field rep ''server_url'' = Some url))"
    if "run_setup x rj v = (rep, v')" "reply_status rep = 200"
    using run_setup_read[OF that] unfolding service_read_def url_reported_def by blast
  have part5: "(status_code r \<noteq> 200 \<longrightarrow>
         reply_field rep2 ''server_url'' = Some (dict_get_default st2 ''server_url'' (JStr []))) \<and>
      (status_code r = 200 \<longrightarrow>
         (\<exists>sd s url. body_json r = Inr sd \<and> attr_get sd ''status'' (JObj []) = Inr s \<and>
            attr_get s ''url'' (JStr []) = Inr url \<and> reply_field rep2 ''server_url'' = Some url))"
    if "subscript t2 ''access_token'' = Inr a2" "net e2 (length (calls u)) = Responds r"
      "setup_finish e2 t2 p2 pw2 st2 u = (Inr rep2, u')"
    using setup_finish_url[OF that] .
  show ?thesis
    using part1 part2 part3 part4 part5 by blast
qed


theorem deploy_step_witness:
  "take 2 (new_calls interrupted_world
      (snd (setup_deploy conflict_env (get_token interrupted_world) (JStr ''ha-tunnel-0a1b2c'')
         (JStr ''s3cr3t'') (get_setup_state interrupted_world) interrupted_world))) =
     [service_post (JStr ''ya29.a0'') (JStr ''ha-tunnel-0a1b2c'') (JStr ''s3cr3t''),
      service_put (JStr ''ya29.a0'') (JStr ''ha-tunnel-0a1b2c'') (JStr ''s3cr3t'')] \<and>
   is_service_post (calls (snd (run_setup redeploy_env (Some (JObj [])) interrupted_world)) ! 3) \<and>
   net redeploy_env 3 = Responds conflict_response \<and>
   calls (snd (run_setup redeploy_env (Some (JObj [])) interrupted_world)) ! Suc 3 =
     update_of (calls (snd (run_setup redeploy_env (Some (JObj [])) interrupted_world)) ! 3) \<and>
   reply_status (fst (run_setup redeploy_env (Some (JObj [])) interrupted_world)) = 200 \<and>
   persisted (snd (run_setup redeploy_env (Some (JObj [])) interrupted_world)) ''step'' =
     JStr ''complete'' \<and>
   (\<exists>j tok ans. j < length (calls (snd (run_setup redeploy_env (Some (JObj [])) interrupted_world))) \<and>
      calls (snd (run_setup redeploy_env (Some (JObj [])) interrupted_world)) ! j =
        service_get tok
          (persisted (snd (run_setup redeploy_env (Some (JObj [])) interrupted_world)) ''project_id'') \<and>
      net redeploy_env j = Responds ans \<and>
      (status_code ans \<noteq> 200 \<longrightarrow>
         reply_field (fst (run_setup redeploy_env (Some (JObj [])) interrupted_world)) ''server_url'' =
           Some (dict_get_default (get_setup_state interrupted_world) ''server_url'' (JStr [])))) \<and>
   reply_field (success_reply (JStr ''ha-tunnel-0a1b2c'') (JStr []) (JStr ''s3cr3t''))
     ''server_url'' = Some (JStr [])"
proof -
  let ?t = "get_token interrupted_world"
  let ?st = "get_setup_state interrupted_world"
  let ?p = "JStr ''ha-tunnel-0a1b2c''"
  let ?pw = "JStr ''s3cr3t''"
  let ?dep = "setup_deploy conflict_env ?t ?p ?pw ?st interrupted_world"
  let ?run = "run_setup redeploy_env (Some (JObj [])) interrupted_world"
  let ?fin = "setup_finish refusing_env ?t ?p ?pw ?st interrupted_world"
  let ?r403 = "\<lparr>status_code = 403, resp_text = ''forbidden'', body_json = Inr (JObj [])\<rparr>"
  have tok: "subscript ?t ''access_token'' = Inr (JStr ''ya29.a0'')"
    by code_simp
  have n1: "net conflict_env (length (calls interrupted_world)) = Responds conflict_response"
    "status_code conflict_response \<notin> {200, 201}"
    by (simp_all add: conflict_env_def interrupted_world_def conflict_response_def)
  have dep: "?dep = (fst ?dep, snd ?dep)" and run: "?run = (fst ?run, snd ?run)"
    by simp_all
  have ok: "reply_status (fst ?run) = 200"
    by code_simp
  have i1: "length (calls interrupted_world) \<le> 3"
    by (simp add: interrupted_world_def)
  have i2: "3 < length (calls (snd ?run))"
    by code_simp
  have i3: "is_service_post (calls (snd ?run) ! 3)"
    by code_simp
  have i4: "net redeploy_env 3 = Responds conflict_response"
    by (simp add: redeploy_env_def)
  have n2: "net refusing_env (length (calls interrupted_world)) = Responds ?r403"
    by (simp add: refusing_env_def interrupted_world_def)
  have fin: "?fin = (Inr (success_reply ?p (JStr []) ?pw), snd ?fin)"
    by code_simp
  note T = deploy_step[where t = ?t and a = "JStr ''ya29.a0''" and e = conflict_env
        and w = interrupted_world and resp = conflict_response and p = ?p and pw = ?pw
        and st = ?st and res = "fst ?dep" and w' = "snd ?dep"
        and x = redeploy_env and rj = "Some (JObj [])" and v = interrupted_world
        and rep = "fst ?run" and v' = "snd ?run" and i = 3 and ?r0.0 = conflict_response
        and ?t2.0 = ?t and ?a2.0 = "JStr ''ya29.a0''" and ?e2.0 = refusing_env
        and u = interrupted_world and r = ?r403
        and ?p2.0 = ?p and ?pw2.0 = ?pw and ?st2.0 = ?st
        and ?rep2.0 = "success_reply ?p (JStr []) ?pw" and u' = "snd ?fin"]
  have c1: "take 2 (new_calls interrupted_world (snd ?dep)) =
     [service_post (JStr ''ya29.a0'') ?p ?pw, service_put (JStr ''ya29.a0'') ?p ?pw]"
    using T tok n1 dep by blast
  have c2: "calls (snd ?run) ! Suc 3 = update_of (calls (snd ?run) ! 3)"
    using T run i1 i2 i3 i4 n1(2) by blast
  have c3: "persisted (snd ?run) ''step'' = JStr ''complete''"
    using T run ok by blast
  have c4: "\<exists>j tok ans. j < length (calls (snd ?run)) \<and>
      calls (snd ?run) ! j = service_get tok (persisted (snd ?run) ''project_id'') \<and>
      net redeploy_env j = Responds ans \<and>
      (status_code ans \<noteq> 200 \<longrightarrow>
         reply_field (fst ?run) ''server_url'' =
           Some (dict_get_default ?st ''server_url'' (JStr [])))"
    using T run ok by blast
  have c5: "reply_field (success_reply ?p (JStr []) ?pw) ''server_url'' =
      Some (dict_get_default ?st ''server_url'' (JStr []))"
    using T tok n2 fin by simp
  have "dict_get_default ?st ''server_url'' (JStr []) = JStr []"
    by code_simp
  with c5 have c5': "reply_field (success_reply ?p (JStr []) ?pw) ''server_url'' = Some (JStr [])"
    by simp
  show ?thesis
    using c1 i3 i4 c2 ok c3 c4 c5' by blast
qed

end
